(* ===== verification/Prelude.thy ===== *)
theory Prelude
  imports Main "HOL-Library.Word"
begin

text \<open>
  Shared vocabulary of the development: machine integers, the error values that stand for
  the exceptions, failed assertions and process exits of the code, the state monad with
  errors and divergence in which every stateful operation is written, C strings, byte
  encodings, and the byte memory \<open>u64 \<Rightarrow> u8\<close> that serves as the abstract specification
  of target memory.
\<close>

unbundle bit_operations_syntax

named_theorems monad_simps \<open>evaluation rules of the monad\<close>
named_theorems store_simps \<open>rules of the abstract memory\<close>

type_synonym u8 = "8 word"
type_synonym u16 = "16 word"
type_synonym u32 = "32 word"
type_synonym u64 = "64 word"

type_synonym cstring = "u8 list"

section \<open>Errors, results and the state monad\<close>

datatype error =
    Runtime_error string
  | Invalid_argument string
  | Length_error
  | Assert_failed string
  | Abort
  | Exit_process int
  | Out_of_bounds

text \<open>
  A result is \<open>None\<close> when the operation never returns, \<open>Some (Inl e)\<close> when it leaves with
  an error and \<open>Some (Inr x)\<close> when it returns \<open>x\<close>. Nothing in the code catches one of these
  errors and goes on with the state they left (the one exception is modelled where it occurs),
  so an error carries no state.
\<close>

type_synonym 'a result = "(error + 'a) option"
type_synonym ('s, 'a) M = "'s \<Rightarrow> ('a \<times> 's) result"

definition return :: "'a \<Rightarrow> ('s, 'a) M" where
  "return a s = Some (Inr (a, s))"

definition throw :: "error \<Rightarrow> ('s, 'a) M" where
  "throw e s = Some (Inl e)"

definition bindM :: "('s, 'a) M \<Rightarrow> ('a \<Rightarrow> ('s, 'b) M) \<Rightarrow> ('s, 'b) M" where
  "bindM f g s = Option.bind (f s)
     (\<lambda>r. case r of Inl e \<Rightarrow> Some (Inl e) | Inr (a, s') \<Rightarrow> g a s')"

definition assertM :: "bool \<Rightarrow> string \<Rightarrow> ('s, unit) M" where
  "assertM b msg = (if b then return () else throw (Assert_failed msg))"

definition getM :: "('s \<Rightarrow> 'a) \<Rightarrow> ('s, 'a) M" where
  "getM f s = return (f s) s"

definition modifyM :: "('s \<Rightarrow> 's) \<Rightarrow> ('s, unit) M" where
  "modifyM f s = return () (f s)"

definition liftE :: "error + 'a \<Rightarrow> ('s, 'a) M" where
  "liftE r = (case r of Inl e \<Rightarrow> throw e | Inr a \<Rightarrow> return a)"

text \<open>Run an operation on one component of the state.\<close>

definition zoom :: "('s \<Rightarrow> 't) \<Rightarrow> ('t \<Rightarrow> 's \<Rightarrow> 's) \<Rightarrow> ('t, 'a) M \<Rightarrow> ('s, 'a) M" where
  "zoom get put f s = Option.bind (f (get s))
     (\<lambda>r. case r of Inl e \<Rightarrow> Some (Inl e) | Inr (a, t) \<Rightarrow> return a (put t s))"

text \<open>An operation of the environment that always returns.\<close>

definition total :: "('s \<Rightarrow> 'a \<times> 's) \<Rightarrow> ('s, 'a) M" where
  "total f s = Some (Inr (f s))"

lemma bindM_apply [monad_simps]:
  "bindM (return a) g s = g a s"
  "bindM (throw e) g s = Some (Inl e)"
  "return a s = Some (Inr (a, s))"
  "throw e s = Some (Inl e)"
  "bindM (getM f) g' s = g' (f s) s"
  "bindM (modifyM h) g'' s = g'' () (h s)"
  "getM f s = Some (Inr (f s, s))"
  "modifyM h s = Some (Inr ((), h s))"
  "liftE (Inl e) s = Some (Inl e)"
  "liftE (Inr a) s = Some (Inr (a, s))"
  "assertM True msg s = Some (Inr ((), s))"
  "assertM False msg s = Some (Inl (Assert_failed msg))"
  "total t s = Some (Inr (t s))"
  by (simp_all add: bindM_def return_def throw_def getM_def modifyM_def liftE_def assertM_def
      total_def)

lemma bindM_Some [monad_simps]:
  "f s = Some (Inr (a, s')) \<Longrightarrow> bindM f g s = g a s'"
  "f s = Some (Inl e) \<Longrightarrow> bindM f g s = Some (Inl e)"
  "f s = None \<Longrightarrow> bindM f g s = None"
  by (simp_all add: bindM_def)

lemma bindM_assoc: "bindM (bindM f g) h = bindM f (\<lambda>a. bindM (g a) h)"
  by (rule ext) (simp add: bindM_def split: option.split sum.split prod.split bind_split)

lemma bindM_eq_OK:
  "bindM f g s = Some (Inr r) \<longleftrightarrow> (\<exists>a s'. f s = Some (Inr (a, s')) \<and> g a s' = Some (Inr r))"
  by (auto simp: bindM_def split: bind_splits sum.splits prod.splits)

lemma bindM_eq_Fail:
  "bindM f g s = Some (Inl e) \<longleftrightarrow>
     f s = Some (Inl e) \<or> (\<exists>a s'. f s = Some (Inr (a, s')) \<and> g a s' = Some (Inl e))"
  by (auto simp: bindM_def split: bind_splits sum.splits prod.splits)

lemma assertM_eq_OK: "assertM b msg s = Some (Inr r) \<longleftrightarrow> b \<and> r = ((), s)"
  by (auto simp: assertM_def monad_simps)

lemma zoom_Some [monad_simps]:
  "f (get s) = Some (Inr (a, t)) \<Longrightarrow> zoom get put f s = Some (Inr (a, put t s))"
  "f (get s) = Some (Inl e) \<Longrightarrow> zoom get put f s = Some (Inl e)"
  "f (get s) = None \<Longrightarrow> zoom get put f s = None"
  by (simp_all add: zoom_def return_def)

lemma zoom_eq_OK:
  "zoom get put f s = Some (Inr (a, s')) \<longleftrightarrow>
     (\<exists>t. f (get s) = Some (Inr (a, t)) \<and> s' = put t s)"
  by (auto simp: zoom_def return_def split: bind_splits sum.splits prod.splits)

subsection \<open>Loops\<close>

lemma bindM_mono [partial_function_mono]:
  assumes B: "mono_option (\<lambda>f. B f s)" and C: "\<And>a s'. mono_option (\<lambda>f. C f a s')"
  shows "mono_option (\<lambda>f. bindM (B f) (C f) s)"
  unfolding bindM_def
proof (intro bind_mono B)
  fix y
  show "mono_option (\<lambda>f. case y of Inl e \<Rightarrow> Some (Inl e) | Inr (a, s') \<Rightarrow> C f a s')"
  proof (cases y)
    case (Inr p)
    then show ?thesis by (cases p) (simp add: C)
  qed (simp add: option.const_mono)
qed

text \<open>
  \<open>do_while body c\<close> is \<open>do x = body; while (c x)\<close>, returning the last \<open>x\<close>;
  \<open>while_loop c body\<close> is \<open>while (c state) body\<close>. Neither need return.
\<close>

partial_function (option) do_while ::
  "('s \<Rightarrow> (error + 'a \<times> 's) option) \<Rightarrow> ('a \<Rightarrow> bool) \<Rightarrow> 's \<Rightarrow> (error + 'a \<times> 's) option" where
  "do_while body c s = Option.bind (body s)
     (\<lambda>r. case r of Inl e \<Rightarrow> Some (Inl e)
           | Inr p \<Rightarrow> if c (fst p) then do_while body c (snd p) else Some (Inr p))"

partial_function (option) while_loop ::
  "('s \<Rightarrow> bool) \<Rightarrow> ('s \<Rightarrow> (error + unit \<times> 's) option) \<Rightarrow> 's \<Rightarrow> (error + unit \<times> 's) option"
  where
  "while_loop c body s =
     (if c s then Option.bind (body s)
        (\<lambda>r. case r of Inl e \<Rightarrow> Some (Inl e) | Inr p \<Rightarrow> while_loop c body (snd p))
      else Some (Inr ((), s)))"

text \<open>Both can be evaluated on runs that end.\<close>

declare do_while.simps [code] while_loop.simps [code]

definition returns :: "'a result \<Rightarrow> bool" where
  "returns r = (case r of Some (Inr _) \<Rightarrow> True | _ \<Rightarrow> False)"

lemma returns_iff: "returns r \<longleftrightarrow> (\<exists>x. r = Some (Inr x))"
  by (auto simp: returns_def split: option.split sum.split)

lemma do_while_stop: "body s = Some (Inr (a, s')) \<Longrightarrow> \<not> c a \<Longrightarrow> do_while body c s = Some (Inr (a, s'))"
  by (subst do_while.simps) simp

lemma do_while_again:
  "body s = Some (Inr (a, s')) \<Longrightarrow> c a \<Longrightarrow> do_while body c s = do_while body c s'"
  by (subst do_while.simps) simp

lemma while_loop_stop: "\<not> c s \<Longrightarrow> while_loop c body s = Some (Inr ((), s))"
  by (subst while_loop.simps) simp

lemma while_loop_again:
  "c s \<Longrightarrow> body s = Some (Inr ((), s')) \<Longrightarrow> while_loop c body s = while_loop c body s'"
  by (subst while_loop.simps) simp

text \<open>Partial correctness of a polling loop: what holds of every finished run.\<close>

lemma do_while_OK:
  assumes "do_while body c s = Some (Inr (a, s'))"
    and last: "\<And>s a s'. body s = Some (Inr (a, s')) \<Longrightarrow> \<not> c a \<Longrightarrow> P s a s'"
    and again: "\<And>s a s' b t. body s = Some (Inr (a, s')) \<Longrightarrow> c a \<Longrightarrow> P s' b t \<Longrightarrow> P s b t"
  shows "P s a s'"
proof -
  have "bd = body \<longrightarrow> k = c \<longrightarrow> (\<forall>a s'. y = Inr (a, s') \<longrightarrow> P s a s')"
    if "do_while bd k s = Some y" for bd k s y
  proof (rule do_while.raw_induct [where P = "\<lambda>bd k s y. bd = body \<longrightarrow> k = c \<longrightarrow>
      (\<forall>a s'. y = Inr (a, s') \<longrightarrow> P s a s')", OF _ that])
    fix rec bd k s y
    assume IH: "\<And>bd k s y. rec bd k s = Some y \<Longrightarrow>
        bd = body \<longrightarrow> k = c \<longrightarrow> (\<forall>a s'. y = Inr (a, s') \<longrightarrow> P s a s')"
      and y: "Option.bind (bd s) (\<lambda>r. case r of Inl e \<Rightarrow> Some (Inl e)
        | Inr p \<Rightarrow> if k (fst p) then rec bd k (snd p) else Some (Inr p)) = Some y"
    show "bd = body \<longrightarrow> k = c \<longrightarrow> (\<forall>a s'. y = Inr (a, s') \<longrightarrow> P s a s')"
      using y IH [of body c] by (auto split: sum.splits if_splits bind_splits intro: last again)
  qed
  with assms(1) show ?thesis by blast
qed

text \<open>Total correctness of a loop: an invariant and a measure that the body decreases.\<close>

lemma while_loop_total:
  fixes m :: "'s \<Rightarrow> nat"
  assumes step: "\<And>s. I s \<Longrightarrow> c s \<Longrightarrow> \<exists>s'. body s = Some (Inr ((), s')) \<and> I s' \<and> m s' < m s"
    and "I s"
  shows "\<exists>s'. while_loop c body s = Some (Inr ((), s')) \<and> I s' \<and> \<not> c s'"
  using assms(2)
proof (induction "m s" arbitrary: s rule: less_induct)
  case less
  show ?case
  proof (cases "c s")
    case True
    with step [OF less.prems] obtain s1
      where s1: "body s = Some (Inr ((), s1))" "I s1" "m s1 < m s" by blast
    with less.hyps [OF s1(3,2)] True show ?thesis by (simp add: while_loop_again)
  next
    case False
    with less.prems show ?thesis by (auto simp: while_loop_stop)
  qed
qed

fun mapM :: "('a \<Rightarrow> ('s, 'b) M) \<Rightarrow> 'a list \<Rightarrow> ('s, 'b list) M" where
  "mapM f [] = return []"
| "mapM f (x # xs) = bindM (f x) (\<lambda>y. bindM (mapM f xs) (\<lambda>ys. return (y # ys)))"

fun forM :: "('a \<Rightarrow> ('s, unit) M) \<Rightarrow> 'a list \<Rightarrow> ('s, unit) M" where
  "forM f [] = return ()"
| "forM f (x # xs) = bindM (f x) (\<lambda>_. forM f xs)"

lemma forM_invariant:
  assumes "\<And>x s. x \<in> set xs \<Longrightarrow> I s \<Longrightarrow> \<exists>s'. f x s = Some (Inr ((), s')) \<and> I s'" and "I s"
  shows "\<exists>s'. forM f xs s = Some (Inr ((), s')) \<and> I s'"
  using assms
proof (induction xs arbitrary: s)
  case Nil
  then show ?case by (simp add: monad_simps)
next
  case (Cons x xs)
  then obtain s1 where "f x s = Some (Inr ((), s1))" "I s1" by force
  with Cons show ?case by (auto simp: monad_simps)
qed

section \<open>Bytes\<close>

text \<open>
  The little-endian layout of an integer in the memory of the host and of the target.
\<close>

definition le_bytes :: "'a::len word \<Rightarrow> u8 list" where
  "le_bytes w = map (\<lambda>i. ucast (drop_bit (8 * i) w)) [0..<LENGTH('a) div 8]"

fun le_word :: "u8 list \<Rightarrow> 'a::len word" where
  "le_word [] = 0"
| "le_word (b # bs) = ucast b OR push_bit 8 (le_word bs)"

declare le_word.simps [simp del]

lemma length_le_bytes [simp]: "length (le_bytes (w :: 'a::len word)) = LENGTH('a) div 8"
  by (simp add: le_bytes_def)

lemma bit_le_word:
  "bit (le_word bs :: 'a::len word) i \<longleftrightarrow>
     i < LENGTH('a) \<and> i div 8 < length bs \<and> bit (bs ! (i div 8)) (i mod 8)"
proof (induction bs arbitrary: i)
  case Nil
  then show ?case by (simp add: le_word.simps)
next
  case (Cons b bs)
  show ?case
  proof (cases "i < 8")
    case True
    then show ?thesis by (auto simp: bit_simps le_word.simps)
  next
    case False
    then obtain j where j: "i = j + 8" by (metis add.commute le_Suc_ex not_less)
    have "\<not> bit b i" using False bit_imp_le_length [of b i] by auto
    moreover have "(j + 8) div 8 = Suc (j div 8)" by simp
    ultimately show ?thesis using Cons.IH [of j] j by (auto simp: bit_simps le_word.simps)
  qed
qed

lemma le_word_le_bytes:
  assumes "8 dvd LENGTH('a)"
  shows "le_word (le_bytes (w :: 'a::len word)) = w"
proof (rule bit_word_eqI)
  fix n assume n: "n < LENGTH('a)"
  then have "n div 8 < LENGTH('a) div 8" using assms by (elim dvdE) (simp add: less_mult_imp_div_less mult.commute)
  then show "bit (le_word (le_bytes w) :: 'a word) n = bit w n"
    using n by (auto simp: bit_le_word le_bytes_def bit_simps)
qed

lemma le_bytes_le_word:
  assumes "length bs = LENGTH('a) div 8"
  shows "le_bytes (le_word bs :: 'a::len word) = bs"
  using assms
  by (intro nth_equalityI) (auto simp: le_bytes_def bit_le_word bit_simps intro!: bit_word_eqI)

section \<open>Byte memory\<close>

type_synonym memory = "u64 \<Rightarrow> u8"

definition load :: "memory \<Rightarrow> u64 \<Rightarrow> nat \<Rightarrow> u8 list" where
  "load m a n = map (\<lambda>i. m (a + of_nat i)) [0..<n]"

definition store :: "memory \<Rightarrow> u64 \<Rightarrow> u8 list \<Rightarrow> memory" where
  "store m a bs = (\<lambda>x. if unat (x - a) < length bs then bs ! unat (x - a) else m x)"

lemma length_load [simp]: "length (load m a n) = n"
  by (simp add: load_def)

lemma nth_load [simp]: "i < n \<Longrightarrow> load m a n ! i = m (a + of_nat i)"
  by (simp add: load_def)

lemma load_0 [simp]: "load m a 0 = []"
  by (simp add: load_def)

lemma store_Nil [simp]: "store m a [] = m"
  by (simp add: store_def)

lemma load_add: "load m a (n + k) = load m a n @ load m (a + of_nat n) k"
  by (rule nth_equalityI) (auto simp: nth_append algebra_simps)

lemma take_drop_load:
  "k + n \<le> l \<Longrightarrow> take n (drop k (load m a l)) = load m (a + of_nat k) n"
  by (rule nth_equalityI) (auto simp: algebra_simps)

lemma take_load: "n \<le> l \<Longrightarrow> take n (load m a l) = load m a n"
  using take_drop_load [of 0 n l m a] by simp

lemma unat64_less: "unat (x :: u64) < 18446744073709551616"
  using unsigned_less [of x] by simp

lemma unat_of_nat64 [simp]: "k < 18446744073709551616 \<Longrightarrow> unat (of_nat k :: u64) = k"
  by (simp add: unat_of_nat)

lemma unat_diff_shift:
  fixes x a :: u64
  assumes "k < 2 ^ 64"
  shows "unat (x - (a + of_nat k)) =
    (if k \<le> unat (x - a) then unat (x - a) - k else 2 ^ 64 + unat (x - a) - k)"
proof -
  define d where "d = x - a"
  have k: "unat (of_nat k :: u64) = k" using assms by simp
  have "x - (a + of_nat k) = d - of_nat k" by (simp add: d_def)
  moreover have "unat (d - of_nat k) = (if k \<le> unat d then unat d - k else 2 ^ 64 + unat d - k)"
    using k by (auto simp: unat_sub_if_size word_size)
  ultimately show ?thesis unfolding d_def by (simp only:)
qed

lemma unat_of_nat_add_diff [simp]:
  fixes a :: u64
  assumes "k < 2 ^ 64"
  shows "unat (a + of_nat k - a) = k"
  using assms by (simp add: unat_of_nat)

lemma store_append:
  assumes "length xs + length ys \<le> 2 ^ 64"
  shows "store (store m a xs) (a + of_nat (length xs)) ys = store m a (xs @ ys)"
proof (cases "ys = []")
  case False
  with assms have l: "length xs < 2 ^ 64" by (cases ys) auto
  show ?thesis
    using assms l unat64_less [of "x - a" for x]
    by (intro ext) (auto simp: store_def unat_diff_shift nth_append)
qed simp

lemma store_append_rev:
  assumes "length xs + length ys \<le> 2 ^ 64"
  shows "store (store m (a + of_nat (length xs)) ys) a xs = store m a (xs @ ys)"
proof (cases "ys = []")
  case False
  with assms have l: "length xs < 2 ^ 64" by (cases ys) auto
  show ?thesis
    using assms l
    by (intro ext) (auto simp: store_def unat_diff_shift nth_append)
qed simp

text \<open>Writing back a block that was read and patched in the middle stores the patch only.\<close>

lemma store_patch:
  assumes "k + length bs \<le> n" and "n \<le> 2 ^ 64" and "k < 2 ^ 64"
  shows "store m a (take k (load m a n) @ bs @ drop (k + length bs) (load m a n))
    = store m (a + of_nat k) bs"
proof
  fix x
  have x: "a + of_nat (unat (x - a)) = x" by simp
  show "store m a (take k (load m a n) @ bs @ drop (k + length bs) (load m a n)) x
    = store m (a + of_nat k) bs x"
    using assms unat64_less [of "x - a"]
    by (auto simp: store_def unat_diff_shift nth_append x)
qed

lemma load_store_same:
  assumes "length bs \<le> 2 ^ 64"
  shows "load (store m a bs) a (length bs) = bs"
proof (rule nth_equalityI)
  fix i assume "i < length (load (store m a bs) a (length bs))"
  then have "i < length bs" "i < 18446744073709551616" using assms by auto
  then show "load (store m a bs) a (length bs) ! i = bs ! i" by (simp add: store_def)
qed simp

lemma load_store_disjoint:
  assumes "\<And>i. i < n \<Longrightarrow> length bs \<le> unat (b + of_nat i - a)"
  shows "load (store m a bs) b n = load m b n"
  using assms by (intro nth_equalityI) (auto simp: store_def leD)

lemma store_after:
  assumes "length bs \<le> i" and "i < 2 ^ 64"
  shows "store m a bs (a + of_nat i) = m (a + of_nat i)"
  using assms by (simp add: store_def)

lemma store_before:
  assumes "i < j" and "j + length bs \<le> 2 ^ 64"
  shows "store m (a + of_nat j) bs (a + of_nat i) = m (a + of_nat i)"
proof (cases "bs = []")
  case False
  with assms have j: "j < 2 ^ 64" by (cases bs) auto
  have "unat (a + of_nat i - (a + of_nat j)) = 2 ^ 64 + i - j"
    using unat_diff_shift [OF j, of "a + of_nat i" a] assms j by simp
  then have "\<not> unat (a + of_nat i - (a + of_nat j)) < length bs" using assms by linarith
  then show ?thesis by (simp only: store_def if_False)
qed simp

lemma store_inside:
  assumes "i < length bs" and "length bs \<le> 2 ^ 64"
  shows "store m a bs (a + of_nat i) = bs ! i"
  using assms by (simp add: store_def)

lemma load_inside:
  assumes "k + n \<le> length bs" "length bs \<le> 2 ^ 64"
  shows "load (store m a bs) (a + of_nat k) n = take n (drop k bs)"
proof (rule nth_equalityI)
  fix i assume i: "i < length (load (store m a bs) (a + of_nat k) n)"
  have "store m a bs (a + of_nat (k + i)) = bs ! (k + i)"
    using i assms by (intro store_inside) simp_all
  then show "load (store m a bs) (a + of_nat k) n ! i = take n (drop k bs) ! i"
    using i assms by (simp add: algebra_simps)
qed (use assms in simp)

lemma store_overwrite:
  assumes "k + length cs \<le> length bs" "length bs \<le> 2 ^ 64" "k < 2 ^ 64"
  shows "store (store m a bs) (a + of_nat k) cs = store m a (take k bs @ cs @ drop (k + length cs) bs)"
proof
  fix x
  show "store (store m a bs) (a + of_nat k) cs x = store m a (take k bs @ cs @ drop (k + length cs) bs) x"
    using assms unat64_less [of "x - a"] by (auto simp: store_def unat_diff_shift nth_append)
qed

lemmas [store_simps] = load_store_same store_append store_append_rev

section \<open>Two words of 32 bits\<close>

definition join :: "u32 \<Rightarrow> u32 \<Rightarrow> u64" where
  "join lo hi = ucast lo OR push_bit 32 (ucast hi)"

lemma join_halves: "join (ucast x) (ucast (drop_bit 32 x)) = x"
  unfolding join_def by (rule bit_word_eqI) (auto simp: bit_simps)

end
