(* ===== verification/Memif.thy ===== *)
theory Memif
  imports Prelude
begin

text \<open>
  The memory interface of \<^verbatim>\<open>memif.h\<close> and \<^verbatim>\<open>memif.cc\<close>. The abstract class \<^verbatim>\<open>chunked_memif_t\<close>
  is a record of operations over the state of the class that implements it; \<^verbatim>\<open>memif_t\<close> turns
  its aligned, bounded chunk transfers into byte-granular reads and writes of any address and
  length.

  A length is a \<open>nat\<close>: it is the length of a buffer, hence far below \<open>2 ^ 64\<close>. An address is a
  \<open>u64\<close> and wraps. The locales \<open>chunk_rw\<close> and \<open>chunk_provider\<close> state what \<^verbatim>\<open>memif_t\<close> relies on:
  chunk transfers act on an abstract byte memory \<open>mem\<close>. Under these laws every read returns the
  bytes of the abstract memory and every write stores exactly its bytes.
\<close>

section \<open>The chunk interface\<close>

record 's chunked_memif =
  read_chunk :: "u64 \<Rightarrow> nat \<Rightarrow> ('s, u8 list) M"
  write_chunk :: "u64 \<Rightarrow> u8 list \<Rightarrow> ('s, unit) M"
  clear_chunk :: "u64 \<Rightarrow> nat \<Rightarrow> ('s, unit) M"
  chunk_align :: "'s \<Rightarrow> nat"
  chunk_max_size :: "'s \<Rightarrow> nat"

section \<open>Byte-granular transfers\<close>

text \<open>The loop over aligned chunks at the end of \<^verbatim>\<open>memif_t::read\<close>.\<close>

partial_function (option) memif_read_loop ::
  "'s chunked_memif \<Rightarrow> u64 \<Rightarrow> nat \<Rightarrow> nat \<Rightarrow> 's \<Rightarrow> (error + u8 list \<times> 's) option" where
  "memif_read_loop c addr pos len s =
     (if pos < len then
        bindM (\<lambda>s. read_chunk c (addr + of_nat pos) (min (chunk_max_size c s) (len - pos)) s)
          (\<lambda>bytes. bindM (\<lambda>s. memif_read_loop c addr (pos + chunk_max_size c s) len s)
          (\<lambda>rest. return (bytes @ rest))) s
      else return [] s)"

text \<open>The unaligned tail is read before the aligned middle.\<close>

definition memif_read_aligned ::
  "'s chunked_memif \<Rightarrow> nat \<Rightarrow> u64 \<Rightarrow> nat \<Rightarrow> ('s, u8 list) M" where
  "memif_read_aligned c align addr len =
     (if len AND (align - 1) \<noteq> 0 then
        let this_len = len AND (align - 1); start = len - this_len in
        bindM (read_chunk c (addr + of_nat start) align) (\<lambda>chunk.
        bindM (memif_read_loop c addr 0 start) (\<lambda>bytes.
        return (bytes @ take this_len chunk)))
      else memif_read_loop c addr 0 len)"

definition memif_read :: "'s chunked_memif \<Rightarrow> u64 \<Rightarrow> nat \<Rightarrow> ('s, u8 list) M" where
  "memif_read c addr len =
     bindM (getM (chunk_align c)) (\<lambda>align.
     if len \<noteq> 0 \<and> addr AND (of_nat align - 1) \<noteq> 0 then
       let off = unat (addr AND (of_nat align - 1)); this_len = min len (align - off) in
       bindM (read_chunk c (addr AND NOT (of_nat align - 1)) align) (\<lambda>chunk.
       bindM (memif_read_aligned c align (addr + of_nat this_len) (len - this_len)) (\<lambda>rest.
       return (take this_len (drop off chunk) @ rest)))
     else memif_read_aligned c align addr len)"

partial_function (option) memif_write_loop ::
  "'s chunked_memif \<Rightarrow> u64 \<Rightarrow> nat \<Rightarrow> nat \<Rightarrow> u8 list \<Rightarrow> 's \<Rightarrow> (error + unit \<times> 's) option" where
  "memif_write_loop c addr max_chunk pos bytes s =
     (if pos < length bytes then
        bindM (write_chunk c (addr + of_nat pos)
                 (take (min max_chunk (length bytes - pos)) (drop pos bytes)))
          (\<lambda>_. memif_write_loop c addr max_chunk (pos + max_chunk) bytes) s
      else return () s)"

text \<open>
  The last part of \<^verbatim>\<open>memif_t::write\<close>: an aligned block of zeros goes through \<^verbatim>\<open>clear_chunk\<close>.
\<close>

definition memif_write_middle :: "'s chunked_memif \<Rightarrow> u64 \<Rightarrow> u8 list \<Rightarrow> ('s, unit) M" where
  "memif_write_middle c addr bytes =
     (if length bytes \<noteq> 0 \<and> list_all (\<lambda>b. b = 0) bytes then clear_chunk c addr (length bytes)
      else bindM (getM (chunk_max_size c)) (\<lambda>max_chunk.
           memif_write_loop c addr max_chunk 0 bytes))"

definition memif_write_aligned ::
  "'s chunked_memif \<Rightarrow> nat \<Rightarrow> u64 \<Rightarrow> u8 list \<Rightarrow> ('s, unit) M" where
  "memif_write_aligned c align addr bytes =
     (let len = length bytes; this_len = len AND (align - 1); start = len - this_len in
      if this_len \<noteq> 0 then
        bindM (read_chunk c (addr + of_nat start) align) (\<lambda>chunk.
        bindM (write_chunk c (addr + of_nat start) (drop start bytes @ drop this_len chunk)) (\<lambda>_.
        memif_write_middle c addr (take start bytes)))
      else memif_write_middle c addr bytes)"

definition memif_write :: "'s chunked_memif \<Rightarrow> u64 \<Rightarrow> u8 list \<Rightarrow> ('s, unit) M" where
  "memif_write c addr bytes =
     bindM (getM (chunk_align c)) (\<lambda>align.
     let len = length bytes; off = unat (addr AND (of_nat align - 1)) in
     if len \<noteq> 0 \<and> addr AND (of_nat align - 1) \<noteq> 0 then
       let this_len = min len (align - off) in
       bindM (read_chunk c (addr AND NOT (of_nat align - 1)) align) (\<lambda>chunk.
       bindM (write_chunk c (addr AND NOT (of_nat align - 1))
                (take off chunk @ take this_len bytes @ drop (off + this_len) chunk)) (\<lambda>_.
       memif_write_aligned c align (addr + of_nat this_len) (drop this_len bytes)))
     else memif_write_aligned c align addr bytes)"

section \<open>Integer accesses\<close>

text \<open>
  The macros \<^verbatim>\<open>MEMIF_READ_FUNC\<close> and \<^verbatim>\<open>MEMIF_WRITE_FUNC\<close> at an integer type of any width. The
  host is little-endian.
\<close>

definition memif_read_val :: "'s chunked_memif \<Rightarrow> u64 \<Rightarrow> ('s, 'a::len word) M" where
  "memif_read_val c addr =
     (let size = LENGTH('a) div 8 in
      if addr AND (of_nat size - 1) \<noteq> 0 then throw (Runtime_error ''misaligned address'')
      else bindM (memif_read c addr size) (\<lambda>bytes. return (le_word bytes)))"

definition memif_write_val :: "'s chunked_memif \<Rightarrow> u64 \<Rightarrow> 'a::len word \<Rightarrow> ('s, unit) M" where
  "memif_write_val c addr val =
     (let size = LENGTH('a) div 8 in
      if addr AND (of_nat size - 1) \<noteq> 0 then throw (Runtime_error ''misaligned address'')
      else memif_write c addr (le_bytes val))"

definition read_uint8 :: "'s chunked_memif \<Rightarrow> u64 \<Rightarrow> ('s, u8) M" where
  "read_uint8 c addr = memif_read_val c addr"

definition read_int8 :: "'s chunked_memif \<Rightarrow> u64 \<Rightarrow> ('s, int) M" where
  "read_int8 c addr = bindM (memif_read_val c addr) (\<lambda>val :: u8. return (sint val))"

definition write_uint8 :: "'s chunked_memif \<Rightarrow> u64 \<Rightarrow> u8 \<Rightarrow> ('s, unit) M" where
  "write_uint8 c addr val = memif_write_val c addr val"

definition write_int8 :: "'s chunked_memif \<Rightarrow> u64 \<Rightarrow> int \<Rightarrow> ('s, unit) M" where
  "write_int8 c addr val = memif_write_val c addr (word_of_int val :: u8)"

definition read_uint16 :: "'s chunked_memif \<Rightarrow> u64 \<Rightarrow> ('s, u16) M" where
  "read_uint16 c addr = memif_read_val c addr"

definition read_int16 :: "'s chunked_memif \<Rightarrow> u64 \<Rightarrow> ('s, int) M" where
  "read_int16 c addr = bindM (memif_read_val c addr) (\<lambda>val :: u16. return (sint val))"

definition write_uint16 :: "'s chunked_memif \<Rightarrow> u64 \<Rightarrow> u16 \<Rightarrow> ('s, unit) M" where
  "write_uint16 c addr val = memif_write_val c addr val"

definition write_int16 :: "'s chunked_memif \<Rightarrow> u64 \<Rightarrow> int \<Rightarrow> ('s, unit) M" where
  "write_int16 c addr val = memif_write_val c addr (word_of_int val :: u16)"

definition read_uint32 :: "'s chunked_memif \<Rightarrow> u64 \<Rightarrow> ('s, u32) M" where
  "read_uint32 c addr = memif_read_val c addr"

definition read_int32 :: "'s chunked_memif \<Rightarrow> u64 \<Rightarrow> ('s, int) M" where
  "read_int32 c addr = bindM (memif_read_val c addr) (\<lambda>val :: u32. return (sint val))"

definition write_uint32 :: "'s chunked_memif \<Rightarrow> u64 \<Rightarrow> u32 \<Rightarrow> ('s, unit) M" where
  "write_uint32 c addr val = memif_write_val c addr val"

definition write_int32 :: "'s chunked_memif \<Rightarrow> u64 \<Rightarrow> int \<Rightarrow> ('s, unit) M" where
  "write_int32 c addr val = memif_write_val c addr (word_of_int val :: u32)"

definition read_uint64 :: "'s chunked_memif \<Rightarrow> u64 \<Rightarrow> ('s, u64) M" where
  "read_uint64 c addr = memif_read_val c addr"

definition read_int64 :: "'s chunked_memif \<Rightarrow> u64 \<Rightarrow> ('s, int) M" where
  "read_int64 c addr = bindM (memif_read_val c addr) (\<lambda>val :: u64. return (sint val))"

definition write_uint64 :: "'s chunked_memif \<Rightarrow> u64 \<Rightarrow> u64 \<Rightarrow> ('s, unit) M" where
  "write_uint64 c addr val = memif_write_val c addr val"

definition write_int64 :: "'s chunked_memif \<Rightarrow> u64 \<Rightarrow> int \<Rightarrow> ('s, unit) M" where
  "write_int64 c addr val = memif_write_val c addr (word_of_int val :: u64)"

section \<open>Alignment\<close>

lemma unat_and_align:
  fixes a :: u64
  shows "unat (a AND (2 ^ k - 1)) = unat a mod 2 ^ k"
  by (simp flip: mask_eq_exp_minus_1 take_bit_eq_mask take_bit_eq_mod
      add: unsigned_take_bit_eq)

lemma nat_and_align: "(n::nat) AND (2 ^ k - 1) = n mod 2 ^ k"
  using take_bit_eq_mask [of k n] by (simp only: mask_eq_exp_minus_1 take_bit_eq_mod)

lemmas nat_and_align_Suc = nat_and_align [unfolded One_nat_def]

lemma and_not_align:
  fixes a :: u64
  shows "a AND NOT (2 ^ k - 1) = a - of_nat (unat a mod 2 ^ k)"
proof -
  define m :: u64 where "m = 2 ^ k - 1"
  have "a - (a AND m) = a AND NOT (a AND m)"
    by (rule disjunctive_diff_eq_and_not) (simp flip: and.assoc)
  moreover have "a AND NOT (a AND m) = a AND NOT m"
    by (rule bit_word_eqI) (simp only: bit_and_iff bit_not_iff, blast)
  moreover have "a AND m = of_nat (unat a mod 2 ^ k)"
    unfolding m_def by (simp flip: unat_and_align)
  ultimately show ?thesis by (simp add: m_def)
qed

lemma aligned_iff: "(a :: u64) AND (2 ^ k - 1) = 0 \<longleftrightarrow> 2 ^ k dvd unat a"
  by (simp add: dvd_eq_mod_eq_0 flip: unat_and_align unat_eq_0)

lemma unat_add_mod:
  assumes "k < 64"
  shows "unat (a + of_nat n :: u64) mod 2 ^ k = (unat a + n) mod 2 ^ k"
proof -
  have "(2::nat) ^ k dvd 2 ^ 64" using assms by (intro le_imp_power_dvd) simp
  then show ?thesis by (simp add: unat_word_ariths unat_of_nat mod_mod_cancel mod_simps)
qed

section \<open>The contract of a chunk provider\<close>

text \<open>
  What \<^verbatim>\<open>memif_t\<close> asks of the class behind it: in states that satisfy \<open>invar\<close> the alignment is
  \<open>2 ^ k\<close> and the largest transfer is \<open>mx\<close> bytes; a transfer of whole chunks at valid addresses
  returns, keeps the invariant and acts on the abstract memory \<open>mem\<close>.
\<close>

locale chunk_rw =
  fixes c :: "'s chunked_memif" and mem :: "'s \<Rightarrow> memory" and invar :: "'s \<Rightarrow> bool"
    and valid :: "u64 \<Rightarrow> bool" and k mx :: nat
  assumes align_bound: "k < 64"
    and max_pos: "0 < mx"
    and align_dvd_max: "2 ^ k dvd mx"
    and align: "invar s \<Longrightarrow> chunk_align c s = 2 ^ k"
    and max_size: "invar s \<Longrightarrow> chunk_max_size c s = mx"
    and valid_chunk: "valid x \<Longrightarrow> x AND NOT (2 ^ k - 1) = y AND NOT (2 ^ k - 1) \<Longrightarrow> valid y"
    and read_chunk: "invar s \<Longrightarrow> a AND (2 ^ k - 1) = 0 \<Longrightarrow> 2 ^ k dvd n \<Longrightarrow> 0 < n \<Longrightarrow> n \<le> mx \<Longrightarrow>
      \<forall>i<n. valid (a + of_nat i) \<Longrightarrow>
      \<exists>s'. read_chunk c a n s = Some (Inr (load (mem s) a n, s')) \<and> invar s' \<and> mem s' = mem s"
    and write_chunk: "invar s \<Longrightarrow> a AND (2 ^ k - 1) = 0 \<Longrightarrow> 2 ^ k dvd length bs \<Longrightarrow> bs \<noteq> [] \<Longrightarrow>
      length bs \<le> mx \<Longrightarrow> \<forall>i<length bs. valid (a + of_nat i) \<Longrightarrow>
      \<exists>s'. write_chunk c a bs s = Some (Inr ((), s')) \<and> invar s' \<and> mem s' = store (mem s) a bs"
begin

lemma align_le_max: "2 ^ k \<le> mx"
  using align_dvd_max max_pos by (rule dvd_imp_le)

lemma align_less: "(2::nat) ^ k < 2 ^ 64"
  by (rule power_strict_increasing [OF align_bound]) simp

lemma aligned_add:
  "a AND (2 ^ k - 1) = (0::u64) \<Longrightarrow> 2 ^ k dvd n \<Longrightarrow> (a + of_nat n) AND (2 ^ k - 1) = 0"
  using unat_add_mod [OF align_bound, of a n] unfolding aligned_iff
  by (metis dvd_add dvd_eq_mod_eq_0)

lemma base_aligned: "(a AND NOT (2 ^ k - 1)) AND (2 ^ k - 1) = (0::u64)"
  by (intro bit_word_eqI) (simp add: bit_simps)

text \<open>Every byte of the chunk around a valid address is valid.\<close>

lemma valid_base:
  assumes "valid x" and "j < 2 ^ k"
  shows "valid ((x AND NOT (2 ^ k - 1)) + of_nat j)"
proof -
  let ?b = "x AND NOT (2 ^ k - 1)"
  obtain q where "unat ?b = 2 ^ k * q"
    using base_aligned [of x] unfolding aligned_iff by (elim dvdE)
  then have "unat (?b + of_nat j) mod 2 ^ k = j"
    using unat_add_mod [OF align_bound, of ?b j] assms(2) by simp
  then have "(?b + of_nat j) AND NOT (2 ^ k - 1) = ?b" by (simp add: and_not_align)
  then show ?thesis using valid_chunk [OF assms(1)] by simp
qed

lemma read_loop:
  assumes "invar s" "a AND (2 ^ k - 1) = 0" "2 ^ k dvd n" "2 ^ k dvd pos" "pos \<le> n"
    "\<forall>i<n. valid (a + of_nat i)"
  shows "\<exists>s'. memif_read_loop c a pos n s = Some (Inr (load (mem s) (a + of_nat pos) (n - pos), s'))
    \<and> invar s' \<and> mem s' = mem s"
  using assms
proof (induction "n - pos" arbitrary: pos s rule: less_induct)
  case less
  show ?case
  proof (cases "pos < n")
    case False
    with less.prems show ?thesis by (subst memif_read_loop.simps) (simp add: monad_simps)
  next
    case True
    define l where "l = min mx (n - pos)"
    have l: "2 ^ k dvd l" "0 < l" "l \<le> mx" "l \<le> n - pos"
      using True less.prems align_dvd_max max_pos by (auto simp: l_def min_def)
    have "\<forall>i<l. valid (a + of_nat pos + of_nat i)"
    proof (intro allI impI)
      fix i assume "i < l"
      then have "pos + i < n" using l by simp
      then have "valid (a + of_nat (pos + i))" using less.prems(6) by blast
      then show "valid (a + of_nat pos + of_nat i)" by (simp add: add.assoc)
    qed
    with less.prems l obtain s1 where s1: "invar s1" "mem s1 = mem s"
      "read_chunk c (a + of_nat pos) l s = Some (Inr (load (mem s) (a + of_nat pos) l, s1))"
      using read_chunk [of s "a + of_nat pos" l] aligned_add by blast
    show ?thesis
    proof (cases "mx < n - pos")
      case True
      then have l_mx: "l = mx" by (simp add: l_def)
      have "\<exists>s'. memif_read_loop c a (pos + mx) n s1 =
          Some (Inr (load (mem s1) (a + of_nat (pos + mx)) (n - (pos + mx)), s'))
          \<and> invar s' \<and> mem s' = mem s1"
        using less.prems s1 True max_pos align_dvd_max by (intro less.hyps) auto
      moreover have "load (mem s) (a + of_nat pos) (n - pos) = load (mem s) (a + of_nat pos) mx @
          load (mem s) (a + of_nat (pos + mx)) (n - (pos + mx))"
        using load_add [of "mem s" "a + of_nat pos" mx "n - (pos + mx)"] True
        by (simp add: add.assoc)
      ultimately show ?thesis
        using s1 True \<open>pos < n\<close> less.prems l_mx
        by (subst memif_read_loop.simps) (auto simp: monad_simps max_size l_def)
    next
      case False
      then have l_n: "l = n - pos" "\<not> pos + mx < n" by (auto simp: l_def)
      then have "memif_read_loop c a (pos + mx) n s1 = Some (Inr ([], s1))"
        by (subst memif_read_loop.simps) (simp add: monad_simps)
      then show ?thesis
        using s1 \<open>pos < n\<close> less.prems l_n
        by (subst memif_read_loop.simps) (auto simp: monad_simps max_size l_def)
    qed
  qed
qed

lemma read_aligned:
  assumes "invar s" "n = 0 \<or> a AND (2 ^ k - 1) = 0" "\<forall>i<n. valid (a + of_nat i)"
  shows "\<exists>s'. memif_read_aligned c (2 ^ k) a n s = Some (Inr (load (mem s) a n, s'))
    \<and> invar s' \<and> mem s' = mem s"
proof (cases "n = 0")
  case True
  then show ?thesis using assms(1)
    by (simp add: memif_read_aligned_def memif_read_loop.simps [of c a 0 0] monad_simps)
next
  case False
  then have a: "a AND (2 ^ k - 1) = 0" using assms(2) by simp
  define r where "r = n mod 2 ^ k"
  define start where "start = n - r"
  have sr: "2 ^ k dvd start" "start + r = n" "r < 2 ^ k"
    by (auto simp: start_def r_def minus_mod_eq_mult_div)
  have loop: "\<exists>s'. memif_read_loop c a 0 start s1 = Some (Inr (load (mem s1) a start, s'))
      \<and> invar s' \<and> mem s' = mem s1" if "invar s1" for s1
    using read_loop [OF that a sr(1), of 0] assms(3) sr by auto
  show ?thesis
  proof (cases "r = 0")
    case True
    then show ?thesis using loop [OF assms(1)] sr
      by (simp add: memif_read_aligned_def nat_and_align_Suc r_def)
  next
    case False
    with sr assms(3) have "valid (a + of_nat start)" by simp
    moreover have al: "(a + of_nat start) AND (2 ^ k - 1) = 0" using a sr by (intro aligned_add)
    moreover have "(a + of_nat start) AND NOT (2 ^ k - 1) = a + of_nat start"
      using al by (simp add: and_not_align aligned_iff dvd_eq_mod_eq_0)
    ultimately have "\<forall>i<2 ^ k. valid (a + of_nat start + of_nat i)"
      using valid_base by metis
    then obtain s1 where s1: "invar s1" "mem s1 = mem s"
      "read_chunk c (a + of_nat start) (2 ^ k) s =
         Some (Inr (load (mem s) (a + of_nat start) (2 ^ k), s1))"
      using read_chunk [OF assms(1) al, of "2 ^ k"] align_le_max by auto
    obtain s2 where s2: "memif_read_loop c a 0 start s1 = Some (Inr (load (mem s1) a start, s2))"
      "invar s2" "mem s2 = mem s1" using loop [OF s1(1)] by blast
    have "load (mem s) a start @ take r (load (mem s) (a + of_nat start) (2 ^ k)) = load (mem s) a n"
      using load_add [of "mem s" a start r] sr by (simp add: take_load)
    then show ?thesis using False s1 s2
      by (auto simp: memif_read_aligned_def nat_and_align_Suc monad_simps Let_def simp flip: r_def start_def)
  qed
qed

lemma head_chunk:
  fixes a :: u64
  assumes "off = unat a mod 2 ^ k"
  shows "a AND NOT (2 ^ k - 1) = a - of_nat off" "off < 2 ^ k" "off < 2 ^ 64"
    "(a AND (2 ^ k - 1) \<noteq> 0) = (off \<noteq> 0)" "unat (a AND (2 ^ k - 1)) = off"
    "off + l = 2 ^ k \<Longrightarrow> (a + of_nat l) AND (2 ^ k - 1) = 0"
proof -
  show off: "off < 2 ^ k" "a AND NOT (2 ^ k - 1) = a - of_nat off"
    "unat (a AND (2 ^ k - 1)) = off"
    using assms by (auto simp: and_not_align unat_and_align)
  show "off < 2 ^ 64" using off(1) align_less by (rule less_trans)
  show "(a AND (2 ^ k - 1) \<noteq> 0) = (off \<noteq> 0)"
    using assms by (auto simp: aligned_iff dvd_eq_mod_eq_0)
  assume l: "off + l = 2 ^ k"
  have "a + of_nat l = (a - of_nat off) + of_nat (2 ^ k)" by (simp flip: l)
  moreover have "((a - of_nat off) + of_nat (2 ^ k)) AND (2 ^ k - 1) = 0"
    using base_aligned [of a] unfolding off(2) by (rule aligned_add) simp
  ultimately show "(a + of_nat l) AND (2 ^ k - 1) = 0" by (simp only:)
qed

theorem read_correct:
  assumes "invar s" "\<forall>i<n. valid (a + of_nat i)"
  shows "\<exists>s'. memif_read c a n s = Some (Inr (load (mem s) a n, s')) \<and> invar s' \<and> mem s' = mem s"
proof -
  define off where "off = unat a mod 2 ^ k"
  note hd = head_chunk [OF off_def]
  show ?thesis
  proof (cases "n \<noteq> 0 \<and> off \<noteq> 0")
    case False
    then have "memif_read c a n s = memif_read_aligned c (2 ^ k) a n s"
      using hd assms(1) by (auto simp: memif_read_def monad_simps align)
    moreover have "n = 0 \<or> a AND (2 ^ k - 1) = 0" using False hd(4) by blast
    ultimately show ?thesis using read_aligned [OF assms(1) _ assms(2)] by simp
  next
    case True
    define l where "l = min n (2 ^ k - off)"
    have "valid (a + of_nat 0)" using assms(2) True by blast
    then have "valid a" by simp
    then have "\<forall>i<2 ^ k. valid ((a - of_nat off) + of_nat i)" using valid_base [of a] hd(1) by simp
    then obtain s1 where s1: "invar s1" "mem s1 = mem s"
      "read_chunk c (a - of_nat off) (2 ^ k) s = Some (Inr (load (mem s) (a - of_nat off) (2 ^ k), s1))"
      using read_chunk [OF assms(1) base_aligned [of a], of "2 ^ k"] align_le_max hd(1) by auto
    have "n - l = 0 \<or> (a + of_nat l) AND (2 ^ k - 1) = 0"
      using hd(6) [of l] hd(2) by (auto simp: l_def min_def)
    moreover have "\<forall>i<n - l. valid (a + of_nat l + of_nat i)"
      using assms(2) by (metis add.assoc add.commute less_diff_conv of_nat_add)
    ultimately obtain s2 where s2: "memif_read_aligned c (2 ^ k) (a + of_nat l) (n - l) s1 =
        Some (Inr (load (mem s1) (a + of_nat l) (n - l), s2))" "invar s2" "mem s2 = mem s1"
      using read_aligned s1(1) by blast
    have "take l (drop off (load (mem s) (a - of_nat off) (2 ^ k))) = load (mem s) a l"
      using take_drop_load [of off l "2 ^ k" "mem s" "a - of_nat off"] hd(2) by (simp add: l_def)
    moreover have "load (mem s) a n = load (mem s) a l @ load (mem s) (a + of_nat l) (n - l)"
      using load_add [of "mem s" a l "n - l"] by (simp add: l_def)
    ultimately show ?thesis using True s1 s2 assms(1) hd
      by (auto simp: memif_read_def monad_simps align Let_def simp flip: l_def)
  qed
qed

lemma write_loop:
  assumes "invar s" "a AND (2 ^ k - 1) = 0" "2 ^ k dvd length bs" "2 ^ k dvd pos" "pos \<le> length bs"
    "length bs \<le> 2 ^ 64" "\<forall>i<length bs. valid (a + of_nat i)"
  shows "\<exists>s'. memif_write_loop c a mx pos bs s = Some (Inr ((), s'))
    \<and> invar s' \<and> mem s' = store (mem s) (a + of_nat pos) (drop pos bs)"
  using assms
proof (induction "length bs - pos" arbitrary: pos s rule: less_induct)
  case less
  show ?case
  proof (cases "pos < length bs")
    case False
    with less.prems show ?thesis by (subst memif_write_loop.simps) (simp add: monad_simps)
  next
    case True
    define l where "l = min mx (length bs - pos)"
    define w where "w = take l (drop pos bs)"
    have l: "2 ^ k dvd l" "0 < l" "l \<le> mx" "l \<le> length bs - pos"
      using True less.prems align_dvd_max max_pos by (auto simp: l_def min_def)
    then have w: "length w = l" by (simp add: w_def)
    have "\<forall>i<length w. valid (a + of_nat pos + of_nat i)"
    proof (intro allI impI)
      fix i assume "i < length w"
      then have "pos + i < length bs" using l w by simp
      then have "valid (a + of_nat (pos + i))" using less.prems(7) by blast
      then show "valid (a + of_nat pos + of_nat i)" by (simp add: add.assoc)
    qed
    moreover have "w \<noteq> []" using w l by auto
    ultimately obtain s1 where s1: "invar s1" "mem s1 = store (mem s) (a + of_nat pos) w"
      "write_chunk c (a + of_nat pos) w s = Some (Inr ((), s1))"
      using write_chunk [of s "a + of_nat pos" w] aligned_add less.prems l w by blast
    have unfold: "memif_write_loop c a mx pos bs s = memif_write_loop c a mx (pos + mx) bs s1"
      using True s1 by (subst memif_write_loop.simps) (simp add: monad_simps w_def l_def)
    show ?thesis
    proof (cases "mx < length bs - pos")
      case True
      then have l_mx: "l = mx" by (simp add: l_def)
      have "\<exists>s'. memif_write_loop c a mx (pos + mx) bs s1 = Some (Inr ((), s'))
          \<and> invar s' \<and> mem s' = store (mem s1) (a + of_nat (pos + mx)) (drop (pos + mx) bs)"
        using less.prems s1 True max_pos align_dvd_max by (intro less.hyps) auto
      moreover have "store (mem s1) (a + of_nat (pos + mx)) (drop (pos + mx) bs)
          = store (mem s) (a + of_nat pos) (drop pos bs)"
        using store_append [of w "drop (pos + mx) bs" "mem s" "a + of_nat pos"]
          append_take_drop_id [of mx "drop pos bs"] less.prems True w l_mx s1(2)
        by (simp add: w_def add.commute add.left_commute)
      ultimately show ?thesis unfolding unfold by simp
    next
      case False
      then have "w = drop pos bs" "\<not> pos + mx < length bs" using l by (auto simp: l_def w_def)
      then show ?thesis unfolding unfold using s1
        by (subst memif_write_loop.simps) (simp add: monad_simps)
    qed
  qed
qed

end

text \<open>
  \<open>clears c invar mem valid k s a n\<close>: in state \<open>s\<close>, clearing the aligned block of \<open>n\<close> bytes at
  \<open>a\<close> returns and stores zeros there.
\<close>

definition clears ::
  "'s chunked_memif \<Rightarrow> ('s \<Rightarrow> bool) \<Rightarrow> ('s \<Rightarrow> memory) \<Rightarrow> 's \<Rightarrow> u64 \<Rightarrow> nat \<Rightarrow> bool" where
  "clears c invar mem s a n \<longleftrightarrow>
     (\<exists>s'. clear_chunk c a n s = Some (Inr ((), s')) \<and> invar s'
       \<and> mem s' = store (mem s) a (replicate n 0))"

context chunk_rw
begin

lemma write_middle:
  assumes "invar s" "bs = [] \<or> a AND (2 ^ k - 1) = 0" "2 ^ k dvd length bs" "length bs \<le> 2 ^ 64"
    "\<forall>i<length bs. valid (a + of_nat i)" "bs \<noteq> [] \<Longrightarrow> clears c invar mem s a (length bs)"
  shows "\<exists>s'. memif_write_middle c a bs s = Some (Inr ((), s')) \<and> invar s' \<and> mem s' = store (mem s) a bs"
proof (cases "bs \<noteq> [] \<and> list_all (\<lambda>b. b = 0) bs")
  case True
  then have "bs = replicate (length bs) 0" by (intro replicate_eqI) (auto simp: list_all_iff)
  then have "replicate (length bs) 0 = bs" by (rule sym)
  then show ?thesis using True assms(6) by (auto simp: memif_write_middle_def clears_def)
next
  case False
  show ?thesis
  proof (cases "bs = []")
    case True
    then show ?thesis using assms(1)
      by (simp add: memif_write_middle_def monad_simps memif_write_loop.simps [of c a _ 0 "[]"])
  next
    case nonempty: False
    then have "a AND (2 ^ k - 1) = 0" using assms(2) by simp
    from write_loop [OF assms(1) this assms(3), of 0] show ?thesis
      using False nonempty assms by (auto simp: memif_write_middle_def monad_simps max_size)
  qed
qed

lemma write_aligned:
  assumes "invar s" "bs = [] \<or> a AND (2 ^ k - 1) = 0" "length bs \<le> 2 ^ 64"
    "\<forall>i<length bs. valid (a + of_nat i)"
    and clr: "\<And>s1 n. invar s1 \<Longrightarrow> 0 < n \<Longrightarrow> n \<le> length bs \<Longrightarrow> 2 ^ k dvd n \<Longrightarrow> a AND (2 ^ k - 1) = 0 \<Longrightarrow>
      \<forall>i<n. mem s1 (a + of_nat i) = mem s (a + of_nat i) \<Longrightarrow> clears c invar mem s1 a n"
  shows "\<exists>s'. memif_write_aligned c (2 ^ k) a bs s = Some (Inr ((), s'))
    \<and> invar s' \<and> mem s' = store (mem s) a bs"
proof -
  define r where "r = length bs mod 2 ^ k"
  define start where "start = length bs - r"
  have sr: "2 ^ k dvd start" "start + r = length bs" "r < 2 ^ k" "start \<le> length bs"
    by (auto simp: start_def r_def minus_mod_eq_mult_div)
  show ?thesis
  proof (cases "r = 0")
    case True
    then have "memif_write_aligned c (2 ^ k) a bs s = memif_write_middle c a bs s"
      by (simp add: memif_write_aligned_def nat_and_align_Suc r_def Let_def)
    then show ?thesis using write_middle [OF assms(1,2) _ assms(3,4)] clr [OF assms(1)] assms(2) True
      by (auto simp: r_def dvd_eq_mod_eq_0)
  next
    case False
    let ?b = "a + of_nat start"
    have a: "a AND (2 ^ k - 1) = 0" using assms(2) False r_def by auto
    have al: "?b AND (2 ^ k - 1) = 0" using a sr by (intro aligned_add)
    have "?b AND NOT (2 ^ k - 1) = ?b"
      using al by (simp add: and_not_align aligned_iff dvd_eq_mod_eq_0)
    moreover have "valid ?b" using False sr assms(4) by simp
    ultimately have vb: "\<forall>i<2 ^ k. valid (?b + of_nat i)"
      using valid_base [of ?b] by simp
    then obtain s1 where s1: "invar s1" "mem s1 = mem s"
      "read_chunk c ?b (2 ^ k) s = Some (Inr (load (mem s) ?b (2 ^ k), s1))"
      using read_chunk [OF assms(1) al, of "2 ^ k"] align_le_max by auto
    let ?w = "drop start bs @ drop r (load (mem s) ?b (2 ^ k))"
    have w: "length (drop start bs) = r" "length ?w = 2 ^ k" using sr by auto
    then have "?w \<noteq> []" by (metis list.size(3) power_eq_0_iff zero_neq_numeral)
    with w vb obtain s2 where s2: "invar s2" "mem s2 = store (mem s1) ?b ?w"
      "write_chunk c ?b ?w s1 = Some (Inr ((), s2))"
      using write_chunk [OF s1(1) al, of ?w] align_le_max by auto
    have m2: "mem s2 = store (mem s) ?b (drop start bs)"
      using store_patch [of 0 "drop start bs" "2 ^ k" "mem s" ?b] w sr align_less s1 s2 by simp
    have agree: "\<forall>i < start. mem s2 (a + of_nat i) = mem s (a + of_nat i)"
      using sr assms(3) by (simp add: m2 store_before)
    have "\<exists>s'. memif_write_middle c a (take start bs) s2 = Some (Inr ((), s')) \<and> invar s'
        \<and> mem s' = store (mem s2) a (take start bs)"
    proof (rule write_middle [OF s2(1)])
      assume "take start bs \<noteq> []"
      then show "clears c invar mem s2 a (length (take start bs))"
        using clr [OF s2(1), of start] sr a agree by simp
    qed (use a sr assms(3,4) in auto)
    moreover have "store (mem s2) a (take start bs) = store (mem s) a bs"
      using store_append_rev [of "take start bs" "drop start bs" "mem s" a] sr assms(3) m2 by simp
    ultimately show ?thesis using False s1(3) s2(3)
      by (auto simp: memif_write_aligned_def nat_and_align_Suc monad_simps Let_def
          simp flip: r_def start_def)
  qed
qed

theorem write_correct_if:
  assumes "invar s" "length bs \<le> 2 ^ 64" "\<forall>i<length bs. valid (a + of_nat i)"
    and clr: "\<And>s1 d n. invar s1 \<Longrightarrow> 0 < n \<Longrightarrow> d + n \<le> length bs \<Longrightarrow> 2 ^ k dvd n \<Longrightarrow>
      (a + of_nat d) AND (2 ^ k - 1) = 0 \<Longrightarrow>
      \<forall>i<n. mem s1 (a + of_nat d + of_nat i) = mem s (a + of_nat d + of_nat i) \<Longrightarrow>
      clears c invar mem s1 (a + of_nat d) n"
  shows "\<exists>s'. memif_write c a bs s = Some (Inr ((), s')) \<and> invar s' \<and> mem s' = store (mem s) a bs"
proof -
  define off where "off = unat a mod 2 ^ k"
  note hd = head_chunk [OF off_def]
  show ?thesis
  proof (cases "bs \<noteq> [] \<and> off \<noteq> 0")
    case False
    then have "memif_write c a bs s = memif_write_aligned c (2 ^ k) a bs s"
      using hd assms(1) by (auto simp: memif_write_def monad_simps align)
    moreover have "bs = [] \<or> a AND (2 ^ k - 1) = 0" using False hd(4) by blast
    ultimately show ?thesis using write_aligned [OF assms(1) _ assms(2,3)] clr [of _ _ 0] by simp
  next
    case True
    define l where "l = min (length bs) (2 ^ k - off)"
    have l: "off + l \<le> 2 ^ k" "l \<le> length bs" using hd(2) by (auto simp: l_def)
    have "valid (a + of_nat 0)" using assms(3) True by blast
    then have vb: "\<forall>i<2 ^ k. valid ((a - of_nat off) + of_nat i)"
      using valid_base [of a] hd(1) by simp
    note al = base_aligned [of a, unfolded hd(1)]
    obtain s1 where s1: "invar s1" "mem s1 = mem s"
      "read_chunk c (a - of_nat off) (2 ^ k) s = Some (Inr (load (mem s) (a - of_nat off) (2 ^ k), s1))"
      using read_chunk [OF assms(1) al, of "2 ^ k"] align_le_max vb by auto
    let ?old = "load (mem s) (a - of_nat off) (2 ^ k)"
    let ?w = "take off ?old @ take l bs @ drop (off + l) ?old"
    have w: "length ?w = 2 ^ k" using l by simp
    then have "?w \<noteq> []" by (metis list.size(3) power_eq_0_iff zero_neq_numeral)
    with w vb obtain s2 where s2: "invar s2" "mem s2 = store (mem s1) (a - of_nat off) ?w"
      "write_chunk c (a - of_nat off) ?w s1 = Some (Inr ((), s2))"
      using write_chunk [OF s1(1) al, of ?w] align_le_max by auto
    have m2: "mem s2 = store (mem s) a (take l bs)"
      using store_patch [of off "take l bs" "2 ^ k" "mem s" "a - of_nat off"] hd(3) l align_less s1 s2
      by (simp add: min_absorb2)
    have agree: "mem s2 (a + of_nat l + of_nat i) = mem s (a + of_nat l + of_nat i)"
      if "i < length bs - l" for i
      using that assms(2) l store_after [of "take l bs" "l + i" "mem s" a]
      by (simp add: m2 min_absorb2 add.assoc)
    have "\<exists>s'. memif_write_aligned c (2 ^ k) (a + of_nat l) (drop l bs) s2 = Some (Inr ((), s'))
        \<and> invar s' \<and> mem s' = store (mem s2) (a + of_nat l) (drop l bs)"
    proof (rule write_aligned [OF s2(1)])
      show "drop l bs = [] \<or> (a + of_nat l) AND (2 ^ k - 1) = 0"
        using hd(6) [of l] hd(2) by (auto simp: l_def min_def)
      show "length (drop l bs) \<le> 2 ^ 64" using assms(2) by simp
      show "\<forall>i<length (drop l bs). valid (a + of_nat l + of_nat i)"
        using assms(3) by (metis add.assoc add.commute length_drop less_diff_conv of_nat_add)
    next
      fix s3 n
      assume "invar s3" "0 < n" "n \<le> length (drop l bs)" "2 ^ k dvd n"
        "(a + of_nat l) AND (2 ^ k - 1) = 0"
        "\<forall>i<n. mem s3 (a + of_nat l + of_nat i) = mem s2 (a + of_nat l + of_nat i)"
      then show "clears c invar mem s3 (a + of_nat l) n" using agree l by (intro clr) auto
    qed
    moreover have "store (mem s2) (a + of_nat l) (drop l bs) = store (mem s) a bs"
      using store_append [of "take l bs" "drop l bs" "mem s" a] l assms(2) m2 by simp
    ultimately show ?thesis using True s1 s2 assms(1) hd l
      by (auto simp: memif_write_def monad_simps align Let_def simp flip: l_def)
  qed
qed

end

section \<open>Providers whose clearing works\<close>

locale chunk_provider = chunk_rw +
  assumes clear_chunk: "invar s \<Longrightarrow> a AND (2 ^ k - 1) = 0 \<Longrightarrow> 2 ^ k dvd n \<Longrightarrow> 0 < n \<Longrightarrow> n \<le> 2 ^ 64 \<Longrightarrow>
    \<forall>i<n. valid (a + of_nat i) \<Longrightarrow> clears c invar mem s a n"
begin

theorem write_correct:
  assumes "invar s" "length bs \<le> 2 ^ 64" "\<forall>i<length bs. valid (a + of_nat i)"
  shows "\<exists>s'. memif_write c a bs s = Some (Inr ((), s')) \<and> invar s' \<and> mem s' = store (mem s) a bs"
proof (rule write_correct_if [OF assms])
  fix s1 d n
  assume "invar s1" "0 < n" "d + n \<le> length bs" "2 ^ k dvd n" "(a + of_nat d) AND (2 ^ k - 1) = 0"
  moreover have "\<forall>i<n. valid (a + of_nat d + of_nat i)"
    using assms(3) \<open>d + n \<le> length bs\<close>
    by (metis add.assoc add_less_cancel_left of_nat_add order_less_le_trans)
  ultimately show "clears c invar mem s1 (a + of_nat d) n" using assms(2) by (intro clear_chunk) auto
qed

text \<open>What was written is read back.\<close>

corollary write_read:
  assumes "invar s" "length bs \<le> 2 ^ 64" "\<forall>i<length bs. valid (a + of_nat i)"
  shows "\<exists>s'. bindM (memif_write c a bs) (\<lambda>_. memif_read c a (length bs)) s = Some (Inr (bs, s'))
    \<and> invar s' \<and> mem s' = store (mem s) a bs"
proof -
  obtain s1 where "memif_write c a bs s = Some (Inr ((), s1))" "invar s1" "mem s1 = store (mem s) a bs"
    using write_correct [OF assms] by blast
  then show ?thesis
    using read_correct [of s1 "length bs" a] assms load_store_same [OF assms(2)] by (auto simp: monad_simps)
qed

end

end
