(* ===== verification/Htif_chunk.thy ===== *)
theory Htif_chunk
  imports Memif
begin

text \<open>
  The default \<^verbatim>\<open>clear_chunk\<close> that \<^verbatim>\<open>htif_t\<close> gives its subclasses (\<^verbatim>\<open>htif.cc\<close>): it writes zeros
  through the subclass's \<^verbatim>\<open>write_chunk\<close>. A subclass that obeys the transfer laws and keeps
  this default obeys the clearing law too, so it is a full chunk provider.
\<close>

partial_function (option) htif_clear_loop ::
  "(u64 \<Rightarrow> u8 list \<Rightarrow> 's \<Rightarrow> (error + unit \<times> 's) option) \<Rightarrow> ('s \<Rightarrow> nat) \<Rightarrow> u8 list \<Rightarrow> u64 \<Rightarrow> nat \<Rightarrow> nat \<Rightarrow>
   's \<Rightarrow> (error + unit \<times> 's) option" where
  "htif_clear_loop write max_size zeros taddr pos len s =
     (if pos < len then
        bindM (\<lambda>s. write (taddr + of_nat pos) (take (min (len - pos) (max_size s)) zeros) s)
          (\<lambda>_. bindM (getM max_size) (\<lambda>m.
             htif_clear_loop write max_size zeros taddr (pos + m) len)) s
      else return () s)"

definition htif_clear_chunk ::
  "(u64 \<Rightarrow> u8 list \<Rightarrow> ('s, unit) M) \<Rightarrow> ('s \<Rightarrow> nat) \<Rightarrow> u64 \<Rightarrow> nat \<Rightarrow> ('s, unit) M" where
  "htif_clear_chunk write max_size taddr len =
     bindM (getM max_size) (\<lambda>m. htif_clear_loop write max_size (replicate m 0) taddr 0 len)"

locale htif_chunks = chunk_rw +
  assumes default_clear: "clear_chunk c = htif_clear_chunk (write_chunk c) (chunk_max_size c)"
begin

lemma clear_loop:
  assumes "invar s" "a AND (2 ^ k - 1) = 0" "2 ^ k dvd n" "2 ^ k dvd pos" "pos \<le> n" "n \<le> 2 ^ 64"
    "\<forall>i<n. valid (a + of_nat i)"
  shows "\<exists>s'. htif_clear_loop (write_chunk c) (chunk_max_size c) (replicate mx 0) a pos n s
      = Some (Inr ((), s')) \<and> invar s' \<and> mem s' = store (mem s) (a + of_nat pos) (replicate (n - pos) 0)"
  using assms
proof (induction "n - pos" arbitrary: pos s rule: less_induct)
  case less
  show ?case
  proof (cases "pos < n")
    case False
    with less.prems show ?thesis by (subst htif_clear_loop.simps) (simp add: monad_simps)
  next
    case True
    define l where "l = min (n - pos) mx"
    have l: "2 ^ k dvd l" "0 < l" "l \<le> mx" "l \<le> n - pos"
      using True less.prems align_dvd_max max_pos by (auto simp: l_def min_def)
    have "\<forall>i<l. valid (a + of_nat pos + of_nat i)"
    proof (intro allI impI)
      fix i assume "i < l"
      then have "pos + i < n" using l by simp
      then have "valid (a + of_nat (pos + i))" using less.prems(7) by blast
      then show "valid (a + of_nat pos + of_nat i)" by (simp add: add.assoc)
    qed
    then obtain s1 where s1: "invar s1" "mem s1 = store (mem s) (a + of_nat pos) (replicate l 0)"
      "write_chunk c (a + of_nat pos) (replicate l 0) s = Some (Inr ((), s1))"
      using write_chunk [of s "a + of_nat pos" "replicate l 0"] aligned_add less.prems l by auto
    have "take (min (n - pos) (chunk_max_size c s)) (replicate mx 0) = replicate l (0::u8)"
      using less.prems(1) by (simp add: l_def max_size)
    then have w: "write_chunk c (a + of_nat pos) (take (min (n - pos) (chunk_max_size c s))
        (replicate mx 0)) s = Some (Inr ((), s1))" using s1(3) by simp
    have unfold: "htif_clear_loop (write_chunk c) (chunk_max_size c) (replicate mx 0) a pos n s =
        htif_clear_loop (write_chunk c) (chunk_max_size c) (replicate mx 0) a (pos + mx) n s1"
      using True s1(1) w
      by (subst htif_clear_loop.simps) (simp add: monad_simps max_size del: take_replicate)
    show ?thesis
    proof (cases "mx < n - pos")
      case True
      then have l_mx: "l = mx" by (simp add: l_def)
      have "\<exists>s'. htif_clear_loop (write_chunk c) (chunk_max_size c) (replicate mx 0) a (pos + mx) n s1
          = Some (Inr ((), s')) \<and> invar s'
          \<and> mem s' = store (mem s1) (a + of_nat (pos + mx)) (replicate (n - (pos + mx)) 0)"
        using less.prems s1 True max_pos align_dvd_max by (intro less.hyps) auto
      moreover have "store (mem s1) (a + of_nat (pos + mx)) (replicate (n - (pos + mx)) 0)
          = store (mem s) (a + of_nat pos) (replicate (n - pos) 0)"
        using store_append [of "replicate mx 0" "replicate (n - (pos + mx)) 0" "mem s" "a + of_nat pos"]
          less.prems True l_mx s1(2) replicate_add [of mx "n - (pos + mx)" "0::u8"]
        by (simp add: add.commute add.left_commute)
      ultimately show ?thesis unfolding unfold by simp
    next
      case False
      then have "l = n - pos" "\<not> pos + mx < n" using l by (auto simp: l_def)
      then show ?thesis unfolding unfold using s1
        by (subst htif_clear_loop.simps) (simp add: monad_simps)
    qed
  qed
qed

sublocale chunk_provider
proof
  fix s a n
  assume "invar s" "a AND (2 ^ k - 1) = 0" "2 ^ k dvd n" "0 < n" "n \<le> 2 ^ 64"
    "\<forall>i<n. valid (a + of_nat i)"
  then show "clears c invar mem s a n"
    using clear_loop [of s a n 0]
    by (simp add: clears_def default_clear htif_clear_chunk_def monad_simps max_size)
qed

end

end
