(* ===== verification/Tsi.thy ===== *)
theory Tsi
  imports Htif_chunk
begin

text \<open>
  The serial interface \<^verbatim>\<open>tsi_t\<close> (\<^verbatim>\<open>tsi.h\<close>, \<^verbatim>\<open>tsi.cc\<close>): a chunk provider that sends read and write
  commands as 32-bit words to the target and receives the words read. The target is hardware
  (or its simulator), so its behaviour is a parameter: \<open>tgt\<close> is what the target does with the
  two queues, and with its own state, from one \<^verbatim>\<open>switch_to_target\<close> to the switch back.

  The locale \<open>sai_target\<close> states the protocol a target has to follow. Under it the interface is
  a chunk provider for the whole address space.
\<close>

section \<open>State and operations\<close>

record 'e tsi_t =
  in_data :: "u32 list"
  out_data :: "u32 list"
  target :: 'e

definition sai_cmd_read :: u32 where "sai_cmd_read = 0"
definition sai_cmd_write :: u32 where "sai_cmd_write = 1"
definition sai_addr_chunks :: nat where "sai_addr_chunks = 2"
definition sai_len_chunks :: nat where "sai_len_chunks = 2"
definition msip_base :: u64 where "msip_base = 0x2000000"

definition in_push :: "u32 list \<Rightarrow> ('e tsi_t, unit) M" where
  "in_push ws = modifyM (\<lambda>s. s\<lparr>in_data := in_data s @ ws\<rparr>)"

fun push_addr_loop :: "nat \<Rightarrow> u64 \<Rightarrow> ('e tsi_t, unit) M" where
  "push_addr_loop 0 addr = return ()"
| "push_addr_loop (Suc i) addr =
     bindM (in_push [ucast (addr AND 0xffffffff)]) (\<lambda>_. push_addr_loop i (drop_bit 32 addr))"

definition push_addr :: "u64 \<Rightarrow> ('e tsi_t, unit) M" where
  "push_addr addr = push_addr_loop sai_addr_chunks addr"

fun push_len_loop :: "nat \<Rightarrow> u64 \<Rightarrow> ('e tsi_t, unit) M" where
  "push_len_loop 0 len = return ()"
| "push_len_loop (Suc i) len =
     bindM (in_push [ucast (len AND 0xffffffff)]) (\<lambda>_. push_len_loop i (drop_bit 32 len))"

definition push_len :: "u64 \<Rightarrow> ('e tsi_t, unit) M" where
  "push_len len = push_len_loop sai_len_chunks len"

definition switch_to_target :: "('e tsi_t \<Rightarrow> 'e tsi_t) \<Rightarrow> ('e tsi_t, unit) M" where
  "switch_to_target tgt = modifyM tgt"

text \<open>The body of the receive loop: wait for a word, take it.\<close>

definition recv_result :: "('e tsi_t \<Rightarrow> 'e tsi_t) \<Rightarrow> ('e tsi_t, u32) M" where
  "recv_result tgt =
     bindM (while_loop (\<lambda>s. out_data s = []) (switch_to_target tgt)) (\<lambda>_.
     bindM (getM (\<lambda>s. hd (out_data s))) (\<lambda>w.
     bindM (modifyM (\<lambda>s. s\<lparr>out_data := tl (out_data s)\<rparr>)) (\<lambda>_. return w)))"

fun recv_results :: "('e tsi_t \<Rightarrow> 'e tsi_t) \<Rightarrow> nat \<Rightarrow> ('e tsi_t, u32 list) M" where
  "recv_results tgt 0 = return []"
| "recv_results tgt (Suc n) =
     bindM (recv_result tgt) (\<lambda>w. bindM (recv_results tgt n) (\<lambda>ws. return (w # ws)))"

definition tsi_read_chunk :: "('e tsi_t \<Rightarrow> 'e tsi_t) \<Rightarrow> u64 \<Rightarrow> nat \<Rightarrow> ('e tsi_t, u8 list) M" where
  "tsi_read_chunk tgt taddr nbytes =
     (let len = nbytes div 4 in
      bindM (in_push [sai_cmd_read]) (\<lambda>_.
      bindM (push_addr taddr) (\<lambda>_.
      bindM (push_len (of_nat len - 1)) (\<lambda>_.
      bindM (recv_results tgt len) (\<lambda>result.
      return (concat (map le_bytes result)))))))"

text \<open>The source buffer seen as an array of \<^verbatim>\<open>uint32_t\<close>.\<close>

fun words_of :: "u8 list \<Rightarrow> u32 list" where
  "words_of (a # b # c # d # bs) = le_word [a, b, c, d] # words_of bs"
| "words_of _ = []"

definition tsi_write_chunk :: "u64 \<Rightarrow> u8 list \<Rightarrow> ('e tsi_t, unit) M" where
  "tsi_write_chunk taddr src =
     (let len = length src div 4 in
      bindM (in_push [sai_cmd_write]) (\<lambda>_.
      bindM (push_addr taddr) (\<lambda>_.
      bindM (push_len (of_nat len - 1)) (\<lambda>_.
      in_push (words_of src)))))"

definition tsi_ops :: "('e tsi_t \<Rightarrow> 'e tsi_t) \<Rightarrow> 'e tsi_t chunked_memif" where
  "tsi_ops tgt = \<lparr>read_chunk = tsi_read_chunk tgt, write_chunk = tsi_write_chunk,
     clear_chunk = htif_clear_chunk tsi_write_chunk (\<lambda>_. 1024),
     chunk_align = (\<lambda>_. 4), chunk_max_size = (\<lambda>_. 1024)\<rparr>"

text \<open>Interrupt core 0 to make it start executing the program in DRAM.\<close>

definition tsi_reset :: "('e tsi_t, unit) M" where
  "tsi_reset = tsi_write_chunk msip_base (le_bytes (1 :: u32))"

text \<open>The interface of the target side: queue accesses of the simulator.\<close>

definition send_word :: "u32 \<Rightarrow> ('e tsi_t, unit) M" where
  "send_word word = modifyM (\<lambda>s. s\<lparr>out_data := out_data s @ [word]\<rparr>)"

definition in_bits :: "('e tsi_t, u32) M" where
  "in_bits s = (case in_data s of [] \<Rightarrow> throw Out_of_bounds s | w # ws \<Rightarrow> return w s)"

definition recv_word :: "('e tsi_t, u32) M" where
  "recv_word s = (case in_data s of [] \<Rightarrow> throw Out_of_bounds s
     | w # ws \<Rightarrow> return w (s\<lparr>in_data := ws\<rparr>))"

definition data_available :: "'e tsi_t \<Rightarrow> bool" where
  "data_available s = (in_data s \<noteq> [])"

definition in_valid :: "'e tsi_t \<Rightarrow> bool" where
  "in_valid s = (in_data s \<noteq> [])"

definition out_ready :: bool where "out_ready = True"

definition tsi_tick :: "bool \<Rightarrow> u32 \<Rightarrow> bool \<Rightarrow> ('e tsi_t, unit) M" where
  "tsi_tick out_valid out_bits in_ready =
     bindM (if out_valid \<and> out_ready then modifyM (\<lambda>s. s\<lparr>out_data := out_data s @ [out_bits]\<rparr>)
            else return ()) (\<lambda>_.
     modifyM (\<lambda>s. if in_valid s \<and> in_ready then s\<lparr>in_data := tl (in_data s)\<rparr> else s))"

text \<open>
  The constructor, and the host thread: the main loop, then switches to the target for ever. The
  simulator's side runs it with \<^verbatim>\<open>switch_to_host\<close>.
\<close>

definition tsi_new :: "'e \<Rightarrow> 'e tsi_t" where
  "tsi_new t = \<lparr>in_data = [], out_data = [], target = t\<rparr>"

definition host_thread :: "('e tsi_t \<Rightarrow> 'e tsi_t) \<Rightarrow> ('e tsi_t, int) M \<Rightarrow> ('e tsi_t, unit) M" where
  "host_thread tgt run = bindM run (\<lambda>_. while_loop (\<lambda>_. True) (switch_to_target tgt))"

definition switch_to_host :: "('e tsi_t \<Rightarrow> 'e tsi_t) \<Rightarrow> ('e tsi_t, unit) M" where
  "switch_to_host hst = modifyM hst"

section \<open>The words of a command\<close>

definition halves :: "u64 \<Rightarrow> u32 list" where
  "halves x = [ucast x, ucast (drop_bit 32 x)]"

definition read_command :: "u64 \<Rightarrow> nat \<Rightarrow> u32 list" where
  "read_command addr n = sai_cmd_read # halves addr @ halves (of_nat n - 1)"

definition write_command :: "u64 \<Rightarrow> u32 list \<Rightarrow> u32 list" where
  "write_command addr ws = sai_cmd_write # halves addr @ halves (of_nat (length ws) - 1) @ ws"

lemma low_word: "ucast (x AND 0xffffffff :: u64) = (ucast x :: u32)"
proof -
  have "x AND 0xffffffff = take_bit 32 x" by (simp add: take_bit_eq_mask mask_eq_exp_minus_1)
  then show ?thesis by (simp, intro bit_word_eqI) (auto simp: bit_simps)
qed

lemma push_loops:
  "push_addr a s = Some (Inr ((), s\<lparr>in_data := in_data s @ halves a\<rparr>))"
  "push_len a s = Some (Inr ((), s\<lparr>in_data := in_data s @ halves a\<rparr>))"
  by (simp_all add: push_addr_def push_len_def sai_addr_chunks_def sai_len_chunks_def
      eval_nat_numeral in_push_def monad_simps halves_def low_word)

lemma length_words_of [simp]: "length (words_of bs) = length bs div 4"
  by (induction bs rule: words_of.induct) auto

lemma words_of_bytes:
  "4 dvd length bs \<Longrightarrow> concat (map le_bytes (words_of bs)) = bs"
proof (induction bs rule: words_of.induct)
  case (1 a b c d bs)
  have "4 dvd length bs" using "1.prems" by simp presburger
  with "1.IH" show ?case by (simp add: le_bytes_le_word)
qed (simp_all, presburger+)

lemma bytes_words_of: "words_of (concat (map le_bytes ws)) = ws"
proof (induction ws)
  case (Cons w ws)
  have "\<exists>a b c d. le_bytes w = [a, b, c, d]" by (simp add: le_bytes_def upt_rec)
  then obtain a b c d where l: "le_bytes w = [a, b, c, d]" by blast
  have "le_word (le_bytes w) = w" by (rule le_word_le_bytes) simp
  with l Cons show ?case by simp
qed simp

lemma write_chunk_queue:
  "tsi_write_chunk a bs s =
     Some (Inr ((), s\<lparr>in_data := in_data s @ write_command a (words_of bs)\<rparr>))"
  by (simp add: tsi_write_chunk_def in_push_def monad_simps push_loops write_command_def Let_def)

section \<open>The protocol of the target\<close>

text \<open>
  What the code relies on in the target, stated over two functions of the target's state and
  the words still queued for it: \<open>outs e ws\<close>, every word the target will yet send when it has
  consumed \<open>ws\<close>, and \<open>final e ws\<close>, the memory it will then hold. \<open>settled e ws\<close> says that \<open>ws\<close>
  ends at a command boundary. A run of the target consumes and sends words but changes neither
  what it owes nor what it will do (\<open>run_outs\<close>, \<open>run_final\<close>), and a target that owes a word makes
  progress towards sending it (\<open>run_progress\<close>). A queued read command adds the words of its
  block to the words owed, a queued write command stores its words.
\<close>

definition tsi_owes :: "('e \<Rightarrow> u32 list \<Rightarrow> u32 list) \<Rightarrow> 'e tsi_t \<Rightarrow> u32 list" where
  "tsi_owes outs s = out_data s @ outs (target s) (in_data s)"

definition tsi_mem :: "('e \<Rightarrow> u32 list \<Rightarrow> memory) \<Rightarrow> 'e tsi_t \<Rightarrow> memory" where
  "tsi_mem final s = final (target s) (in_data s)"

definition tsi_settled :: "('e \<Rightarrow> u32 list \<Rightarrow> bool) \<Rightarrow> 'e tsi_t \<Rightarrow> bool" where
  "tsi_settled settled s \<longleftrightarrow> settled (target s) (in_data s)"

definition tsi_invar ::
  "('e \<Rightarrow> u32 list \<Rightarrow> bool) \<Rightarrow> ('e \<Rightarrow> u32 list \<Rightarrow> u32 list) \<Rightarrow> 'e tsi_t \<Rightarrow> bool" where
  "tsi_invar settled outs s \<longleftrightarrow> tsi_settled settled s \<and> tsi_owes outs s = []"

locale sai_target =
  fixes tgt :: "'e tsi_t \<Rightarrow> 'e tsi_t" and outs :: "'e \<Rightarrow> u32 list \<Rightarrow> u32 list"
    and final :: "'e \<Rightarrow> u32 list \<Rightarrow> memory" and settled :: "'e \<Rightarrow> u32 list \<Rightarrow> bool"
    and work :: "'e tsi_t \<Rightarrow> nat"
  assumes run_outs: "settled (target s) (in_data s) \<Longrightarrow>
      out_data (tgt s) @ outs (target (tgt s)) (in_data (tgt s)) = out_data s @ outs (target s) (in_data s)"
    and run_final: "settled (target s) (in_data s) \<Longrightarrow>
      final (target (tgt s)) (in_data (tgt s)) = final (target s) (in_data s)"
    and run_settled: "settled (target s) (in_data s) \<Longrightarrow> settled (target (tgt s)) (in_data (tgt s))"
    and run_progress: "settled (target s) (in_data s) \<Longrightarrow> out_data s = [] \<Longrightarrow>
      outs (target s) (in_data s) \<noteq> [] \<Longrightarrow> out_data (tgt s) \<noteq> [] \<or> work (tgt s) < work s"
    and read_command: "settled e ws \<Longrightarrow> a AND 3 = 0 \<Longrightarrow> 0 < n \<Longrightarrow> n \<le> 256 \<Longrightarrow>
      settled e (ws @ read_command a n) \<and> final e (ws @ read_command a n) = final e ws
      \<and> outs e (ws @ read_command a n) = outs e ws @ words_of (load (final e ws) a (4 * n))"
    and write_command: "settled e ws \<Longrightarrow> a AND 3 = 0 \<Longrightarrow> ds \<noteq> [] \<Longrightarrow> length ds \<le> 256 \<Longrightarrow>
      settled e (ws @ write_command a ds) \<and> outs e (ws @ write_command a ds) = outs e ws
      \<and> final e (ws @ write_command a ds) = store (final e ws) a (concat (map le_bytes ds))"
begin

abbreviation "owes \<equiv> tsi_owes outs"
abbreviation "mem_of \<equiv> tsi_mem final"
abbreviation "settled_st \<equiv> tsi_settled settled"
abbreviation "invar_st \<equiv> tsi_invar settled outs"

lemma recv_one:
  assumes "settled_st s" "owes s = w # ws"
  shows "\<exists>s'. recv_result tgt s = Some (Inr (w, s')) \<and> settled_st s' \<and> owes s' = ws
    \<and> mem_of s' = mem_of s"
proof -
  let ?I = "\<lambda>t. settled_st t \<and> owes t = w # ws \<and> mem_of t = mem_of s"
  let ?m = "\<lambda>t. if out_data t = [] then Suc (work t) else 0"
  have "\<exists>t. while_loop (\<lambda>s. out_data s = []) (switch_to_target tgt) s = Some (Inr ((), t)) \<and> ?I t
      \<and> \<not> out_data t = []"
  proof (rule while_loop_total [where m = ?m])
    fix t assume I: "?I t" and "out_data t = []"
    then have "outs (target t) (in_data t) \<noteq> []" by (auto simp: tsi_owes_def)
    then have "out_data (tgt t) \<noteq> [] \<or> work (tgt t) < work t"
      using I \<open>out_data t = []\<close> run_progress by (simp add: tsi_settled_def)
    moreover have "?I (tgt t)"
      using I run_outs run_final run_settled by (simp add: tsi_settled_def tsi_owes_def tsi_mem_def)
    ultimately show "\<exists>t'. switch_to_target tgt t = Some (Inr ((), t')) \<and> ?I t' \<and> ?m t' < ?m t"
      using \<open>out_data t = []\<close> by (auto simp: switch_to_target_def monad_simps)
  qed (use assms in simp)
  then obtain t where t: "while_loop (\<lambda>s. out_data s = []) (switch_to_target tgt) s = Some (Inr ((), t))"
    "?I t" "out_data t \<noteq> []" by blast
  obtain os where os: "out_data t = w # os" using t(2,3) by (cases "out_data t") (auto simp: tsi_owes_def)
  let ?s' = "t\<lparr>out_data := os\<rparr>"
  have "recv_result tgt s = Some (Inr (w, ?s'))"
    using t os by (simp add: recv_result_def monad_simps)
  moreover have "settled_st ?s'" "owes ?s' = ws" "mem_of ?s' = mem_of s"
    using t(2) os by (auto simp: tsi_settled_def tsi_owes_def tsi_mem_def)
  ultimately show ?thesis by blast
qed

lemma recv_all:
  "settled_st s \<Longrightarrow> owes s = ws \<Longrightarrow>
   \<exists>s'. recv_results tgt (length ws) s = Some (Inr (ws, s')) \<and> invar_st s' \<and> mem_of s' = mem_of s"
proof (induction ws arbitrary: s)
  case Nil
  then show ?case by (simp add: monad_simps tsi_invar_def)
next
  case (Cons w ws)
  obtain s1 where s1: "recv_result tgt s = Some (Inr (w, s1))" "settled_st s1" "owes s1 = ws"
    "mem_of s1 = mem_of s" using recv_one [OF Cons.prems] by blast
  with Cons.IH [OF s1(2,3)] show ?case by (auto simp: monad_simps)
qed

lemma read_law:
  assumes "invar_st s" "a AND 3 = 0" "4 dvd n" "0 < n" "n \<le> 1024"
  shows "\<exists>s'. tsi_read_chunk tgt a n s = Some (Inr (load (mem_of s) a n, s')) \<and> invar_st s'
    \<and> mem_of s' = mem_of s"
proof -
  define l where "l = n div 4"
  have l: "4 * l = n" "0 < l" "l \<le> 256" using assms by (auto simp: l_def)
  define s1 where "s1 = s\<lparr>in_data := in_data s @ read_command a l\<rparr>"
  let ?ws = "words_of (load (mem_of s) a n)"
  have i: "settled (target s) (in_data s)" "out_data s = []" "outs (target s) (in_data s) = []"
    using assms(1) by (auto simp: tsi_invar_def tsi_settled_def tsi_owes_def)
  from read_command [OF i(1) assms(2) l(2,3)]
  have s1: "settled_st s1" "owes s1 = ?ws" "mem_of s1 = mem_of s"
    using i l by (auto simp: s1_def tsi_settled_def tsi_owes_def tsi_mem_def)
  have len: "length ?ws = l" by (simp add: l_def)
  obtain s2 where s2: "recv_results tgt l s1 = Some (Inr (?ws, s2))" "invar_st s2"
    "mem_of s2 = mem_of s" using recv_all [OF s1(1,2)] s1(3) len by auto
  have "tsi_read_chunk tgt a n s = bindM (recv_results tgt l) (\<lambda>result. return (concat (map le_bytes result))) s1"
    by (simp add: tsi_read_chunk_def in_push_def monad_simps push_loops Let_def l_def [symmetric]
        s1_def read_command_def)
  then show ?thesis using s2 assms(3) by (simp add: monad_simps words_of_bytes)
qed

lemma write_law:
  assumes "invar_st s" "a AND 3 = 0" "4 dvd length bs" "bs \<noteq> []" "length bs \<le> 1024"
  shows "\<exists>s'. tsi_write_chunk a bs s = Some (Inr ((), s')) \<and> invar_st s'
    \<and> mem_of s' = store (mem_of s) a bs"
proof -
  define s1 where "s1 = s\<lparr>in_data := in_data s @ write_command a (words_of bs)\<rparr>"
  have "0 < length bs div 4" using assms(3,4) by (cases bs) (auto elim!: dvdE)
  then have "words_of bs \<noteq> []" "length (words_of bs) \<le> 256"
    using assms(5) by (auto simp flip: length_greater_0_conv)
  moreover have "settled (target s) (in_data s)" using assms(1) by (simp add: tsi_invar_def tsi_settled_def)
  ultimately have "invar_st s1 \<and> mem_of s1 = store (mem_of s) a bs"
    using write_command [of "target s" "in_data s" a "words_of bs"] assms
    by (simp add: s1_def tsi_invar_def tsi_settled_def tsi_owes_def tsi_mem_def words_of_bytes)
  then show ?thesis by (simp add: write_chunk_queue s1_def)
qed

sublocale htif_chunks "tsi_ops tgt" mem_of invar_st "\<lambda>_. True" 2 1024
proof
  fix s a
  assume i: "invar_st s"
  show "chunk_align (tsi_ops tgt) s = 2 ^ 2" "chunk_max_size (tsi_ops tgt) s = 1024"
    by (simp_all add: tsi_ops_def)
  show "\<exists>s'. chunked_memif.read_chunk (tsi_ops tgt) a n s = Some (Inr (load (mem_of s) a n, s'))
      \<and> invar_st s' \<and> mem_of s' = mem_of s"
    if "a AND (2 ^ 2 - 1) = 0" "2 ^ 2 dvd n" "0 < n" "n \<le> 1024" for n
    using read_law [OF i] that by (simp add: tsi_ops_def)
  show "\<exists>s'. chunked_memif.write_chunk (tsi_ops tgt) a bs s = Some (Inr ((), s'))
      \<and> invar_st s' \<and> mem_of s' = store (mem_of s) a bs"
    if "a AND (2 ^ 2 - 1) = 0" "2 ^ 2 dvd length bs" "bs \<noteq> []" "length bs \<le> 1024" for bs
    using write_law [OF i] that by (simp add: tsi_ops_def)
qed (simp_all add: tsi_ops_def)

lemma provider: "chunk_provider (tsi_ops tgt) mem_of invar_st (\<lambda>_. True) 2 1024"
  by unfold_locales

lemma provider_rw: "chunk_rw (tsi_ops tgt) mem_of invar_st (\<lambda>_. True) 2 1024"
  by unfold_locales

end

section \<open>A target that follows the protocol\<close>

text \<open>
  A reference target: it holds a byte memory and answers everything queued in one run. It
  shows that the protocol can be met, and gives the interpretation its parameters.
\<close>

definition count_of :: "u32 \<Rightarrow> u32 \<Rightarrow> nat" where
  "count_of lo hi = Suc (unat (join lo hi))"

function serve :: "memory \<Rightarrow> u32 list \<Rightarrow> memory \<times> u32 list" where
  "serve m ws =
     (case ws of
        c # a0 # a1 # l0 # l1 # vs \<Rightarrow>
          (let a = join a0 a1; n = count_of l0 l1 in
           if c = sai_cmd_read then
             (let (m', os) = serve m vs in (m', words_of (load m a (4 * n)) @ os))
           else serve (store m a (concat (map le_bytes (take n vs)))) (drop n vs))
      | _ \<Rightarrow> (m, []))"
  by pat_completeness auto
termination by (relation "measure (\<lambda>(m, ws). length ws)") auto

declare serve.simps [simp del]

function boundary :: "u32 list \<Rightarrow> bool" where
  "boundary ws =
     (case ws of
        [] \<Rightarrow> True
      | c # a0 # a1 # l0 # l1 # vs \<Rightarrow>
          if c = sai_cmd_read then boundary vs
          else count_of l0 l1 \<le> length vs \<and> boundary (drop (count_of l0 l1) vs)
      | _ \<Rightarrow> False)"
  by pat_completeness auto
termination by (relation "measure length") auto

declare boundary.simps [simp del]

lemma serve_Nil [simp]: "serve m [] = (m, [])"
  by (simp add: serve.simps)

lemma boundary_Nil [simp]: "boundary []"
  by (simp add: boundary.simps)

lemma serve_Cons [simp]:
  "serve m (c # a0 # a1 # l0 # l1 # vs) =
     (let a = join a0 a1; n = count_of l0 l1 in
      if c = sai_cmd_read then
        (let (m', os) = serve m vs in (m', words_of (load m a (4 * n)) @ os))
      else serve (store m a (concat (map le_bytes (take n vs)))) (drop n vs))"
  by (subst serve.simps) simp

lemma boundary_Cons [simp]:
  "boundary (c # a0 # a1 # l0 # l1 # vs) =
     (if c = sai_cmd_read then boundary vs
      else count_of l0 l1 \<le> length vs \<and> boundary (drop (count_of l0 l1) vs))"
  by (subst boundary.simps) simp

lemma serve_boundary_append:
  "boundary ws \<Longrightarrow> boundary vs \<Longrightarrow> boundary (ws @ vs)
   \<and> serve m (ws @ vs) = (let (m1, o1) = serve m ws; (m2, o2) = serve m1 vs in (m2, o1 @ o2))"
proof (induction ws arbitrary: m rule: length_induct)
  case (1 ws)
  show ?case
  proof (cases "ws = []")
    case True
    then show ?thesis using "1.prems" by simp
  next
    case False
    then obtain c a0 a1 l0 l1 us where ws: "ws = c # a0 # a1 # l0 # l1 # us"
      using "1.prems"(1) by (subst (asm) boundary.simps) (auto split: list.splits)
    let ?n = "count_of l0 l1"
    show ?thesis
    proof (cases "c = sai_cmd_read")
      case True
      then have "boundary us" using "1.prems"(1) ws by simp
      with "1.IH" "1.prems"(2) ws have
        "boundary (us @ vs) \<and> serve m (us @ vs) =
          (let (m1, o1) = serve m us; (m2, o2) = serve m1 vs in (m2, o1 @ o2))" by simp
      then show ?thesis
        using ws True by (simp split: prod.split)
    next
      case False
      then have b: "?n \<le> length us" "boundary (drop ?n us)"
        using "1.prems"(1) ws by simp_all
      let ?m = "store m (join a0 a1) (concat (map le_bytes (take ?n us)))"
      from "1.IH" b "1.prems"(2) ws have
        "boundary (drop ?n us @ vs) \<and> serve ?m (drop ?n us @ vs) =
          (let (m1, o1) = serve ?m (drop ?n us); (m2, o2) = serve m1 vs in (m2, o1 @ o2))" by simp
      then show ?thesis
        using ws False b by (simp add: Let_def)
    qed
  qed
qed

lemma count_of_halves:
  "0 < n \<Longrightarrow> n \<le> 256 \<Longrightarrow> count_of (ucast (of_nat n - 1 :: u64)) (ucast (drop_bit 32 (of_nat n - 1 :: u64))) = n"
  unfolding count_of_def join_halves
  by (simp add: of_nat_diff [symmetric, of 1, simplified] Suc_leI flip: of_nat_diff)

lemma serve_read_command:
  assumes "0 < n" "n \<le> 256"
  shows "boundary (read_command a n)" "serve m (read_command a n) = (m, words_of (load m a (4 * n)))"
  using count_of_halves [OF assms]
  by (simp_all add: read_command_def halves_def join_halves)

lemma serve_write_command:
  assumes "ds \<noteq> []" "length ds \<le> 256"
  shows "boundary (write_command a ds)"
    "serve m (write_command a ds) = (store m a (concat (map le_bytes ds)), [])"
proof -
  have "0 < length ds" using assms(1) by simp
  from count_of_halves [OF this assms(2)]
  show "boundary (write_command a ds)"
    "serve m (write_command a ds) = (store m a (concat (map le_bytes ds)), [])"
    by (simp_all add: write_command_def halves_def join_halves
        sai_cmd_read_def sai_cmd_write_def)
qed

definition ref_target :: "memory tsi_t \<Rightarrow> memory tsi_t" where
  "ref_target s = (let (m, os) = serve (target s) (in_data s) in
     s\<lparr>in_data := [], out_data := out_data s @ os, target := m\<rparr>)"

interpretation ref: sai_target ref_target "\<lambda>m ws. snd (serve m ws)" "\<lambda>m ws. fst (serve m ws)"
  "\<lambda>m ws. boundary ws" "\<lambda>_. 0"
  by unfold_locales
    (auto simp: ref_target_def serve_boundary_append serve_read_command serve_write_command
      split: prod.splits)

end
