(* ===== verification/Host_os.thy ===== *)
theory Host_os
  imports Prelude
begin

text \<open>
  The host operating system is not part of the program, so it is a parameter: a record of the
  POSIX calls the code makes, each a function of its arguments and of the state \<open>'o\<close> of the
  host. \<open>os_signal_exit\<close> reads the flag that the signal handler sets. A call that fills a buffer takes the buffer's contents and returns the new contents;
  \<open>os_errno\<close> reads the calling thread's \<^verbatim>\<open>errno\<close>. A C \<^verbatim>\<open>int\<close> is an \<open>i32\<close>, read with \<open>sint\<close>
  where its sign matters.
\<close>

type_synonym i32 = "32 word"

text \<open>The fields of the host's \<^verbatim>\<open>struct stat\<close> that the code reads.\<close>

record stat =
  st_dev :: u64
  st_ino :: u64
  st_mode :: u32
  st_nlink :: u64
  st_uid :: u32
  st_gid :: u32
  st_rdev :: u64
  st_size :: u64
  st_blksize :: u64
  st_blocks :: u64
  st_atime :: u64
  st_mtime :: u64
  st_ctime :: u64

text \<open>The terminal attributes: the flags the code changes and the rest.\<close>

record termios =
  c_lflag :: u32
  c_rest :: "u8 list"

record 'o posix =
  os_errno :: "'o \<Rightarrow> i32"
  os_signal_exit :: "'o \<Rightarrow> bool \<times> 'o"
  os_poll_stdin :: "'o \<Rightarrow> (i32 \<times> bool) \<times> 'o"
  os_read :: "i32 \<Rightarrow> u8 list \<Rightarrow> 'o \<Rightarrow> (u64 \<times> u8 list) \<times> 'o"
  os_pread :: "i32 \<Rightarrow> u8 list \<Rightarrow> u64 \<Rightarrow> 'o \<Rightarrow> (u64 \<times> u8 list) \<times> 'o"
  os_write :: "i32 \<Rightarrow> u8 list \<Rightarrow> 'o \<Rightarrow> u64 \<times> 'o"
  os_pwrite :: "i32 \<Rightarrow> u8 list \<Rightarrow> u64 \<Rightarrow> 'o \<Rightarrow> u64 \<times> 'o"
  os_dup :: "i32 \<Rightarrow> 'o \<Rightarrow> i32 \<times> 'o"
  os_close :: "i32 \<Rightarrow> 'o \<Rightarrow> i32 \<times> 'o"
  os_lseek :: "i32 \<Rightarrow> u64 \<Rightarrow> i32 \<Rightarrow> 'o \<Rightarrow> u64 \<times> 'o"
  os_fstat :: "i32 \<Rightarrow> 'o \<Rightarrow> (i32 \<times> stat) \<times> 'o"
  os_lstat :: "cstring \<Rightarrow> 'o \<Rightarrow> (i32 \<times> stat) \<times> 'o"
  os_fstatat :: "i32 \<Rightarrow> cstring \<Rightarrow> i32 \<Rightarrow> 'o \<Rightarrow> (i32 \<times> stat) \<times> 'o"
  os_fcntl :: "i32 \<Rightarrow> i32 \<Rightarrow> u64 \<Rightarrow> 'o \<Rightarrow> i32 \<times> 'o"
  os_ftruncate :: "i32 \<Rightarrow> u64 \<Rightarrow> 'o \<Rightarrow> i32 \<times> 'o"
  os_openat :: "i32 \<Rightarrow> cstring \<Rightarrow> i32 \<Rightarrow> u32 \<Rightarrow> 'o \<Rightarrow> i32 \<times> 'o"
  os_faccessat :: "i32 \<Rightarrow> cstring \<Rightarrow> i32 \<Rightarrow> i32 \<Rightarrow> 'o \<Rightarrow> i32 \<times> 'o"
  os_renameat :: "i32 \<Rightarrow> cstring \<Rightarrow> i32 \<Rightarrow> cstring \<Rightarrow> 'o \<Rightarrow> i32 \<times> 'o"
  os_linkat :: "i32 \<Rightarrow> cstring \<Rightarrow> i32 \<Rightarrow> cstring \<Rightarrow> i32 \<Rightarrow> 'o \<Rightarrow> i32 \<times> 'o"
  os_unlinkat :: "i32 \<Rightarrow> cstring \<Rightarrow> i32 \<Rightarrow> 'o \<Rightarrow> i32 \<times> 'o"
  os_mkdirat :: "i32 \<Rightarrow> cstring \<Rightarrow> u32 \<Rightarrow> 'o \<Rightarrow> i32 \<times> 'o"
  os_getcwd :: "u8 list \<Rightarrow> 'o \<Rightarrow> (bool \<times> u8 list) \<times> 'o"
  os_chdir :: "cstring \<Rightarrow> 'o \<Rightarrow> i32 \<times> 'o"
  os_open :: "cstring \<Rightarrow> i32 \<Rightarrow> 'o \<Rightarrow> i32 \<times> 'o"
  os_access :: "cstring \<Rightarrow> 'o \<Rightarrow> i32 \<times> 'o"
  os_mmap :: "i32 \<Rightarrow> u64 \<Rightarrow> 'o \<Rightarrow> u8 list option \<times> 'o"
  os_write_file :: "cstring \<Rightarrow> string \<Rightarrow> 'o \<Rightarrow> bool \<times> 'o"
  os_stdout :: "string \<Rightarrow> 'o \<Rightarrow> 'o"
  os_stderr :: "string \<Rightarrow> 'o \<Rightarrow> 'o"
  os_trylock :: "'o \<Rightarrow> i32 \<times> 'o"
  os_pthread_create :: "'o \<Rightarrow> i32 \<times> 'o"
  os_pthread_join :: "'o \<Rightarrow> i32 \<times> 'o"
  os_socket :: "'o \<Rightarrow> i32 \<times> 'o"
  os_bind :: "i32 \<Rightarrow> u16 \<Rightarrow> 'o \<Rightarrow> i32 \<times> 'o"
  os_listen :: "i32 \<Rightarrow> i32 \<Rightarrow> 'o \<Rightarrow> i32 \<times> 'o"
  os_accept :: "i32 \<Rightarrow> 'o \<Rightarrow> i32 \<times> 'o"
  os_tcgetattr :: "i32 \<Rightarrow> 'o \<Rightarrow> (i32 \<times> termios) \<times> 'o"
  os_tcsetattr :: "i32 \<Rightarrow> termios \<Rightarrow> 'o \<Rightarrow> i32 \<times> 'o"

section \<open>Strings and buffers\<close>

definition str :: "string \<Rightarrow> cstring" where
  "str s = map of_char s"

definition unstr :: "cstring \<Rightarrow> string" where
  "unstr s = map (\<lambda>c. char_of (unat c)) s"

lemma str_append: "str (s @ t) = str s @ str t"
  by (simp add: str_def)

lemma length_str [simp]: "length (str s) = length s"
  by (simp add: str_def)

definition newline :: string where "newline = [CHR 0x0A]"

text \<open>\<^verbatim>\<open>std::to_string\<close> of an unsigned integer.\<close>

fun to_string :: "nat \<Rightarrow> string" where
  "to_string n = (if n < 10 then [char_of (48 + n)] else to_string (n div 10) @ [char_of (48 + n mod 10)])"

declare to_string.simps [simp del]

text \<open>The character \<^verbatim>\<open>fn[i]\<close> of a C string, the NUL included.\<close>

definition char_at :: "cstring \<Rightarrow> nat \<Rightarrow> u8" where
  "char_at fn i = (fn @ [0]) ! i"

text \<open>
  The characters of a buffer used as a C string: those before the first NUL. A buffer without
  a NUL is read past its end.
\<close>

definition cstr :: "u8 list \<Rightarrow> error + cstring" where
  "cstr buf = (if 0 \<in> set buf then Inr (takeWhile (\<lambda>c. c \<noteq> 0) buf) else Inl Out_of_bounds)"

lemma cstr_append_NUL: "0 \<notin> set s \<Longrightarrow> cstr (s @ 0 # rest) = Inr s"
  by (auto simp: cstr_def takeWhile_append)

text \<open>
  \<^verbatim>\<open>std::vector<char> buf(len)\<close>: zero-initialised; a length above the vector's \<^verbatim>\<open>max_size()\<close>
  throws. Running out of memory below that bound is not modelled.
\<close>

definition vector_alloc :: "u64 \<Rightarrow> ('s, u8 list) M" where
  "vector_alloc len = (if 2 ^ 63 \<le> unat len then throw Length_error
     else return (replicate (unat len) 0))"

end
