(* ===== verification/Term.thy ===== *)
theory Term
  imports Host_os
begin

text \<open>
  The canonical terminal (\<^verbatim>\<open>term.h\<close>, \<^verbatim>\<open>term.cc\<close>): a non-blocking read of one character from
  standard input, a write of one character to standard output, and the static object whose
  constructor switches echo and line buffering off and whose destructor restores them.
\<close>

record canonical_termios =
  old_tios :: termios
  restore_tios :: bool

definition ICANON :: u32 where "ICANON = 0x2"
definition ECHO :: u32 where "ECHO = 0x8"

definition canonical_termios_new :: "'o posix \<Rightarrow> 'o \<Rightarrow> canonical_termios \<times> 'o" where
  "canonical_termios_new os h =
     (let ((r, old), h) = os_tcgetattr os 0 h in
      if r = 0 then
        let (r, h) = os_tcsetattr os 0 (old\<lparr>c_lflag := c_lflag old AND NOT (ICANON OR ECHO)\<rparr>) h in
        (\<lparr>old_tios = old, restore_tios = (r = 0)\<rparr>, h)
      else (\<lparr>old_tios = old, restore_tios = False\<rparr>, h))"

definition canonical_termios_delete :: "'o posix \<Rightarrow> canonical_termios \<Rightarrow> 'o \<Rightarrow> 'o" where
  "canonical_termios_delete os t h =
     (if restore_tios t then snd (os_tcsetattr os 0 (old_tios t) h) else h)"

text \<open>
  Whatever happens in between, the attributes at the end are those at the start, when getting and
  setting them work; \<open>attr\<close> reads the attributes of the terminal in a state of the host.
\<close>

lemma termios_restored:
  fixes attr :: "'o \<Rightarrow> termios"
  assumes get: "\<And>h r t h'. os_tcgetattr os 0 h = ((r, t), h') \<Longrightarrow> attr h' = attr h \<and> (r = 0 \<longrightarrow> t = attr h)"
    and set: "\<And>a h r h'. os_tcsetattr os 0 a h = (r, h') \<Longrightarrow> attr h' = (if r = 0 then a else attr h)"
    and work: "\<And>a h. fst (os_tcsetattr os 0 a h) = 0"
    and new: "canonical_termios_new os h = (t, h1)" and same: "attr h2 = attr h1"
  shows "attr (canonical_termios_delete os t h2) = attr h"
proof -
  obtain r old h' where g: "os_tcgetattr os 0 h = ((r, old), h')" by (metis surj_pair)
  obtain h'' where s: "os_tcsetattr os 0 (old\<lparr>c_lflag := c_lflag old AND NOT (ICANON OR ECHO)\<rparr>) h' = (0, h'')"
    using work by (metis surj_pair fst_conv)
  obtain h3 where d: "os_tcsetattr os 0 old h2 = (0, h3)" using work by (metis surj_pair fst_conv)
  show ?thesis
    using get [OF g] set [OF s] set [OF d] new same g s d
    by (auto simp: canonical_termios_new_def canonical_termios_delete_def split: if_splits)
qed

text \<open>\<open>None\<close> is the result \<^verbatim>\<open>-1\<close>.\<close>

definition terminal_read :: "'o posix \<Rightarrow> 'o \<Rightarrow> u8 option \<times> 'o" where
  "terminal_read os h =
     (let ((ret, pollin), h) = os_poll_stdin os h in
      if sint ret \<le> 0 \<or> \<not> pollin then (None, h)
      else let ((ret, buf), h) = os_read os 0 [0] h in
        if sint (ucast ret :: i32) \<le> 0 then (None, h) else (Some (hd buf), h))"

definition terminal_write :: "'o posix \<Rightarrow> u8 \<Rightarrow> ('o, unit) M" where
  "terminal_write os ch h =
     (let (n, h) = os_write os 1 [ch] h in if n \<noteq> 1 then throw Abort h else return () h)"

end
