(* ===== verification/Device.thy ===== *)
theory Device
  imports Memif Term
begin

text \<open>
  The device layer (\<^verbatim>\<open>device.h\<close>, \<^verbatim>\<open>device.cc\<close>): the command word that the target writes to
  \<^verbatim>\<open>tohost\<close>, the table of command handlers each device registers, the identify command, the
  character device \<^verbatim>\<open>bcd_t\<close>, the disk \<^verbatim>\<open>disk_t\<close> and the list of devices.

  A \<^verbatim>\<open>std::function\<close> bound to a method is a value of the datatype \<open>handler\<close>; which method runs
  is decided where the devices are put together (theory \<open>Htif\<close>). All operations act on
  \<open>machine\<close>: the state behind the memory interface, the host and the queue that the callback
  of a command fills.
\<close>

section \<open>Commands\<close>

record command_t =
  tohost :: u64

definition cmd_device :: "command_t \<Rightarrow> u8" where
  "cmd_device c = ucast (drop_bit 56 (tohost c))"

definition cmd_cmd :: "command_t \<Rightarrow> u8" where
  "cmd_cmd c = ucast (drop_bit 48 (tohost c))"

definition cmd_payload :: "command_t \<Rightarrow> u64" where
  "cmd_payload c = drop_bit 16 (push_bit 16 (tohost c))"

definition response :: "command_t \<Rightarrow> u64 \<Rightarrow> u64" where
  "response c resp = push_bit 48 (drop_bit 48 (tohost c)) OR drop_bit 16 (push_bit 16 resp)"

definition max_commands :: nat where "max_commands = 256"
definition max_devices :: nat where "max_devices = 256"
definition identity_size :: nat where "identity_size = 64"

record ('m, 'o) machine =
  chunks :: 'm
  host :: 'o
  fromhost_queue :: "u64 list"

text \<open>The callback of a command appends to the queue of responses.\<close>

definition respond :: "command_t \<Rightarrow> u64 \<Rightarrow> (('m, 'o, 'z) machine_scheme, unit) M" where
  "respond c resp = modifyM (\<lambda>s. s\<lparr>fromhost_queue := fromhost_queue s @ [response c resp]\<rparr>)"

text \<open>Operations of the memory interface and of the host, on the machine.\<close>

definition on_chunks :: "('m, 'a) M \<Rightarrow> (('m, 'o, 'z) machine_scheme, 'a) M" where
  "on_chunks = zoom chunks (\<lambda>m s. s\<lparr>chunks := m\<rparr>)"

definition on_host :: "('o, 'a) M \<Rightarrow> (('m, 'o, 'z) machine_scheme, 'a) M" where
  "on_host = zoom host (\<lambda>h s. s\<lparr>host := h\<rparr>)"

definition mem_read :: "'m chunked_memif \<Rightarrow> u64 \<Rightarrow> nat \<Rightarrow> (('m, 'o, 'z) machine_scheme, u8 list) M" where
  "mem_read ops addr len = on_chunks (memif_read ops addr len)"

definition mem_write :: "'m chunked_memif \<Rightarrow> u64 \<Rightarrow> u8 list \<Rightarrow> (('m, 'o, 'z) machine_scheme, unit) M" where
  "mem_write ops addr bytes = on_chunks (memif_write ops addr bytes)"

lemma on_chunks_Some [monad_simps]:
  "f (chunks s) = Some (Inr (a, m)) \<Longrightarrow> on_chunks f s = Some (Inr (a, s\<lparr>chunks := m\<rparr>))"
  "f (chunks s) = Some (Inl e) \<Longrightarrow> on_chunks f s = Some (Inl e)"
  "f (chunks s) = None \<Longrightarrow> on_chunks f s = None"
  by (simp_all add: on_chunks_def monad_simps)

lemma on_host_Some [monad_simps]:
  "f (host s) = Some (Inr (a, h)) \<Longrightarrow> on_host f s = Some (Inr (a, s\<lparr>host := h\<rparr>))"
  "f (host s) = Some (Inl e) \<Longrightarrow> on_host f s = Some (Inl e)"
  "f (host s) = None \<Longrightarrow> on_host f s = None"
  by (simp_all add: on_host_def monad_simps)

section \<open>The base class\<close>

datatype handler =
    Handle_null
  | Handle_identify
  | Bcd_read
  | Bcd_write
  | Disk_read
  | Disk_write
  | Syscall_handle
  | Rfb_configure
  | Rfb_set_address

record device_t =
  command_handlers :: "handler option list"
  command_names :: "string list"

definition register_command :: "nat \<Rightarrow> handler \<Rightarrow> string \<Rightarrow> (device_t, unit) M" where
  "register_command cmd handler name =
     bindM (assertM (cmd < max_commands) ''cmd < command_t::MAX_COMMANDS'') (\<lambda>_.
     bindM (assertM (length name < identity_size) ''strlen(name) < IDENTITY_SIZE'') (\<lambda>_.
     modifyM (\<lambda>d. d\<lparr>command_handlers := (command_handlers d)[cmd := Some handler],
       command_names := (command_names d)[cmd := name]\<rparr>)))"

definition raw_device :: device_t where
  "raw_device = \<lparr>command_handlers = replicate max_commands None,
     command_names = replicate max_commands ''''\<rparr>"

definition device_ctor :: "(device_t, unit) M" where
  "device_ctor =
     bindM (forM (\<lambda>cmd. register_command cmd Handle_null '''') [0..<max_commands]) (\<lambda>_.
     register_command (max_commands - 1) Handle_identify ''identity'')"

text \<open>\<^verbatim>\<open>device_t::handle_command\<close> selects the handler; an empty \<^verbatim>\<open>std::function\<close> throws.\<close>

definition device_handler :: "device_t \<Rightarrow> command_t \<Rightarrow> error + handler" where
  "device_handler d c =
     (case command_handlers d ! unat (cmd_cmd c) of
        None \<Rightarrow> Inl (Runtime_error ''bad_function_call'')
      | Some h \<Rightarrow> Inr h)"

definition handle_null_command :: "command_t \<Rightarrow> (('m, 'o, 'z) machine_scheme, unit) M" where
  "handle_null_command c = return ()"

text \<open>\<^verbatim>\<open>strcpy\<close> into the zeroed buffer of \<open>identity_size\<close> bytes.\<close>

definition id_buffer :: "string \<Rightarrow> u8 list" where
  "id_buffer name = str name @ replicate (identity_size - length name) 0"

definition handle_identify ::
  "'m chunked_memif \<Rightarrow> string \<Rightarrow> device_t \<Rightarrow> command_t \<Rightarrow> (('m, 'o, 'z) machine_scheme, unit) M" where
  "handle_identify ops identity d c =
     (let what = unat (cmd_payload c mod of_nat max_commands);
          addr = cmd_payload c div of_nat max_commands in
      bindM (assertM (addr mod of_nat identity_size = 0) ''addr % IDENTITY_SIZE == 0'') (\<lambda>_.
      bindM (if what = max_commands - 1 then
               bindM (assertM (length identity < identity_size) ''strlen(identity()) < IDENTITY_SIZE'')
                 (\<lambda>_. return (id_buffer identity))
             else return (id_buffer (command_names d ! what))) (\<lambda>id.
      bindM (mem_write ops addr id) (\<lambda>_.
      respond c 1))))"

section \<open>The character device\<close>

record bcd_t =
  bcd_device :: device_t
  pending_reads :: "command_t list"

definition on_bcd_device :: "(device_t, 'a) M \<Rightarrow> (bcd_t, 'a) M" where
  "on_bcd_device = zoom bcd_device (\<lambda>d b. b\<lparr>bcd_device := d\<rparr>)"

definition raw_bcd :: bcd_t where
  "raw_bcd = \<lparr>bcd_device = raw_device, pending_reads = []\<rparr>"

definition bcd_ctor :: "(bcd_t, unit) M" where
  "bcd_ctor = on_bcd_device (bindM device_ctor (\<lambda>_.
     bindM (register_command 0 Bcd_read ''read'') (\<lambda>_.
     register_command 1 Bcd_write ''write'')))"

definition bcd_identity :: string where "bcd_identity = ''bcd''"

definition bcd_handle_read :: "command_t \<Rightarrow> bcd_t \<Rightarrow> bcd_t" where
  "bcd_handle_read c b = b\<lparr>pending_reads := pending_reads b @ [c]\<rparr>"

definition bcd_handle_write :: "'o posix \<Rightarrow> command_t \<Rightarrow> (('m, 'o, 'z) machine_scheme, unit) M" where
  "bcd_handle_write os c = on_host (terminal_write os (ucast (cmd_payload c)))"

text \<open>
  A tick answers the oldest pending read if the terminal has a character. It works on the
  device and on the machine.
\<close>

definition bcd_tick ::
  "'o posix \<Rightarrow> bcd_t \<Rightarrow> (('m, 'o, 'z) machine_scheme, bcd_t) M" where
  "bcd_tick os b =
     (case pending_reads b of
        [] \<Rightarrow> return b
      | c # cs \<Rightarrow>
          bindM (on_host (total (terminal_read os))) (\<lambda>ch.
          case ch of
            None \<Rightarrow> return b
          | Some ch \<Rightarrow>
              bindM (respond c (0x100 OR ucast ch)) (\<lambda>_. return (b\<lparr>pending_reads := cs\<rparr>))))"

section \<open>The disk\<close>

record disk_t =
  disk_device :: device_t
  disk_id :: string
  disk_size :: u64
  disk_fd :: i32

record request_t =
  rq_addr :: u64
  rq_offset :: u64
  rq_size :: u64
  rq_tag :: u64

definition request_bytes :: nat where "request_bytes = 32"

text \<open>The layout of the request in memory.\<close>

definition parse_request :: "u8 list \<Rightarrow> request_t" where
  "parse_request bs = \<lparr>rq_addr = le_word (take 8 bs), rq_offset = le_word (take 8 (drop 8 bs)),
     rq_size = le_word (take 8 (drop 16 bs)), rq_tag = le_word (take 8 (drop 24 bs))\<rparr>"

definition raw_disk :: disk_t where
  "raw_disk = \<lparr>disk_device = raw_device, disk_id = '''', disk_size = 0, disk_fd = 0\<rparr>"

text \<open>Run the constructor of a device while other state is in place.\<close>

definition build_device :: "(device_t, unit) M \<Rightarrow> ('s, device_t) M" where
  "build_device ctor s = Option.bind (ctor raw_device)
     (\<lambda>r. case r of Inl e \<Rightarrow> Some (Inl e) | Inr (_, d) \<Rightarrow> return d s)"

definition o_rdwr :: i32 where "o_rdwr = 2"

definition disk_new :: "'o posix \<Rightarrow> cstring \<Rightarrow> ('o, disk_t) M" where
  "disk_new os fn =
     bindM (build_device device_ctor) (\<lambda>d.
     bindM (total (os_open os fn o_rdwr)) (\<lambda>fd.
     if sint fd < 0 then throw (Runtime_error (''could not open '' @ unstr fn))
     else
       bindM (build_device (bindM (modifyM (\<lambda>_. d)) (\<lambda>_.
         bindM (register_command 0 Disk_read ''read'') (\<lambda>_.
         register_command 1 Disk_write ''write'')))) (\<lambda>d.
       bindM (total (os_fstat os fd)) (\<lambda>(ret, st).
       if sint ret < 0 then throw (Runtime_error (''could not stat '' @ unstr fn))
       else return \<lparr>disk_device = d, disk_id = ''disk size='' @ to_string (unat (st_size st)),
              disk_size = st_size st, disk_fd = fd\<rparr>))))"

definition disk_handle_read ::
  "'m chunked_memif \<Rightarrow> 'o posix \<Rightarrow> disk_t \<Rightarrow> command_t \<Rightarrow> (('m, 'o, 'z) machine_scheme, unit) M" where
  "disk_handle_read ops os d c =
     bindM (mem_read ops (cmd_payload c) request_bytes) (\<lambda>bs.
     let req = parse_request bs in
     bindM (vector_alloc (rq_size req)) (\<lambda>buf.
     bindM (on_host (total (os_pread os (disk_fd d) buf (rq_offset req)))) (\<lambda>(ret, buf).
     if ret \<noteq> rq_size req then
       throw (Runtime_error (''could not read '' @ disk_id d @ '' @ '' @ to_string (unat (rq_offset req))))
     else
       bindM (mem_write ops (rq_addr req) buf) (\<lambda>_.
       respond c (rq_tag req)))))"

definition disk_handle_write ::
  "'m chunked_memif \<Rightarrow> 'o posix \<Rightarrow> disk_t \<Rightarrow> command_t \<Rightarrow> (('m, 'o, 'z) machine_scheme, unit) M" where
  "disk_handle_write ops os d c =
     bindM (mem_read ops (cmd_payload c) request_bytes) (\<lambda>bs.
     let req = parse_request bs in
     bindM (vector_alloc (rq_size req)) (\<lambda>buf.
     bindM (mem_read ops (rq_addr req) (length buf)) (\<lambda>buf.
     bindM (on_host (total (os_pwrite os (disk_fd d) buf (rq_offset req)))) (\<lambda>ret.
     if ret \<noteq> rq_size req then
       throw (Runtime_error (''could not write '' @ disk_id d @ '' @ '' @ to_string (unat (rq_offset req))))
     else respond c (rq_tag req)))))"

definition disk_delete :: "'o posix \<Rightarrow> disk_t \<Rightarrow> (('m, 'o, 'z) machine_scheme, unit) M" where
  "disk_delete os d = bindM (on_host (total (os_close os (disk_fd d)))) (\<lambda>_. return ())"

section \<open>The list of devices\<close>

datatype dev_id = Dev_null | Dev_syscall | Dev_bcd | Dev_dynamic nat

record device_list_t =
  devices :: "dev_id list"
  null_device :: device_t
  num_devices :: nat

definition register_device :: "dev_id \<Rightarrow> (device_list_t, unit) M" where
  "register_device dev =
     bindM (modifyM (\<lambda>l. l\<lparr>num_devices := num_devices l + 1\<rparr>)) (\<lambda>_.
     bindM (getM num_devices) (\<lambda>n.
     bindM (assertM (n < max_devices) ''num_devices < command_t::MAX_DEVICES'') (\<lambda>_.
     modifyM (\<lambda>l. l\<lparr>devices := (devices l)[n - 1 := dev]\<rparr>))))"

definition device_list_new :: "device_t \<Rightarrow> device_list_t" where
  "device_list_new null = \<lparr>devices = replicate max_commands Dev_null, null_device = null, num_devices = 0\<rparr>"

text \<open>Which device handles a command: an unchecked access to the vector.\<close>

definition command_device :: "device_list_t \<Rightarrow> command_t \<Rightarrow> dev_id" where
  "command_device l c = devices l ! unat (cmd_device c)"

section \<open>Facts about commands\<close>

lemma command_fields:
  "tohost c = push_bit 56 (ucast (cmd_device c)) OR push_bit 48 (ucast (cmd_cmd c)) OR cmd_payload c"
proof (rule bit_word_eqI)
  fix n assume "n < LENGTH(64)"
  then consider "n < 48" | "48 \<le> n" "n < 56" | "56 \<le> n" "n < 64" by fastforce
  then show "bit (tohost c) n =
    bit (push_bit 56 (ucast (cmd_device c)) OR push_bit 48 (ucast (cmd_cmd c)) OR cmd_payload c) n"
    by cases (auto simp: cmd_device_def cmd_cmd_def cmd_payload_def bit_simps)
qed

lemma payload_bound: "unat (cmd_payload c) < 2 ^ 48"
proof -
  have "cmd_payload c = take_bit 48 (tohost c)"
    unfolding cmd_payload_def by (rule bit_word_eqI) (auto simp: bit_simps)
  then have "unat (cmd_payload c) = take_bit 48 (unat (tohost c))" by (simp add: unsigned_take_bit_eq)
  then show ?thesis using take_bit_nat_less_exp [of 48] by simp
qed

lemma response_fields:
  "cmd_device \<lparr>tohost = response c r\<rparr> = cmd_device c"
  "cmd_cmd \<lparr>tohost = response c r\<rparr> = cmd_cmd c"
  "cmd_payload \<lparr>tohost = response c r\<rparr> = take_bit 48 r"
  by (rule bit_word_eqI; auto simp: cmd_device_def cmd_cmd_def cmd_payload_def response_def bit_simps)+

section \<open>Registered handlers\<close>

text \<open>What every constructed device satisfies: no handler is empty and names fit the buffer.\<close>

definition device_wf :: "device_t \<Rightarrow> bool" where
  "device_wf d \<longleftrightarrow> length (command_handlers d) = max_commands \<and> length (command_names d) = max_commands
     \<and> None \<notin> set (command_handlers d) \<and> (\<forall>name \<in> set (command_names d). length name < identity_size)"

lemma register_command_OK:
  "cmd < max_commands \<Longrightarrow> length name < identity_size \<Longrightarrow>
   register_command cmd h name d = Some (Inr ((), d\<lparr>command_handlers := (command_handlers d)[cmd := Some h],
       command_names := (command_names d)[cmd := name]\<rparr>))"
  by (simp add: register_command_def monad_simps)

lemma register_command_wf:
  assumes "device_wf d" "cmd < max_commands" "length name < identity_size"
  shows "\<exists>d'. register_command cmd h name d = Some (Inr ((), d')) \<and> device_wf d'
    \<and> command_handlers d' = (command_handlers d)[cmd := Some h]
    \<and> command_names d' = (command_names d)[cmd := name]"
  using assms set_update_subset_insert [of "command_handlers d" cmd "Some h"]
    set_update_subset_insert [of "command_names d" cmd name]
  by (auto simp: register_command_OK device_wf_def)

lemma forM_snoc: "forM f (xs @ [x]) s = bindM (forM f xs) (\<lambda>_. f x) s"
proof (induction xs arbitrary: s)
  case (Cons y xs)
  have "forM f (xs @ [x]) = bindM (forM f xs) (\<lambda>_. f x)" by (rule ext) (rule Cons.IH)
  then show ?case by (simp add: bindM_assoc)
qed (auto simp: bindM_def return_def split: option.splits sum.splits bind_split)

lemma register_all:
  "n \<le> max_commands \<Longrightarrow> length (command_handlers d) = max_commands \<Longrightarrow> length (command_names d) = max_commands \<Longrightarrow>
   forM (\<lambda>cmd. register_command cmd Handle_null '''') [0..<n] d =
     Some (Inr ((), d\<lparr>command_handlers := replicate n (Some Handle_null) @ drop n (command_handlers d),
       command_names := replicate n '''' @ drop n (command_names d)\<rparr>))"
proof (induction n)
  case 0
  then show ?case by (simp add: monad_simps)
next
  case (Suc n)
  have upd: "(replicate n y @ drop n xs)[n := y] = replicate (Suc n) y @ drop (Suc n) xs"
    if "n < length xs" for xs :: "'b list" and y
    using that by (simp add: list_update_append Cons_nth_drop_Suc [symmetric] replicate_append_same [symmetric])
  show ?case using Suc upd [of "command_handlers d" "Some Handle_null"] upd [of "command_names d" "''''"]
    by (simp add: forM_snoc monad_simps register_command_OK identity_size_def)
qed

lemma device_ctor_result:
  "device_ctor raw_device = Some (Inr ((), \<lparr>command_handlers =
      (replicate max_commands (Some Handle_null))[max_commands - 1 := Some Handle_identify],
     command_names = (replicate max_commands '''')[max_commands - 1 := ''identity'']\<rparr>))"
proof -
  have "length (command_handlers raw_device) = max_commands" "length (command_names raw_device) = max_commands"
    by (simp_all add: raw_device_def)
  note all = register_all [OF order_refl this]
  have "max_commands - 1 < max_commands" "length ''identity'' < identity_size"
    by (simp_all add: max_commands_def identity_size_def)
  then show ?thesis
    unfolding device_ctor_def bindM_def [of "forM _ _"] all
    by (simp add: register_command_OK raw_device_def)
qed

lemma device_ctor_wf:
  "\<exists>d. device_ctor raw_device = Some (Inr ((), d)) \<and> device_wf d
    \<and> (\<forall>n < max_commands. command_handlers d ! n =
          Some (if n = max_commands - 1 then Handle_identify else Handle_null))"
  unfolding device_ctor_result
  by (simp add: device_wf_def max_commands_def identity_size_def nth_list_update)
    (auto dest!: set_update_subset_insert [THEN subsetD])


lemma bcd_ctor_wf:
  "\<exists>b. bcd_ctor raw_bcd = Some (Inr ((), b)) \<and> device_wf (bcd_device b) \<and> pending_reads b = []
    \<and> command_handlers (bcd_device b) ! 0 = Some Bcd_read
    \<and> command_handlers (bcd_device b) ! 1 = Some Bcd_write
    \<and> command_handlers (bcd_device b) ! 255 = Some Handle_identify"
proof -
  obtain d where d: "device_ctor raw_device = Some (Inr ((), d))" "device_wf d"
    "\<forall>n < max_commands. command_handlers d ! n = Some (if n = max_commands - 1 then Handle_identify else Handle_null)"
    using device_ctor_wf by blast
  obtain d1 where d1: "register_command 0 Bcd_read ''read'' d = Some (Inr ((), d1))" "device_wf d1"
    "command_handlers d1 = (command_handlers d)[0 := Some Bcd_read]"
    using register_command_wf [OF d(2), of 0 "''read''" Bcd_read]
    by (auto simp: max_commands_def identity_size_def)
  obtain d2 where d2: "register_command 1 Bcd_write ''write'' d1 = Some (Inr ((), d2))" "device_wf d2"
    "command_handlers d2 = (command_handlers d1)[1 := Some Bcd_write]"
    using register_command_wf [OF d1(2), of 1 "''write''" Bcd_write]
    by (auto simp: max_commands_def identity_size_def)
  have "length (command_handlers d) = 256" using d(2) by (simp add: device_wf_def max_commands_def)
  then show ?thesis using d d1 d2
    by (simp add: bcd_ctor_def on_bcd_device_def raw_bcd_def monad_simps max_commands_def)
qed

text \<open>Every command of a well-formed device has a handler: the vector access is in bounds.\<close>

lemma device_handler_total:
  assumes "device_wf d"
  shows "\<exists>h. device_handler d c = Inr h"
proof -
  have "unat (cmd_cmd c) < 256" using unsigned_less [of "cmd_cmd c"] by simp
  then have "command_handlers d ! unat (cmd_cmd c) \<in> set (command_handlers d)"
    using assms by (simp add: device_wf_def max_commands_def)
  then have "command_handlers d ! unat (cmd_cmd c) \<noteq> None" using assms by (metis device_wf_def)
  then show ?thesis by (auto simp: device_handler_def)
qed

section \<open>The order of terminal input\<close>

datatype bcd_event = Read_request command_t | Tick

fun bcd_step :: "'o posix \<Rightarrow> bcd_event \<Rightarrow> bcd_t \<Rightarrow> (('m, 'o, 'z) machine_scheme, bcd_t) M" where
  "bcd_step os (Read_request c) b = return (bcd_handle_read c b)"
| "bcd_step os Tick b = bcd_tick os b"

fun bcd_run :: "'o posix \<Rightarrow> bcd_event list \<Rightarrow> bcd_t \<Rightarrow> (('m, 'o, 'z) machine_scheme, bcd_t) M" where
  "bcd_run os [] b = return b"
| "bcd_run os (e # es) b = bindM (bcd_step os e b) (bcd_run os es)"

definition cmd_header :: "u64 \<Rightarrow> u64" where
  "cmd_header w = drop_bit 48 w"

fun requests :: "bcd_event list \<Rightarrow> command_t list" where
  "requests [] = []"
| "requests (Read_request c # es) = c # requests es"
| "requests (Tick # es) = requests es"

lemma header_response: "cmd_header (response c r) = cmd_header (tohost c)"
  unfolding cmd_header_def response_def
  by (rule bit_word_eqI) (auto simp: bit_simps dest: bit_imp_le_length)

lemma bcd_tick_OK:
  "\<exists>b' s'. bcd_tick os b s = Some (Inr (b', s')) \<and> chunks s' = chunks s \<and>
    map cmd_header (fromhost_queue s') @ map (cmd_header \<circ> tohost) (pending_reads b') =
    map cmd_header (fromhost_queue s) @ map (cmd_header \<circ> tohost) (pending_reads b)"
proof (cases "pending_reads b")
  case Nil
  then show ?thesis by (simp add: bcd_tick_def monad_simps)
next
  case (Cons c cs)
  obtain ch h where t: "terminal_read os (host s) = (ch, h)" by (cases "terminal_read os (host s)")
  then have "on_host (total (terminal_read os)) s = Some (Inr (ch, s\<lparr>host := h\<rparr>))"
    by (simp add: monad_simps)
  then show ?thesis using Cons
    by (cases ch) (simp_all add: bcd_tick_def monad_simps respond_def header_response)
qed

lemma bcd_run_order:
  "\<exists>b' s'. bcd_run os es b s = Some (Inr (b', s')) \<and>
    map cmd_header (fromhost_queue s') @ map (cmd_header \<circ> tohost) (pending_reads b') =
    map cmd_header (fromhost_queue s) @ map (cmd_header \<circ> tohost) (pending_reads b @ requests es)"
proof (induction es arbitrary: b s)
  case Nil
  then show ?case by (simp add: monad_simps)
next
  case (Cons e es)
  show ?case
  proof (cases e)
    case (Read_request c)
    then show ?thesis using Cons.IH [of "bcd_handle_read c b" s]
      by (simp add: monad_simps bcd_handle_read_def)
  next
    case Tick
    obtain b1 s1 where "bcd_tick os b s = Some (Inr (b1, s1))"
      "map cmd_header (fromhost_queue s1) @ map (cmd_header \<circ> tohost) (pending_reads b1) =
       map cmd_header (fromhost_queue s) @ map (cmd_header \<circ> tohost) (pending_reads b)"
      using bcd_tick_OK [of os b s] by blast
    then show ?thesis using Tick Cons.IH [of b1 s1] by (auto simp: monad_simps o_def)
  qed
qed

section \<open>The memory interface as the devices use it\<close>

context chunk_provider
begin

lemma mem_read_OK:
  assumes "invar (chunks s)" "\<forall>i<n. valid (a + of_nat i)"
  shows "\<exists>m. mem_read c a n s = Some (Inr (load (mem (chunks s)) a n, s\<lparr>chunks := m\<rparr>)) \<and> invar m
    \<and> mem m = mem (chunks s)"
  using read_correct [OF assms] by (auto simp: mem_read_def monad_simps)

lemma mem_write_OK:
  assumes "invar (chunks s)" "length bs \<le> 2 ^ 64" "\<forall>i<length bs. valid (a + of_nat i)"
  shows "\<exists>m. mem_write c a bs s = Some (Inr ((), s\<lparr>chunks := m\<rparr>)) \<and> invar m
    \<and> mem m = store (mem (chunks s)) a bs"
  using write_correct [OF assms] by (auto simp: mem_write_def monad_simps)

end

section \<open>The identify command\<close>

context chunk_provider
begin

lemma identify_writes:
  assumes wf: "device_wf d" and id: "length identity < identity_size"
    and s: "invar (chunks s)"
    and a: "addr = cmd_payload x div 256" "addr mod 64 = 0" and what: "what = unat (cmd_payload x mod 256)"
    and v: "\<forall>i<64. valid (addr + of_nat i)"
  shows "\<exists>m. handle_identify c identity d x s = Some (Inr ((),
      s\<lparr>chunks := m, fromhost_queue := fromhost_queue s @ [response x 1]\<rparr>))
    \<and> invar m \<and> mem m = store (mem (chunks s)) addr
        (id_buffer (if what = 255 then identity else command_names d ! what))"
proof -
  let ?name = "if what = 255 then identity else command_names d ! what"
  have "what < 256" using unat_mod [of "cmd_payload x" 256] unfolding what by simp
  then have "length ?name < identity_size"
    using id wf by (auto simp: device_wf_def max_commands_def)
  then have len: "length (id_buffer ?name) = 64" by (simp add: id_buffer_def identity_size_def)
  have n: "(of_nat max_commands :: u64) = 256" "(of_nat identity_size :: u64) = 64" "max_commands - 1 = 255"
    by (simp_all add: max_commands_def identity_size_def)
  obtain m where "mem_write c addr (id_buffer ?name) s = Some (Inr ((), s\<lparr>chunks := m\<rparr>))"
    "invar m" "mem m = store (mem (chunks s)) addr (id_buffer ?name)"
    using mem_write_OK [OF s, of "id_buffer ?name" addr] v len by auto
  moreover have "(if what = 255 then bindM (assertM (length identity < identity_size)
        ''strlen(identity()) < IDENTITY_SIZE'') (\<lambda>_. return (id_buffer identity))
      else return (id_buffer (command_names d ! what))) s = Some (Inr (id_buffer ?name, s))"
    using id by (simp add: monad_simps)
  ultimately show ?thesis
    unfolding handle_identify_def Let_def n what [symmetric] a(1) [symmetric]
    using a(2) by (intro exI [of _ m]) (simp add: monad_simps respond_def)
qed

end

lemma on_host_total [monad_simps]:
  "on_host (total f) s = Some (Inr (fst (f (host s)), s\<lparr>host := snd (f (host s))\<rparr>))"
  by (simp add: on_host_Some(1) monad_simps)

section \<open>The disk\<close>

context chunk_provider
begin

lemma disk_read_OK:
  fixes s :: "('a, 'o, 'z) machine_scheme"
  assumes s: "invar (chunks s)" and v: "\<forall>i<32. valid (cmd_payload x + of_nat i)"
    and req: "req = parse_request (load (mem (chunks s)) (cmd_payload x) 32)" "unat (rq_size req) < 2 ^ 63"
    and os: "os_pread os (disk_fd d) (replicate (unat (rq_size req)) 0) (rq_offset req) (host s) = ((rq_size req, buf), h)"
      "length buf = unat (rq_size req)"
    and v': "\<forall>i<unat (rq_size req). valid (rq_addr req + of_nat i)"
  shows "\<exists>m. disk_handle_read c os d x s = Some (Inr ((), s\<lparr>chunks := m, host := h,
      fromhost_queue := fromhost_queue s @ [response x (rq_tag req)]\<rparr>)) \<and> invar m
    \<and> mem m = store (mem (chunks s)) (rq_addr req) buf"
proof -
  obtain m where m: "mem_read c (cmd_payload x) request_bytes s = Some (Inr (load (mem (chunks s)) (cmd_payload x) 32,
      s\<lparr>chunks := m\<rparr>))" "invar m" "mem m = mem (chunks s)"
    using mem_read_OK [OF s v] by (auto simp: request_bytes_def)
  obtain m' where m': "mem_write c (rq_addr req) buf (s\<lparr>chunks := m, host := h\<rparr>) = Some (Inr ((), s\<lparr>host := h, chunks := m'\<rparr>))"
    "invar m'" "mem m' = store (mem (chunks s)) (rq_addr req) buf"
    using mem_write_OK [of "s\<lparr>chunks := m, host := h\<rparr>" buf "rq_addr req"] m req(2) os(2) v' by auto
  have alloc: "vector_alloc (rq_size req) (s\<lparr>chunks := m\<rparr>)
      = Some (Inr (replicate (unat (rq_size req)) 0, s\<lparr>chunks := m\<rparr>))"
    using req(2) by (simp add: vector_alloc_def monad_simps)
  have call: "on_host (total (os_pread os (disk_fd d) (replicate (unat (rq_size req)) 0) (rq_offset req))) (s\<lparr>chunks := m\<rparr>)
      = Some (Inr ((rq_size req, buf), s\<lparr>chunks := m, host := h\<rparr>))"
    using os(1) by (simp add: on_host_total)
  show ?thesis
    using m m' alloc call unfolding disk_handle_read_def Let_def
    by (intro exI [of _ m']) (simp add: bindM_Some(1) respond_def monad_simps flip: req(1))
qed

end

end
