(* ===== verification/Syscall.thy ===== *)
theory Syscall
  imports Device
begin

text \<open>
  The proxy of system calls (\<^verbatim>\<open>syscall.h\<close>, \<^verbatim>\<open>syscall.cc\<close>): the table of file descriptors, the
  emulated root directory, the frame of eight words in target memory and the calls
  themselves. The state \<open>proxy\<close> extends the machine by what these calls read and write of
  \<^verbatim>\<open>htif_t\<close>: the exit code and the arguments of the target program.
\<close>

section \<open>State\<close>

datatype sysfn =
    Sys_exit | Sys_openat | Sys_read | Sys_pread | Sys_write | Sys_pwrite | Sys_close | Sys_lseek
  | Sys_fstat | Sys_lstat | Sys_fstatat | Sys_faccessat | Sys_fcntl | Sys_ftruncate | Sys_renameat
  | Sys_linkat | Sys_unlinkat | Sys_mkdirat | Sys_getcwd | Sys_getmainvars | Sys_chdir

record syscall_t =
  sc_device :: device_t
  table :: "sysfn option list"
  fds :: "i32 list"
  chroot :: cstring

record ('m, 'o) proxy = "('m, 'o) machine" +
  exitcode :: i32
  targs :: "cstring list"
  syscall_proxy :: syscall_t

section \<open>File descriptors\<close>

definition riscv_at_fdcwd :: i32 where "riscv_at_fdcwd = -100"
definition at_fdcwd :: i32 where "at_fdcwd = -100"

text \<open>The index at which the search loop of \<open>fds_alloc\<close> stops.\<close>

fun first_free :: "i32 list \<Rightarrow> nat" where
  "first_free [] = 0"
| "first_free (fd # l) = (if fd = -1 then 0 else Suc (first_free l))"

definition fds_alloc :: "i32 \<Rightarrow> i32 list \<Rightarrow> u64 \<times> i32 list" where
  "fds_alloc fd l =
     (let i = first_free l;
          l = (if i = length l then l @ [0] else l) in
      (of_nat i, l[i := fd]))"

definition fds_dealloc :: "u64 \<Rightarrow> i32 list \<Rightarrow> error + i32 list" where
  "fds_dealloc fd l = (if unat fd < length l then Inr (l[unat fd := -1]) else Inl Out_of_bounds)"

definition fds_lookup :: "u64 \<Rightarrow> i32 list \<Rightarrow> i32" where
  "fds_lookup fd l =
     (if (ucast fd :: i32) = riscv_at_fdcwd then at_fdcwd
      else if length l \<le> unat fd then -1 else l ! unat fd)"

text \<open>
  What the table promises its clients, as a partial map from the target's descriptors to the
  host's: allocation takes the lowest free descriptor and changes nothing else. \<open>ok\<close> says that
  no live descriptor is mistaken for the current-directory constant, \<open>room\<close> that this still
  holds after one more allocation.
\<close>

locale fd_table =
  fixes alloc :: "i32 \<Rightarrow> 't \<Rightarrow> u64 \<times> 't" and dealloc :: "u64 \<Rightarrow> 't \<Rightarrow> error + 't"
    and lookup :: "u64 \<Rightarrow> 't \<Rightarrow> i32" and view :: "'t \<Rightarrow> u64 \<Rightarrow> i32 option"
    and ok :: "'t \<Rightarrow> bool" and room :: "'t \<Rightarrow> bool"
  assumes alloc_law: "room t \<Longrightarrow> fd \<noteq> -1 \<Longrightarrow> alloc fd t = (i, t') \<Longrightarrow>
      view t i = None \<and> view t' = (view t)(i \<mapsto> fd) \<and> ok t' \<and> (\<forall>j < i. view t j \<noteq> None)"
    and dealloc_law: "view t i = Some fd \<Longrightarrow>
      \<exists>t'. dealloc i t = Inr t' \<and> view t' = (view t)(i := None) \<and> (ok t \<longrightarrow> ok t')"
    and lookup_law: "ok t \<Longrightarrow> view t i = Some fd \<Longrightarrow> lookup i t = fd"
begin

lemma lookup_alloc:
  assumes "room t" "fd \<noteq> -1" "alloc fd t = (i, t')"
  shows "lookup i t' = fd" "view t j = Some fd' \<Longrightarrow> j \<noteq> i \<and> lookup j t' = fd'"
proof -
  note law = alloc_law [OF assms]
  then show "lookup i t' = fd" by (intro lookup_law) auto
  assume j: "view t j = Some fd'"
  with law have "j \<noteq> i" by auto
  with law j show "j \<noteq> i \<and> lookup j t' = fd'" by (intro conjI lookup_law) auto
qed

lemma alloc_dealloc:
  assumes "room t" "fd \<noteq> -1" "alloc fd t = (i, t')"
  shows "\<exists>t''. dealloc i t' = Inr t'' \<and> view t'' = view t"
  using alloc_law [OF assms] dealloc_law [of t' i fd] by (auto simp: fun_upd_idem)

end

definition fd_view :: "i32 list \<Rightarrow> u64 \<Rightarrow> i32 option" where
  "fd_view l i = (if unat i < length l \<and> l ! unat i \<noteq> -1 then Some (l ! unat i) else None)"

definition fd_ok :: "i32 list \<Rightarrow> bool" where
  "fd_ok l \<longleftrightarrow> length l \<le> 2 ^ 31"

definition fd_room :: "i32 list \<Rightarrow> bool" where
  "fd_room l \<longleftrightarrow> length l < 2 ^ 31"

lemma first_free_le: "first_free l \<le> length l"
  by (induction l) auto

lemma first_free_at: "first_free l < length l \<Longrightarrow> l ! first_free l = -1"
  by (induction l) auto

lemma first_free_before: "j < first_free l \<Longrightarrow> l ! j \<noteq> -1"
  by (induction l arbitrary: j) (auto simp: nth_Cons split: if_splits nat.splits)

lemma unat_inject: "unat (x :: 'a::len word) = unat y \<longleftrightarrow> x = y"
  by (simp add: word_unat_eq_iff)

lemma fds_alloc_view:
  assumes room: "fd_room l" and fd: "fd \<noteq> -1" and alloc: "fds_alloc fd l = (i, l')"
  shows "fd_view l i = None" "fd_view l' = (fd_view l)(i \<mapsto> fd)" "fd_ok l'"
    "\<forall>j < i. fd_view l j \<noteq> None"
proof -
  let ?n = "first_free l"
  have n: "?n < 2 ^ 31" "?n \<le> length l" using first_free_le [of l] room by (auto simp: fd_room_def)
  then have i: "i = of_nat ?n" "unat i = ?n" using alloc by (auto simp: fds_alloc_def Let_def)
  have l': "l' = (if ?n = length l then l @ [fd] else l[?n := fd])"
    using alloc n by (auto simp: fds_alloc_def Let_def)
  show "fd_view l i = None" using first_free_at [of l] i by (auto simp: fd_view_def)
  show "fd_ok l'" using room l' by (auto simp: fd_ok_def fd_room_def)
  show "\<forall>j < i. fd_view l j \<noteq> None"
    using first_free_before [of _ l] n i by (auto simp: fd_view_def word_less_nat_alt)
  show "fd_view l' = (fd_view l)(i \<mapsto> fd)"
  proof
    fix j
    have "j = i \<longleftrightarrow> unat j = ?n" using i(2) by (simp flip: unat_inject)
    then show "fd_view l' j = ((fd_view l)(i \<mapsto> fd)) j"
      using l' fd n by (auto simp: fd_view_def nth_append nth_list_update)
  qed
qed

lemma not_fdcwd:
  assumes "unat fd < 2 ^ 31"
  shows "(ucast (fd :: u64) :: i32) \<noteq> riscv_at_fdcwd"
proof
  assume "ucast fd = riscv_at_fdcwd"
  then have "unat (ucast fd :: i32) = unat riscv_at_fdcwd" by simp
  moreover have "unat (ucast fd :: i32) = unat fd" using assms by (simp add: unsigned_ucast_eq take_bit_nat_eq_self)
  ultimately show False using assms by (simp add: riscv_at_fdcwd_def)
qed

interpretation fdt: fd_table fds_alloc fds_dealloc fds_lookup fd_view fd_ok fd_room
proof
  fix l i fd
  assume "fd_view l i = Some fd"
  then have v: "unat i < length l" "l ! unat i = fd" "fd \<noteq> -1" by (auto simp: fd_view_def split: if_splits)
  have "fd_view (l[unat i := -1]) = (fd_view l)(i := None)"
    by (rule ext) (auto simp: fd_view_def nth_list_update unat_inject)
  then show "\<exists>l'. fds_dealloc i l = Inr l' \<and> fd_view l' = (fd_view l)(i := None) \<and> (fd_ok l \<longrightarrow> fd_ok l')"
    using v by (simp add: fds_dealloc_def fd_ok_def)
  show "fds_lookup i l = fd" if "fd_ok l"
    using v that not_fdcwd [of i] by (auto simp: fds_lookup_def fd_ok_def)
qed (use fds_alloc_view in blast)

section \<open>Paths\<close>

definition slash :: u8 where "slash = 0x2F"

definition do_chroot :: "cstring \<Rightarrow> cstring \<Rightarrow> cstring" where
  "do_chroot root fn = (if root \<noteq> [] \<and> (fn \<noteq> [] \<and> hd fn = slash) then root @ fn else fn)"

definition undo_chroot :: "cstring \<Rightarrow> cstring \<Rightarrow> cstring" where
  "undo_chroot root fn =
     (if root = [] then fn
      else if take (length root) fn = root
          \<and> (last root = slash \<or> char_at fn (length root) = slash)
        then drop (length root - (if last root = slash then 1 else 0)) fn
      else [slash])"

section \<open>Results, names and the target's stat structure\<close>

definition sysret_errno :: "'o posix \<Rightarrow> u64 \<Rightarrow> (('m, 'o, 'z) machine_scheme, u64) M" where
  "sysret_errno os ret = getM (\<lambda>s. if ret = -1 then scast (- os_errno os (host s)) else ret)"

definition enomem :: u64 where "enomem = 12"

definition fd_of :: "u64 \<Rightarrow> (('m, 'o, 'z) proxy_scheme, i32) M" where
  "fd_of fd = getM (\<lambda>s. fds_lookup fd (fds (syscall_proxy s)))"

definition update_syscall ::
  "(syscall_t \<Rightarrow> syscall_t) \<Rightarrow> (('m, 'o, 'z) proxy_scheme, unit) M" where
  "update_syscall f = modifyM (\<lambda>s. s\<lparr>syscall_proxy := f (syscall_proxy s)\<rparr>)"

text \<open>A call of the host.\<close>

definition call :: "('o \<Rightarrow> 'a \<times> 'o) \<Rightarrow> (('m, 'o, 'z) machine_scheme, 'a) M" where
  "call f = on_host (total f)"

text \<open>A name buffer: \<open>len\<close> bytes of target memory.\<close>

definition read_name :: "'m chunked_memif \<Rightarrow> u64 \<Rightarrow> u64 \<Rightarrow> (('m, 'o, 'z) machine_scheme, u8 list) M" where
  "read_name ops pname len = bindM (vector_alloc len) (\<lambda>buf. mem_read ops pname (length buf))"

text \<open>The string handed to the host: \<^verbatim>\<open>AT_SYSCALL\<close> confines names relative to the current directory.\<close>

definition at_name :: "u64 \<Rightarrow> u8 list \<Rightarrow> (('m, 'o, 'z) proxy_scheme, cstring) M" where
  "at_name fd buf =
     bindM (liftE (cstr buf)) (\<lambda>name.
     getM (\<lambda>s. if (ucast fd :: i32) = riscv_at_fdcwd then do_chroot (chroot (syscall_proxy s)) name
                else name))"

record riscv_stat =
  rs_dev :: u64
  rs_ino :: u64
  rs_mode :: u32
  rs_nlink :: u32
  rs_uid :: u32
  rs_gid :: u32
  rs_rdev :: u64
  rs_pad1 :: u64
  rs_size :: u64
  rs_blksize :: u32
  rs_pad2 :: u32
  rs_blocks :: u64
  rs_atime :: u64
  rs_pad3 :: u64
  rs_mtime :: u64
  rs_pad4 :: u64
  rs_ctime :: u64
  rs_pad5 :: u64
  rs_unused4 :: u32
  rs_unused5 :: u32

definition riscv_stat_of :: "stat \<Rightarrow> riscv_stat" where
  "riscv_stat_of s = \<lparr>rs_dev = st_dev s, rs_ino = st_ino s, rs_mode = st_mode s,
     rs_nlink = ucast (st_nlink s), rs_uid = st_uid s, rs_gid = st_gid s, rs_rdev = st_rdev s,
     rs_pad1 = 0, rs_size = st_size s, rs_blksize = ucast (st_blksize s), rs_pad2 = 0,
     rs_blocks = st_blocks s, rs_atime = st_atime s, rs_pad3 = 0, rs_mtime = st_mtime s,
     rs_pad4 = 0, rs_ctime = st_ctime s, rs_pad5 = 0, rs_unused4 = 0, rs_unused5 = 0\<rparr>"

text \<open>The bytes of the structure in memory.\<close>

definition riscv_stat_bytes :: "riscv_stat \<Rightarrow> u8 list" where
  "riscv_stat_bytes r = le_bytes (rs_dev r) @ le_bytes (rs_ino r) @ le_bytes (rs_mode r)
     @ le_bytes (rs_nlink r) @ le_bytes (rs_uid r) @ le_bytes (rs_gid r) @ le_bytes (rs_rdev r)
     @ le_bytes (rs_pad1 r) @ le_bytes (rs_size r) @ le_bytes (rs_blksize r) @ le_bytes (rs_pad2 r)
     @ le_bytes (rs_blocks r) @ le_bytes (rs_atime r) @ le_bytes (rs_pad3 r) @ le_bytes (rs_mtime r)
     @ le_bytes (rs_pad4 r) @ le_bytes (rs_ctime r) @ le_bytes (rs_pad5 r)
     @ le_bytes (rs_unused4 r) @ le_bytes (rs_unused5 r)"

section \<open>The calls\<close>

definition sys_exit :: "u64 \<Rightarrow> (('m, 'o, 'z) proxy_scheme, u64) M" where
  "sys_exit code = bindM (modifyM (\<lambda>s. s\<lparr>exitcode := ucast (push_bit 1 code OR 1)\<rparr>)) (\<lambda>_. return 0)"

text \<open>
  The first \<^verbatim>\<open>ret\<close> bytes of a buffer that a call of the host has filled, for a positive \<^verbatim>\<open>ret\<close>.
\<close>

definition put_result ::
  "'m chunked_memif \<Rightarrow> u64 \<Rightarrow> u64 \<Rightarrow> u8 list \<Rightarrow> (('m, 'o, 'z) machine_scheme, unit) M" where
  "put_result ops pbuf ret buf =
     (if 0 < sint ret then
        if unat ret \<le> length buf then mem_write ops pbuf (take (unat ret) buf) else throw Out_of_bounds
      else return ())"

definition sys_read :: "'m chunked_memif \<Rightarrow> 'o posix \<Rightarrow> u64 \<Rightarrow> u64 \<Rightarrow> u64 \<Rightarrow>
    (('m, 'o, 'z) proxy_scheme, u64) M" where
  "sys_read ops os fd pbuf len =
     bindM (vector_alloc len) (\<lambda>buf.
     bindM (fd_of fd) (\<lambda>hfd.
     bindM (call (os_read os hfd buf)) (\<lambda>(ret, buf).
     bindM (sysret_errno os ret) (\<lambda>ret_errno.
     bindM (put_result ops pbuf ret buf) (\<lambda>_.
     return ret_errno)))))"

definition sys_pread :: "'m chunked_memif \<Rightarrow> 'o posix \<Rightarrow> u64 \<Rightarrow> u64 \<Rightarrow> u64 \<Rightarrow> u64 \<Rightarrow>
    (('m, 'o, 'z) proxy_scheme, u64) M" where
  "sys_pread ops os fd pbuf len off =
     bindM (vector_alloc len) (\<lambda>buf.
     bindM (fd_of fd) (\<lambda>hfd.
     bindM (call (os_pread os hfd buf off)) (\<lambda>(ret, buf).
     bindM (sysret_errno os ret) (\<lambda>ret_errno.
     bindM (put_result ops pbuf ret buf) (\<lambda>_.
     return ret_errno)))))"

definition sys_write :: "'m chunked_memif \<Rightarrow> 'o posix \<Rightarrow> u64 \<Rightarrow> u64 \<Rightarrow> u64 \<Rightarrow>
    (('m, 'o, 'z) proxy_scheme, u64) M" where
  "sys_write ops os fd pbuf len =
     bindM (read_name ops pbuf len) (\<lambda>buf.
     bindM (fd_of fd) (\<lambda>hfd.
     bindM (call (os_write os hfd buf)) (sysret_errno os)))"

definition sys_pwrite :: "'m chunked_memif \<Rightarrow> 'o posix \<Rightarrow> u64 \<Rightarrow> u64 \<Rightarrow> u64 \<Rightarrow> u64 \<Rightarrow>
    (('m, 'o, 'z) proxy_scheme, u64) M" where
  "sys_pwrite ops os fd pbuf len off =
     bindM (read_name ops pbuf len) (\<lambda>buf.
     bindM (fd_of fd) (\<lambda>hfd.
     bindM (call (os_pwrite os hfd buf off)) (sysret_errno os)))"

definition sys_close :: "'o posix \<Rightarrow> u64 \<Rightarrow> (('m, 'o, 'z) proxy_scheme, u64) M" where
  "sys_close os fd =
     bindM (fd_of fd) (\<lambda>hfd.
     bindM (call (os_close os hfd)) (\<lambda>r.
     if sint r < 0 then sysret_errno os (-1)
     else
       bindM (getM (\<lambda>s. fds_dealloc fd (fds (syscall_proxy s)))) (\<lambda>l.
       bindM (liftE l) (\<lambda>l.
       bindM (update_syscall (\<lambda>p. p\<lparr>fds := l\<rparr>)) (\<lambda>_.
       return 0)))))"

definition sys_lseek :: "'o posix \<Rightarrow> u64 \<Rightarrow> u64 \<Rightarrow> u64 \<Rightarrow> (('m, 'o, 'z) proxy_scheme, u64) M" where
  "sys_lseek os fd ptr dir =
     bindM (fd_of fd) (\<lambda>hfd. bindM (call (os_lseek os hfd ptr (ucast dir))) (sysret_errno os))"

text \<open>The common end of the three \<^verbatim>\<open>stat\<close> calls.\<close>

definition put_stat ::
  "'m chunked_memif \<Rightarrow> u64 \<Rightarrow> u64 \<Rightarrow> stat \<Rightarrow> (('m, 'o, 'z) machine_scheme, u64) M" where
  "put_stat ops pbuf ret buf =
     bindM (if ret \<noteq> -1 then mem_write ops pbuf (riscv_stat_bytes (riscv_stat_of buf)) else return ())
       (\<lambda>_. return ret)"

definition sys_fstat :: "'m chunked_memif \<Rightarrow> 'o posix \<Rightarrow> u64 \<Rightarrow> u64 \<Rightarrow>
    (('m, 'o, 'z) proxy_scheme, u64) M" where
  "sys_fstat ops os fd pbuf =
     bindM (fd_of fd) (\<lambda>hfd.
     bindM (call (os_fstat os hfd)) (\<lambda>(r, buf).
     bindM (sysret_errno os (scast r)) (\<lambda>ret.
     put_stat ops pbuf ret buf)))"

definition sys_fcntl :: "'o posix \<Rightarrow> u64 \<Rightarrow> u64 \<Rightarrow> u64 \<Rightarrow> (('m, 'o, 'z) proxy_scheme, u64) M" where
  "sys_fcntl os fd cmd arg =
     bindM (fd_of fd) (\<lambda>hfd.
     bindM (call (os_fcntl os hfd (ucast cmd) arg)) (\<lambda>r. sysret_errno os (scast r)))"

definition sys_ftruncate :: "'o posix \<Rightarrow> u64 \<Rightarrow> u64 \<Rightarrow> (('m, 'o, 'z) proxy_scheme, u64) M" where
  "sys_ftruncate os fd len =
     bindM (fd_of fd) (\<lambda>hfd.
     bindM (call (os_ftruncate os hfd len)) (\<lambda>r. sysret_errno os (scast r)))"

definition sys_lstat :: "'m chunked_memif \<Rightarrow> 'o posix \<Rightarrow> u64 \<Rightarrow> u64 \<Rightarrow> u64 \<Rightarrow>
    (('m, 'o, 'z) proxy_scheme, u64) M" where
  "sys_lstat ops os pname len pbuf =
     bindM (read_name ops pname len) (\<lambda>name.
     bindM (liftE (cstr name)) (\<lambda>name.
     bindM (getM (\<lambda>s. do_chroot (chroot (syscall_proxy s)) name)) (\<lambda>name.
     bindM (call (os_lstat os name)) (\<lambda>(r, buf).
     bindM (sysret_errno os (scast r)) (\<lambda>ret.
     put_stat ops pbuf ret buf)))))"

definition sys_openat :: "'m chunked_memif \<Rightarrow> 'o posix \<Rightarrow> u64 \<Rightarrow> u64 \<Rightarrow> u64 \<Rightarrow> u64 \<Rightarrow> u64 \<Rightarrow>
    (('m, 'o, 'z) proxy_scheme, u64) M" where
  "sys_openat ops os dirfd pname len flags mode =
     bindM (read_name ops pname len) (\<lambda>name.
     bindM (fd_of dirfd) (\<lambda>hfd.
     bindM (at_name dirfd name) (\<lambda>name.
     bindM (call (os_openat os hfd name (ucast flags) (ucast mode))) (\<lambda>r.
     bindM (sysret_errno os (scast r)) (\<lambda>ret.
     let fd = (ucast ret :: i32) in
     if sint fd < 0 then sysret_errno os (-1)
     else
       bindM (getM (\<lambda>s. fds_alloc fd (fds (syscall_proxy s)))) (\<lambda>(i, l).
       bindM (update_syscall (\<lambda>p. p\<lparr>fds := l\<rparr>)) (\<lambda>_.
       return i)))))))"

definition sys_fstatat :: "'m chunked_memif \<Rightarrow> 'o posix \<Rightarrow> u64 \<Rightarrow> u64 \<Rightarrow> u64 \<Rightarrow> u64 \<Rightarrow> u64 \<Rightarrow>
    (('m, 'o, 'z) proxy_scheme, u64) M" where
  "sys_fstatat ops os dirfd pname len pbuf flags =
     bindM (read_name ops pname len) (\<lambda>name.
     bindM (fd_of dirfd) (\<lambda>hfd.
     bindM (at_name dirfd name) (\<lambda>name.
     bindM (call (os_fstatat os hfd name (ucast flags))) (\<lambda>(r, buf).
     bindM (sysret_errno os (scast r)) (\<lambda>ret.
     put_stat ops pbuf ret buf)))))"

definition sys_faccessat :: "'m chunked_memif \<Rightarrow> 'o posix \<Rightarrow> u64 \<Rightarrow> u64 \<Rightarrow> u64 \<Rightarrow> u64 \<Rightarrow>
    (('m, 'o, 'z) proxy_scheme, u64) M" where
  "sys_faccessat ops os dirfd pname len mode =
     bindM (read_name ops pname len) (\<lambda>name.
     bindM (fd_of dirfd) (\<lambda>hfd.
     bindM (at_name dirfd name) (\<lambda>name.
     bindM (call (os_faccessat os hfd name (ucast mode) 0)) (\<lambda>r. sysret_errno os (scast r)))))"

definition sys_renameat :: "'m chunked_memif \<Rightarrow> 'o posix \<Rightarrow> u64 \<Rightarrow> u64 \<Rightarrow> u64 \<Rightarrow> u64 \<Rightarrow> u64 \<Rightarrow> u64 \<Rightarrow>
    (('m, 'o, 'z) proxy_scheme, u64) M" where
  "sys_renameat ops os odirfd popath olen ndirfd pnpath nlen =
     bindM (vector_alloc olen) (\<lambda>obuf.
     bindM (vector_alloc nlen) (\<lambda>nbuf.
     bindM (mem_read ops popath (length obuf)) (\<lambda>opath.
     bindM (mem_read ops pnpath (length nbuf)) (\<lambda>npath.
     bindM (fd_of odirfd) (\<lambda>ofd.
     bindM (at_name odirfd opath) (\<lambda>oname.
     bindM (fd_of ndirfd) (\<lambda>nfd.
     bindM (at_name ndirfd npath) (\<lambda>nname.
     bindM (call (os_renameat os ofd oname nfd nname)) (\<lambda>r. sysret_errno os (scast r))))))))))"

definition sys_linkat :: "'m chunked_memif \<Rightarrow> 'o posix \<Rightarrow> u64 \<Rightarrow> u64 \<Rightarrow> u64 \<Rightarrow> u64 \<Rightarrow> u64 \<Rightarrow> u64 \<Rightarrow> u64 \<Rightarrow>
    (('m, 'o, 'z) proxy_scheme, u64) M" where
  "sys_linkat ops os odirfd poname olen ndirfd pnname nlen flags =
     bindM (vector_alloc olen) (\<lambda>obuf.
     bindM (vector_alloc nlen) (\<lambda>nbuf.
     bindM (mem_read ops poname (length obuf)) (\<lambda>opath.
     bindM (mem_read ops pnname (length nbuf)) (\<lambda>npath.
     bindM (fd_of odirfd) (\<lambda>ofd.
     bindM (at_name odirfd opath) (\<lambda>oname.
     bindM (fd_of ndirfd) (\<lambda>nfd.
     bindM (at_name ndirfd npath) (\<lambda>nname.
     bindM (call (os_linkat os ofd oname nfd nname (ucast flags))) (\<lambda>r. sysret_errno os (scast r))))))))))"

definition sys_unlinkat :: "'m chunked_memif \<Rightarrow> 'o posix \<Rightarrow> u64 \<Rightarrow> u64 \<Rightarrow> u64 \<Rightarrow> u64 \<Rightarrow>
    (('m, 'o, 'z) proxy_scheme, u64) M" where
  "sys_unlinkat ops os dirfd pname len flags =
     bindM (read_name ops pname len) (\<lambda>name.
     bindM (fd_of dirfd) (\<lambda>hfd.
     bindM (at_name dirfd name) (\<lambda>name.
     bindM (call (os_unlinkat os hfd name (ucast flags))) (\<lambda>r. sysret_errno os (scast r)))))"

definition sys_mkdirat :: "'m chunked_memif \<Rightarrow> 'o posix \<Rightarrow> u64 \<Rightarrow> u64 \<Rightarrow> u64 \<Rightarrow> u64 \<Rightarrow>
    (('m, 'o, 'z) proxy_scheme, u64) M" where
  "sys_mkdirat ops os dirfd pname len mode =
     bindM (read_name ops pname len) (\<lambda>name.
     bindM (fd_of dirfd) (\<lambda>hfd.
     bindM (at_name dirfd name) (\<lambda>name.
     bindM (call (os_mkdirat os hfd name (ucast mode))) (\<lambda>r. sysret_errno os (scast r)))))"

definition sys_getcwd :: "'m chunked_memif \<Rightarrow> 'o posix \<Rightarrow> u64 \<Rightarrow> u64 \<Rightarrow>
    (('m, 'o, 'z) proxy_scheme, u64) M" where
  "sys_getcwd ops os pbuf len =
     bindM (vector_alloc len) (\<lambda>buf.
     bindM (call (os_getcwd os buf)) (\<lambda>(ok, buf).
     if \<not> ok then sysret_errno os (-1)
     else
       bindM (liftE (cstr buf)) (\<lambda>cwd.
       bindM (getM (\<lambda>s. undo_chroot (chroot (syscall_proxy s)) cwd)) (\<lambda>tmp.
       if unat len \<le> length tmp then return (- enomem)
       else
         bindM (mem_write ops pbuf (tmp @ [0])) (\<lambda>_.
         return (of_nat (length tmp + 1)))))))"

text \<open>
  The argument vector of the target: \<open>argc\<close>, the addresses of the arguments, two null words,
  then the strings. The loop that computes the addresses keeps the running size \<open>sz\<close>.
\<close>

fun arg_words :: "u64 \<Rightarrow> nat \<Rightarrow> cstring list \<Rightarrow> u64 list \<times> nat" where
  "arg_words pbuf sz [] = ([], sz)"
| "arg_words pbuf sz (a # args) =
     (let (ws, end_sz) = arg_words pbuf (sz + length a + 1) args in ((of_nat sz + pbuf) # ws, end_sz))"

text \<open>\<^verbatim>\<open>memcpy\<close> into a buffer; \<^verbatim>\<open>strcpy\<close> copies up to and with the first NUL.\<close>

definition patch :: "nat \<Rightarrow> u8 list \<Rightarrow> u8 list \<Rightarrow> error + u8 list" where
  "patch i xs buf = (if i + length xs \<le> length buf
     then Inr (take i buf @ xs @ drop (i + length xs) buf) else Inl Out_of_bounds)"

fun copy_args :: "u64 \<Rightarrow> (u64 \<times> cstring) list \<Rightarrow> u8 list \<Rightarrow> error + u8 list" where
  "copy_args pbuf [] buf = Inr buf"
| "copy_args pbuf ((w, a) # was) buf =
     (case patch (unat (w - pbuf)) (takeWhile (\<lambda>c. c \<noteq> 0) a @ [0]) buf of
        Inl e \<Rightarrow> Inl e
      | Inr buf \<Rightarrow> copy_args pbuf was buf)"

definition sys_getmainvars :: "'m chunked_memif \<Rightarrow> u64 \<Rightarrow> u64 \<Rightarrow> (('m, 'o, 'z) proxy_scheme, u64) M" where
  "sys_getmainvars ops pbuf limit =
     bindM (getM targs) (\<lambda>args.
     let (ptrs, sz) = arg_words pbuf ((length args + 3) * 8) args;
         words = of_nat (length args) # ptrs @ [0, 0] in
     bindM (vector_alloc (of_nat sz)) (\<lambda>bytes.
     bindM (liftE (patch 0 (concat (map le_bytes words)) bytes)) (\<lambda>bytes.
     bindM (liftE (copy_args pbuf (zip ptrs args) bytes)) (\<lambda>bytes.
     if unat limit < length bytes then return (- enomem)
     else bindM (mem_write ops pbuf bytes) (\<lambda>_. return 0)))))"

definition get_byte :: "'m chunked_memif \<Rightarrow> u64 \<Rightarrow> (('m, 'o, 'z) machine_scheme, u8) M" where
  "get_byte ops addr = on_chunks (read_uint8 ops addr)"

partial_function (option) name_size ::
  "'m chunked_memif \<Rightarrow> u64 \<Rightarrow> u64 \<Rightarrow> ('m, 'o, 'z) machine_scheme \<Rightarrow>
   (error + u64 \<times> ('m, 'o, 'z) machine_scheme) option" where
  "name_size ops path n s =
     bindM (get_byte ops (path + n))
       (\<lambda>c s. if c \<noteq> 0 then name_size ops path (n + 1) s else return (n + 1) s) s"

function copy_name :: "'m chunked_memif \<Rightarrow> u64 \<Rightarrow> nat \<Rightarrow> u8 list \<Rightarrow>
    (('m, 'o, 'z) machine_scheme, u8 list) M" where
  "copy_name ops path offset buf =
     bindM (get_byte ops (path + of_nat offset)) (\<lambda>c.
     if offset < length buf then
       if c = 0 then return (buf[offset := c]) else copy_name ops path (offset + 1) (buf[offset := c])
     else throw Out_of_bounds)"
  by pat_completeness auto
termination by (relation "measure (\<lambda>(ops, path, offset, buf). length buf - offset)") auto

declare copy_name.simps [simp del]

definition sys_chdir :: "'m chunked_memif \<Rightarrow> 'o posix \<Rightarrow> u64 \<Rightarrow> (('m, 'o, 'z) proxy_scheme, u64) M" where
  "sys_chdir ops os path =
     bindM (name_size ops path 0) (\<lambda>n.
     bindM (vector_alloc n) (\<lambda>buf.
     bindM (copy_name ops path 0 buf) (\<lambda>buf.
     bindM (liftE (cstr buf)) (\<lambda>name.
     bindM (call (os_chdir os name)) (\<lambda>r.
     sysret_errno os (scast r))))))"

section \<open>Dispatch\<close>

text \<open>Calling a pointer to a member function with the seven argument registers.\<close>

fun sys_call :: "'m chunked_memif \<Rightarrow> 'o posix \<Rightarrow> sysfn \<Rightarrow> u64 list \<Rightarrow>
    (('m, 'o, 'z) proxy_scheme, u64) M" where
  "sys_call ops os Sys_exit a = sys_exit (a ! 0)"
| "sys_call ops os Sys_openat a = sys_openat ops os (a ! 0) (a ! 1) (a ! 2) (a ! 3) (a ! 4)"
| "sys_call ops os Sys_read a = sys_read ops os (a ! 0) (a ! 1) (a ! 2)"
| "sys_call ops os Sys_pread a = sys_pread ops os (a ! 0) (a ! 1) (a ! 2) (a ! 3)"
| "sys_call ops os Sys_write a = sys_write ops os (a ! 0) (a ! 1) (a ! 2)"
| "sys_call ops os Sys_pwrite a = sys_pwrite ops os (a ! 0) (a ! 1) (a ! 2) (a ! 3)"
| "sys_call ops os Sys_close a = sys_close os (a ! 0)"
| "sys_call ops os Sys_lseek a = sys_lseek os (a ! 0) (a ! 1) (a ! 2)"
| "sys_call ops os Sys_fstat a = sys_fstat ops os (a ! 0) (a ! 1)"
| "sys_call ops os Sys_lstat a = sys_lstat ops os (a ! 0) (a ! 1) (a ! 2)"
| "sys_call ops os Sys_fstatat a = sys_fstatat ops os (a ! 0) (a ! 1) (a ! 2) (a ! 3) (a ! 4)"
| "sys_call ops os Sys_faccessat a = sys_faccessat ops os (a ! 0) (a ! 1) (a ! 2) (a ! 3)"
| "sys_call ops os Sys_fcntl a = sys_fcntl os (a ! 0) (a ! 1) (a ! 2)"
| "sys_call ops os Sys_ftruncate a = sys_ftruncate os (a ! 0) (a ! 1)"
| "sys_call ops os Sys_renameat a = sys_renameat ops os (a ! 0) (a ! 1) (a ! 2) (a ! 3) (a ! 4) (a ! 5)"
| "sys_call ops os Sys_linkat a = sys_linkat ops os (a ! 0) (a ! 1) (a ! 2) (a ! 3) (a ! 4) (a ! 5) (a ! 6)"
| "sys_call ops os Sys_unlinkat a = sys_unlinkat ops os (a ! 0) (a ! 1) (a ! 2) (a ! 3)"
| "sys_call ops os Sys_mkdirat a = sys_mkdirat ops os (a ! 0) (a ! 1) (a ! 2) (a ! 3)"
| "sys_call ops os Sys_getcwd a = sys_getcwd ops os (a ! 0) (a ! 1)"
| "sys_call ops os Sys_getmainvars a = sys_getmainvars ops (a ! 0) (a ! 1)"
| "sys_call ops os Sys_chdir a = sys_chdir ops os (a ! 0)"

text \<open>The frame: eight words in target memory.\<close>

fun dwords :: "u8 list \<Rightarrow> u64 list" where
  "dwords (a # b # c # d # e # f # g # h # bs) = le_word [a, b, c, d, e, f, g, h] # dwords bs"
| "dwords _ = []"

definition dispatch :: "'m chunked_memif \<Rightarrow> 'o posix \<Rightarrow> u64 \<Rightarrow> (('m, 'o, 'z) proxy_scheme, unit) M" where
  "dispatch ops os mm =
     bindM (mem_read ops mm 64) (\<lambda>frame.
     let magicmem = dwords frame; n = magicmem ! 0 in
     bindM (getM (\<lambda>s. table (syscall_proxy s))) (\<lambda>table.
     case (if length table \<le> unat n then None else table ! unat n) of
       None \<Rightarrow> throw (Runtime_error (''bad syscall #'' @ to_string (unat n)))
     | Some f \<Rightarrow>
         bindM (sys_call ops os f (tl magicmem)) (\<lambda>r.
         mem_write ops mm (concat (map le_bytes (magicmem[0 := r]))))))"

definition exit_code :: "('m, 'o, 'z) proxy_scheme \<Rightarrow> i32" where
  "exit_code s = signed_drop_bit 1 (exitcode s)"

text \<open>\<^verbatim>\<open>std::to_string\<close> and stream output of a signed integer.\<close>

definition show_int :: "int \<Rightarrow> string" where
  "show_int i = (if i < 0 then ''-'' @ to_string (nat (- i)) else to_string (nat i))"

definition handle_syscall ::
  "'m chunked_memif \<Rightarrow> 'o posix \<Rightarrow> command_t \<Rightarrow> (('m, 'o, 'z) proxy_scheme, unit) M" where
  "handle_syscall ops os cmd =
     (if cmd_payload cmd AND 1 \<noteq> 0 then
        bindM (modifyM (\<lambda>s. s\<lparr>exitcode := ucast (cmd_payload cmd)\<rparr>)) (\<lambda>_.
        bindM (getM exit_code) (\<lambda>code.
        if code \<noteq> 0 then
          modifyM (\<lambda>s. s\<lparr>host := os_stderr os (''*** FAILED *** (tohost = '' @ show_int (sint code) @ '')'' @ newline)
            (host s)\<rparr>)
        else return ()))
      else bindM (dispatch ops os (cmd_payload cmd)) (\<lambda>_. respond cmd 1))"

section \<open>Construction\<close>

definition syscall_table :: "sysfn option list" where
  "syscall_table = (replicate 2048 None)
     [17 := Some Sys_getcwd, 25 := Some Sys_fcntl, 34 := Some Sys_mkdirat, 35 := Some Sys_unlinkat,
      37 := Some Sys_linkat, 38 := Some Sys_renameat, 46 := Some Sys_ftruncate,
      48 := Some Sys_faccessat, 49 := Some Sys_chdir, 56 := Some Sys_openat, 57 := Some Sys_close,
      62 := Some Sys_lseek, 63 := Some Sys_read, 64 := Some Sys_write, 67 := Some Sys_pread,
      68 := Some Sys_pwrite, 79 := Some Sys_fstatat, 80 := Some Sys_fstat, 93 := Some Sys_exit,
      1039 := Some Sys_lstat, 2011 := Some Sys_getmainvars]"

definition syscall_new :: "'o posix \<Rightarrow> ('o, syscall_t) M" where
  "syscall_new os =
     bindM (build_device (bindM device_ctor (\<lambda>_. register_command 0 Syscall_handle ''syscall''))) (\<lambda>d.
     bindM (total (os_dup os 0)) (\<lambda>stdin_fd.
     bindM (total (os_dup os 1)) (\<lambda>stdout_fd0.
     bindM (total (os_dup os 1)) (\<lambda>stdout_fd1.
     if sint stdin_fd < 0 \<or> sint stdout_fd0 < 0 \<or> sint stdout_fd1 < 0 then
       throw (Runtime_error ''could not dup stdin/stdout'')
     else
       let (_, l) = fds_alloc stdin_fd [];
           (_, l) = fds_alloc stdout_fd0 l;
           (_, l) = fds_alloc stdout_fd1 l in
       return \<lparr>sc_device = d, table = syscall_table, fds = l, chroot = []\<rparr>))))"

definition syscall_identity :: string where "syscall_identity = ''syscall_proxy''"

definition path_max :: nat where "path_max = 4096"

text \<open>
  The stack buffers of \<^verbatim>\<open>getcwd\<close> are uninitialised in the code, zero here: only what the call
  stores in them is read.
\<close>

definition set_chroot :: "'o posix \<Rightarrow> cstring \<Rightarrow> (('m, 'o, 'z) proxy_scheme, unit) M" where
  "set_chroot os path =
     (let fail = bindM (modifyM (\<lambda>s. s\<lparr>host := os_stderr os (''could not chroot to '' @ unstr path @ newline) (host s)\<rparr>))
                   (\<lambda>_. throw (Exit_process (-1))) in
      bindM (call (os_getcwd os (replicate path_max 0))) (\<lambda>(ok, buf1).
      if \<not> ok then fail else
      bindM (call (os_chdir os path)) (\<lambda>r.
      if r \<noteq> 0 then fail else
      bindM (call (os_getcwd os (replicate path_max 0))) (\<lambda>(ok, buf2).
      if \<not> ok then fail else
      bindM (liftE (cstr buf1)) (\<lambda>cwd.
      bindM (call (os_chdir os cwd)) (\<lambda>r.
      if r \<noteq> 0 then fail else
      bindM (liftE (cstr buf2)) (\<lambda>new_root.
      update_syscall (\<lambda>p. p\<lparr>chroot := new_root\<rparr>))))))))"

section \<open>Paths under the emulated root\<close>

lemma undo_do_chroot:
  assumes "root \<noteq> []" "last root \<noteq> slash" "fn = slash # fn'"
  shows "undo_chroot root (do_chroot root fn) = fn"
  using assms by (simp add: do_chroot_def undo_chroot_def char_at_def nth_append)

text \<open>What the target sees as its current directory is absolute.\<close>

lemma undo_chroot_absolute:
  assumes "hd fn = slash" "fn \<noteq> []" "root = [] \<or> hd root = slash"
  shows "\<exists>fn'. undo_chroot root fn = slash # fn'"
proof (cases "root = [] \<or> \<not> (take (length root) fn = root \<and> (last root = slash \<or> char_at fn (length root) = slash))")
  case True
  then show ?thesis using assms by (cases fn) (auto simp: undo_chroot_def)
next
  case False
  then have p: "root \<noteq> []" "take (length root) fn = root"
    "last root = slash \<or> char_at fn (length root) = slash" by auto
  then obtain rest where fn: "fn = root @ rest" by (metis append_take_drop_id)
  show ?thesis
  proof (cases "last root = slash")
    case True
    obtain r where r: "root = r @ [slash]" using True p(1) by (metis append_butlast_last_id)
    then show ?thesis using fn by (simp add: undo_chroot_def)
  next
    case False
    then have "rest \<noteq> [] \<and> hd rest = slash" using p(3) fn
      by (cases rest) (auto simp: char_at_def nth_append slash_def)
    then show ?thesis using False fn p(1) by (cases rest) (auto simp: undo_chroot_def char_at_def nth_append)
  qed
qed

section \<open>Frames\<close>

lemma length_dwords [simp]: "length (dwords bs) = length bs div 8"
  by (induction bs rule: dwords.induct) auto

lemma dwords_bytes: "8 dvd length bs \<Longrightarrow> concat (map le_bytes (dwords bs)) = bs"
proof (induction bs rule: dwords.induct)
  case (1 a b c d e f g h bs)
  have "8 dvd length bs" using "1.prems" by simp presburger
  with "1.IH" show ?case by (simp add: le_bytes_le_word)
qed (simp_all, presburger+)

lemma length_concat_le_bytes [simp]:
  "length (concat (map le_bytes (ws :: u64 list))) = 8 * length ws"
  by (induction ws) auto

lemma bytes_dwords: "dwords (concat (map le_bytes (ws :: u64 list))) = ws"
proof (induction ws)
  case (Cons w ws)
  have "\<exists>a b c d e f g h. le_bytes w = [a, b, c, d, e, f, g, h]" by (simp add: le_bytes_def upt_rec)
  then obtain a b c d e f g h where l: "le_bytes w = [a, b, c, d, e, f, g, h]" by blast
  have "le_word (le_bytes w) = w" by (rule le_word_le_bytes) simp
  with l Cons show ?case by simp
qed simp

lemma call_Some [monad_simps]:
  "call f s = Some (Inr (fst (f (host s)), s\<lparr>host := snd (f (host s))\<rparr>))"
  by (simp add: call_def monad_simps)

lemma fd_of_Some [monad_simps]:
  "fd_of fd s = Some (Inr (fds_lookup fd (fds (syscall_proxy s)), s))"
  by (simp add: fd_of_def monad_simps)

lemma sysret_errno_Some [monad_simps]:
  "sysret_errno os ret s = Some (Inr (if ret = -1 then scast (- os_errno os (host s)) else ret, s))"
  by (simp add: sysret_errno_def monad_simps)

lemma vector_alloc_Some [monad_simps]:
  "unat len < 2 ^ 63 \<Longrightarrow> vector_alloc len s = Some (Inr (replicate (unat len) 0, s))"
  by (simp add: vector_alloc_def monad_simps)

lemma update_syscall_Some [monad_simps]:
  "update_syscall f s = Some (Inr ((), s\<lparr>syscall_proxy := f (syscall_proxy s)\<rparr>))"
  by (simp add: update_syscall_def monad_simps)

context chunk_provider
begin

lemma read_name_OK:
  assumes "invar (chunks s)" "unat n < 2 ^ 63" "\<forall>i<unat n. valid (a + of_nat i)"
  shows "\<exists>m. read_name c a n s = Some (Inr (load (mem (chunks s)) a (unat n), s\<lparr>chunks := m\<rparr>))
    \<and> invar m \<and> mem m = mem (chunks s)"
  using mem_read_OK [OF assms(1,3)] assms(2) by (simp add: read_name_def monad_simps)

text \<open>A dispatched call leaves the frame with its first word replaced by the result.\<close>

lemma dispatch_result:
  fixes s :: "('a, 'o, 'z) proxy_scheme" and mm :: u64
  defines "frame \<equiv> load (mem (chunks s)) mm 64"
  assumes s: "invar (chunks s)" and v: "\<forall>i<64. valid (mm + of_nat i)"
    and n: "n = dwords frame ! 0" "unat n < length (table (syscall_proxy s))"
      "table (syscall_proxy s) ! unat n = Some f"
    and run: "\<And>m. invar m \<Longrightarrow> mem m = mem (chunks s) \<Longrightarrow>
      \<exists>s'. sys_call c os f (tl (dwords frame)) (s\<lparr>chunks := m\<rparr>) = Some (Inr (r, s')) \<and> invar (chunks s') \<and> Q s'"
  shows "\<exists>s' m. dispatch c os mm s = Some (Inr ((), s'\<lparr>chunks := m\<rparr>)) \<and> Q s' \<and> invar m
    \<and> mem m = store (mem (chunks s')) mm (le_bytes r @ drop 8 frame)"
proof -
  obtain m where m: "mem_read c mm 64 s = Some (Inr (frame, s\<lparr>chunks := m\<rparr>))" "invar m"
    "mem m = mem (chunks s)" using mem_read_OK [OF s v] unfolding frame_def by auto
  obtain s' where s': "sys_call c os f (tl (dwords frame)) (s\<lparr>chunks := m\<rparr>) = Some (Inr (r, s'))"
    "invar (chunks s')" "Q s'" using run [OF m(2,3)] by blast
  have len: "length frame = 64" by (simp add: frame_def)
  then obtain w ws where ws: "dwords frame = w # ws" by (cases "dwords frame") (auto dest: arg_cong [of _ _ length])
  have "concat (map le_bytes (dwords frame)) = frame" using len by (intro dwords_bytes) simp
  then have "concat (map le_bytes ws) = drop 8 frame" unfolding ws
    by (auto simp del: length_concat_le_bytes)
  then have b: "concat (map le_bytes ((dwords frame)[0 := r])) = le_bytes r @ drop 8 frame" by (simp add: ws)
  obtain m' where m': "mem_write c mm (le_bytes r @ drop 8 frame) s' = Some (Inr ((), s'\<lparr>chunks := m'\<rparr>))"
    "invar m'" "mem m' = store (mem (chunks s')) mm (le_bytes r @ drop 8 frame)"
    using mem_write_OK [OF s'(2), of "le_bytes r @ drop 8 frame" mm] v len by auto
  have "dispatch c os mm s = Some (Inr ((), s'\<lparr>chunks := m'\<rparr>))"
    using m s' m' n unfolding dispatch_def Let_def
    by (simp add: monad_simps b not_le [symmetric])
  then show ?thesis using s' m' by blast
qed

end
section \<open>Data transfer\<close>

context chunk_provider
begin

lemma read_result:
  fixes s :: "('a, 'o, 'z) proxy_scheme"
  assumes s: "invar (chunks s)" and len: "unat n < 2 ^ 63"
    and os: "os_read os (fds_lookup fd (fds (syscall_proxy s))) (replicate (unat n) 0) (host s) = ((ret, buf), h)"
    and buf: "length buf = unat n" "unat ret \<le> unat n" and pos: "0 < sint ret"
    and v: "\<forall>i<unat ret. valid (pbuf + of_nat i)"
  shows "\<exists>m. sys_read c os fd pbuf n s = Some (Inr (ret, s\<lparr>host := h, chunks := m\<rparr>)) \<and> invar m
    \<and> mem m = store (mem (chunks s)) pbuf (take (unat ret) buf)"
proof -
  have "ret \<noteq> -1" using pos by auto
  moreover obtain m where "mem_write c pbuf (take (unat ret) buf) (s\<lparr>host := h\<rparr>)
      = Some (Inr ((), s\<lparr>host := h, chunks := m\<rparr>))" "invar m"
    "mem m = store (mem (chunks s)) pbuf (take (unat ret) buf)"
    using mem_write_OK [of "s\<lparr>host := h\<rparr>" "take (unat ret) buf" pbuf] s v buf len by auto
  ultimately show ?thesis using len os buf pos
    by (intro exI [of _ m]) (simp add: sys_read_def monad_simps put_result_def)
qed

lemma read_no_data:
  fixes s :: "('a, 'o, 'z) proxy_scheme"
  assumes "unat n < 2 ^ 63"
    and "os_read os (fds_lookup fd (fds (syscall_proxy s))) (replicate (unat n) 0) (host s) = ((ret, buf), h)"
    and "sint ret \<le> 0"
  shows "sys_read c os fd pbuf n s =
    Some (Inr (if ret = -1 then scast (- os_errno os h) else ret, s\<lparr>host := h\<rparr>))"
  using assms by (simp add: sys_read_def monad_simps put_result_def)

lemma write_result:
  fixes s :: "('a, 'o, 'z) proxy_scheme"
  assumes s: "invar (chunks s)" and len: "unat n < 2 ^ 63" and v: "\<forall>i<unat n. valid (pbuf + of_nat i)"
    and os: "os_write os (fds_lookup fd (fds (syscall_proxy s))) (load (mem (chunks s)) pbuf (unat n)) (host s) = (ret, h)"
  shows "\<exists>m. sys_write c os fd pbuf n s =
      Some (Inr (if ret = -1 then scast (- os_errno os h) else ret, s\<lparr>chunks := m, host := h\<rparr>))
    \<and> invar m \<and> mem m = mem (chunks s)"
proof -
  obtain m where "read_name c pbuf n s = Some (Inr (load (mem (chunks s)) pbuf (unat n), s\<lparr>chunks := m\<rparr>))"
    "invar m" "mem m = mem (chunks s)" using read_name_OK [OF s len v] by blast
  then show ?thesis using os
    by (intro exI [of _ m]) (simp add: sys_write_def monad_simps)
qed

end

section \<open>Status structures\<close>

lemma scast_minus_1: "(scast (r :: i32) :: u64) = -1 \<longleftrightarrow> r = -1"
proof
  assume "(scast r :: u64) = -1"
  then have "(ucast (scast r :: u64) :: i32) = ucast (-1 :: u64)" by simp
  moreover have "(ucast (scast r :: u64) :: i32) = r" by (rule bit_word_eqI) (auto simp: bit_simps)
  moreover have "(ucast (-1 :: u64) :: i32) = -1" by (rule bit_word_eqI) (auto simp: bit_simps)
  ultimately show "r = -1" by simp
qed simp

lemma length_riscv_stat_bytes [simp]: "length (riscv_stat_bytes r) = 128"
  by (simp add: riscv_stat_bytes_def)

context chunk_provider
begin

text \<open>The two outcomes of \<^verbatim>\<open>fstat\<close>. The second one is not what the call means to do.\<close>

lemma fstat_result:
  fixes s :: "('a, 'o, 'z) proxy_scheme"
  assumes s: "invar (chunks s)" and v: "\<forall>i<128. valid (pbuf + of_nat i)"
    and os: "os_fstat os (fds_lookup fd (fds (syscall_proxy s))) (host s) = ((r, st), h)"
    and ret: "ret = (if r = -1 then scast (- os_errno os h) else scast r)"
    and eperm: "r = -1 \<Longrightarrow> os_errno os h \<noteq> 1"
  shows "\<exists>m. sys_fstat c os fd pbuf s = Some (Inr (ret, s\<lparr>host := h, chunks := m\<rparr>)) \<and> invar m
    \<and> mem m = store (mem (chunks s)) pbuf (riscv_stat_bytes (riscv_stat_of st))"
proof -
  obtain m where "mem_write c pbuf (riscv_stat_bytes (riscv_stat_of st)) (s\<lparr>host := h\<rparr>)
      = Some (Inr ((), s\<lparr>host := h, chunks := m\<rparr>))" "invar m"
    "mem m = store (mem (chunks s)) pbuf (riscv_stat_bytes (riscv_stat_of st))"
    using mem_write_OK [of "s\<lparr>host := h\<rparr>" "riscv_stat_bytes (riscv_stat_of st)" pbuf] s v by auto
  then show ?thesis using os eperm ret
    by (intro exI [of _ m]) (auto simp: sys_fstat_def monad_simps put_stat_def scast_minus_1)
qed

end
section \<open>The argument vector\<close>

lemma arg_words_Cons:
  "arg_words pbuf sz (a # args) = ((of_nat sz + pbuf) # fst (arg_words pbuf (sz + length a + 1) args),
     snd (arg_words pbuf (sz + length a + 1) args))"
  by (simp split: prod.split)

declare arg_words.simps(2) [simp del]
declare arg_words_Cons [simp]

lemma snd_arg_words: "snd (arg_words pbuf sz args) = sz + length (concat (map (\<lambda>a. a @ [0]) args))"
  by (induction args arbitrary: sz) auto

lemma length_arg_words [simp]: "length (fst (arg_words pbuf sz args)) = length args"
  by (induction args arbitrary: sz) auto

text \<open>The address of an argument is that of the bytes before it.\<close>

lemma nth_arg_words:
  "i < length args \<Longrightarrow> fst (arg_words pbuf sz args) ! i =
     pbuf + of_nat (sz + length (concat (map (\<lambda>a. a @ [0]) (take i args))))"
proof (induction args arbitrary: i sz)
  case (Cons a args)
  show ?case
  proof (cases i)
    case (Suc j)
    then show ?thesis using Cons.prems Cons.IH [of j "sz + length a + 1"]
      by (simp add: add.commute add.left_commute)
  qed (simp add: add.commute)
qed simp

lemma copy_args_result:
  assumes "\<forall>a \<in> set args. 0 \<notin> set a" "length pre = sz"
    "length rest = length (concat (map (\<lambda>a. a @ [0]) args))" "length pre + length rest < 2 ^ 64"
  shows "copy_args pbuf (zip (fst (arg_words pbuf sz args)) args) (pre @ rest) =
    Inr (pre @ concat (map (\<lambda>a. a @ [0]) args))"
  using assms
proof (induction args arbitrary: pre sz rest)
  case (Cons a args)
  have a: "takeWhile (\<lambda>c. c \<noteq> 0) a = a" using Cons.prems(1) by (auto simp: takeWhile_eq_all_conv)
  let ?sz = "sz + length a + 1"
  have sz: "unat (of_nat sz :: u64) = sz" using Cons.prems by (intro unat_of_nat64) simp
  have "patch sz (a @ [0]) (pre @ rest) = Inr ((pre @ a @ [0]) @ drop (length a + 1) rest)"
    using Cons.prems by (simp add: patch_def)
  moreover have "copy_args pbuf (zip (fst (arg_words pbuf ?sz args)) args)
      ((pre @ a @ [0]) @ drop (length a + 1) rest)
    = Inr ((pre @ a @ [0]) @ concat (map (\<lambda>a. a @ [0]) args))"
    using Cons.prems by (intro Cons.IH) auto
  ultimately show ?case using a sz by (simp del: takeWhile_eq_all_conv)
qed simp

definition main_words :: "u64 \<Rightarrow> cstring list \<Rightarrow> u64 list" where
  "main_words pbuf args = of_nat (length args) # fst (arg_words pbuf ((length args + 3) * 8) args) @ [0, 0]"

definition main_block :: "u64 \<Rightarrow> cstring list \<Rightarrow> u8 list" where
  "main_block pbuf args = concat (map le_bytes (main_words pbuf args)) @ concat (map (\<lambda>a. a @ [0]) args)"

lemma length_main_words: "length (main_words pbuf args) = length args + 3"
  by (simp add: main_words_def)

text \<open>Where things stand in the block.\<close>

lemma load_concat:
  assumes "length (xs @ ys @ zs) \<le> 2 ^ 64"
  shows "load (store m a (xs @ ys @ zs)) (a + of_nat (length xs)) (length ys) = ys"
proof (rule nth_equalityI)
  fix i assume "i < length (load (store m a (xs @ ys @ zs)) (a + of_nat (length xs)) (length ys))"
  then have i: "i < length ys" by simp
  then have "store m a (xs @ ys @ zs) (a + of_nat (length xs + i)) = (xs @ ys @ zs) ! (length xs + i)"
    using assms by (intro store_inside) auto
  then show "load (store m a (xs @ ys @ zs)) (a + of_nat (length xs)) (length ys) ! i = ys ! i"
    using i by (simp add: nth_append add.assoc)
qed simp

lemma main_block_word:
  assumes "i < length args + 3" "length (main_block pbuf args) \<le> 2 ^ 64"
  shows "load (store m pbuf (main_block pbuf args)) (pbuf + of_nat (8 * i)) 8
    = le_bytes (main_words pbuf args ! i)"
proof -
  let ?ws = "main_words pbuf args"
  define pre where "pre = concat (map le_bytes (take i ?ws))"
  have "i < length ?ws" using assms(1) by (simp add: length_main_words)
  then have "concat (map le_bytes ?ws) = pre @ le_bytes (?ws ! i) @ concat (map le_bytes (drop (Suc i) ?ws))"
    unfolding pre_def using arg_cong [OF id_take_nth_drop, of i ?ws "\<lambda>ws. concat (map le_bytes ws)"] by simp
  then have block: "main_block pbuf args = pre @ le_bytes (?ws ! i)
      @ (concat (map le_bytes (drop (Suc i) ?ws)) @ concat (map (\<lambda>a. a @ [0]) args))"
    by (simp add: main_block_def)
  have "length pre = 8 * i" using assms(1) by (simp add: pre_def length_main_words)
  moreover have "load (store m pbuf (main_block pbuf args)) (pbuf + of_nat (length pre)) (length (le_bytes (?ws ! i)))
    = le_bytes (?ws ! i)"
    using assms(2) unfolding block by (rule load_concat)
  ultimately show ?thesis by simp
qed

lemma main_block_arg:
  assumes "i < length args" "length (main_block pbuf args) \<le> 2 ^ 64"
  shows "load (store m pbuf (main_block pbuf args)) (main_words pbuf args ! (i + 1)) (length (args ! i) + 1)
    = args ! i @ [0]"
proof -
  define strs where "strs as = concat (map (\<lambda>a :: cstring. a @ [0]) as)" for as
  define pre where "pre = concat (map le_bytes (main_words pbuf args)) @ strs (take i args)"
  have "strs args = strs (take i args) @ (args ! i @ [0]) @ strs (drop (Suc i) args)"
    unfolding strs_def using arg_cong [OF id_take_nth_drop [OF assms(1)], of "\<lambda>as. concat (map (\<lambda>a. a @ [0]) as)"]
    by simp
  then have block: "main_block pbuf args = pre @ (args ! i @ [0]) @ strs (drop (Suc i) args)"
    by (simp add: main_block_def pre_def flip: strs_def)
  have "length pre = (length args + 3) * 8 + length (strs (take i args))"
    by (simp add: pre_def length_main_words)
  then have "main_words pbuf args ! (i + 1) = pbuf + of_nat (length pre)"
    using assms(1) by (simp add: main_words_def nth_append nth_arg_words strs_def)
  moreover have "load (store m pbuf (main_block pbuf args)) (pbuf + of_nat (length pre)) (length (args ! i @ [0]))
    = args ! i @ [0]"
    using assms(2) unfolding block by (rule load_concat)
  ultimately show ?thesis by simp
qed

context chunk_provider
begin

lemma getmainvars_result:
  fixes s :: "('a, 'o, 'z) proxy_scheme"
  assumes s: "invar (chunks s)" and nul: "\<forall>a \<in> set (targs s). 0 \<notin> set a"
    and len: "length (main_block pbuf (targs s)) < 2 ^ 63"
    and limit: "length (main_block pbuf (targs s)) \<le> unat limit"
    and v: "\<forall>i<length (main_block pbuf (targs s)). valid (pbuf + of_nat i)"
  shows "\<exists>m. sys_getmainvars c pbuf limit s = Some (Inr (0, s\<lparr>chunks := m\<rparr>)) \<and> invar m
    \<and> mem m = store (mem (chunks s)) pbuf (main_block pbuf (targs s))"
proof -
  let ?args = "targs s"
  let ?h = "(length ?args + 3) * 8" and ?ws = "concat (map le_bytes (main_words pbuf ?args))"
  let ?strs = "concat (map (\<lambda>a. a @ [0]) ?args)"
  obtain ptrs sz where p: "arg_words pbuf ?h ?args = (ptrs, sz)" by fastforce
  then have sz: "sz = ?h + length ?strs" "ptrs = fst (arg_words pbuf ?h ?args)"
    using snd_arg_words [of pbuf ?h ?args] by simp_all
  have ws: "of_nat (length ?args) # ptrs @ [0, 0] = main_words pbuf ?args" by (simp add: main_words_def sz)
  have lws: "length ?ws = ?h" by (simp add: length_main_words)
  have block: "length (main_block pbuf ?args) = sz" by (simp add: main_block_def length_main_words sz)
  then have usz: "unat (of_nat sz :: u64) = sz" using len by (intro unat_of_nat64) simp
  have pt: "patch 0 ?ws (replicate sz 0) = Inr (?ws @ replicate (length ?strs) 0)"
    using lws sz by (simp add: patch_def)
  have "copy_args pbuf (zip ptrs ?args) (?ws @ replicate (length ?strs) 0) = Inr (main_block pbuf ?args)"
    unfolding sz main_block_def using nul lws len block sz by (intro copy_args_result) auto
  moreover obtain m where "mem_write c pbuf (main_block pbuf ?args) s = Some (Inr ((), s\<lparr>chunks := m\<rparr>))"
    "invar m" "mem m = store (mem (chunks s)) pbuf (main_block pbuf ?args)"
    using mem_write_OK [OF s, of "main_block pbuf ?args" pbuf] len v by auto
  ultimately show ?thesis using p pt usz len block limit
    unfolding sys_getmainvars_def bindM_apply Let_def p prod.case ws
    by (intro exI [of _ m]) (simp add: monad_simps)
qed

end
section \<open>Names in target memory\<close>

lemma load_nth: "load m a n = bs \<Longrightarrow> i < n \<Longrightarrow> m (a + of_nat i) = bs ! i"
  by (auto simp: nth_load)

context chunk_provider
begin

lemma get_byte_OK:
  assumes "invar (chunks s)" "valid a"
  shows "\<exists>m. get_byte c a s = Some (Inr (mem (chunks s) a, s\<lparr>chunks := m\<rparr>)) \<and> invar m
    \<and> mem m = mem (chunks s)"
proof -
  obtain m where m: "memif_read c a 1 (chunks s) = Some (Inr (load (mem (chunks s)) a 1, m))"
    "invar m" "mem m = mem (chunks s)" using read_correct [of "chunks s" 1 a] assms by auto
  have "load (mem (chunks s)) a 1 = [mem (chunks s) a]" by (simp add: load_def)
  moreover have "(le_word [b] :: u8) = b" for b by (simp add: le_word.simps)
  ultimately have "read_uint8 c a (chunks s) = Some (Inr (mem (chunks s) a, m))"
    using m by (simp add: read_uint8_def memif_read_val_def monad_simps)
  then show ?thesis using m by (intro exI [of _ m]) (simp add: get_byte_def monad_simps)
qed

lemma name_size_OK:
  assumes "invar (chunks s)" "\<forall>i<length name + 1. valid (path + of_nat i)" "0 \<notin> set name"
    "load (mem (chunks s)) path (length name + 1) = name @ [0]" "j \<le> length name"
  shows "\<exists>m. name_size c path (of_nat j) s = Some (Inr (of_nat (length name + 1), s\<lparr>chunks := m\<rparr>))
    \<and> invar m \<and> mem m = mem (chunks s)"
  using assms
proof (induction "length name - j" arbitrary: j s)
  case 0
  then have j: "j = length name" by simp
  have "mem (chunks s) (path + of_nat j) = (name @ [0]) ! j"
    using load_nth [OF "0.prems"(4)] j by simp
  moreover have "valid (path + of_nat j)" using 0 j by simp
  ultimately show ?case using get_byte_OK [OF "0.prems"(1), of "path + of_nat j"] j
    by (subst name_size.simps) (auto simp: monad_simps nth_append add.commute)
next
  case (Suc n)
  then have j: "j < length name" and n: "n = length name - Suc j" by simp_all
  have "mem (chunks s) (path + of_nat j) = (name @ [0]) ! j"
    using load_nth [OF Suc.prems(4)] j by simp
  then have b: "mem (chunks s) (path + of_nat j) \<noteq> 0" using j Suc.prems(3) by (auto simp: nth_append in_set_conv_nth)
  have "valid (path + of_nat j)" using Suc.prems(2) j by simp
  then obtain m where m: "get_byte c (path + of_nat j) s
      = Some (Inr (mem (chunks s) (path + of_nat j), s\<lparr>chunks := m\<rparr>))" "invar m" "mem m = mem (chunks s)"
    using get_byte_OK [OF Suc.prems(1)] by blast
  obtain m' where "name_size c path (of_nat (Suc j)) (s\<lparr>chunks := m\<rparr>)
      = Some (Inr (of_nat (length name + 1), s\<lparr>chunks := m'\<rparr>))" "invar m'" "mem m' = mem (chunks s)"
    using Suc.hyps(1) [OF n, of "s\<lparr>chunks := m\<rparr>"] Suc.prems j m by auto
  then show ?case using m b
    by (intro exI [of _ m']) (subst name_size.simps, simp add: monad_simps add.commute)
qed

lemma copy_name_OK:
  assumes "invar (chunks s)" "\<forall>i<length name + 1. valid (path + of_nat i)" "0 \<notin> set name"
    "load (mem (chunks s)) path (length name + 1) = name @ [0]" "j \<le> length name"
    "length buf = length name + 1" "take j buf = take j name"
  shows "\<exists>m. copy_name c path j buf s = Some (Inr (name @ [0], s\<lparr>chunks := m\<rparr>))
    \<and> invar m \<and> mem m = mem (chunks s)"
  using assms
proof (induction "length name - j" arbitrary: j s buf)
  case 0
  then have j: "j = length name" by simp
  have b: "mem (chunks s) (path + of_nat j) = (name @ [0]) ! j"
    using load_nth [OF "0.prems"(4)] j by simp
  have "buf = name @ [last buf]"
    using "0.prems"(6,7) j by (cases buf rule: rev_cases) auto
  then have "buf[j := 0] = name @ [0]" using j by (metis list_update_length)
  moreover have "valid (path + of_nat j)" using 0 j by simp
  ultimately show ?case using get_byte_OK [OF "0.prems"(1), of "path + of_nat j"] j b "0.prems"(6)
    by (subst copy_name.simps) (auto simp: monad_simps nth_append)
next
  case (Suc n)
  then have j: "j < length name" and n: "n = length name - Suc j" by simp_all
  have mk: "mem (chunks s) (path + of_nat j) = name ! j"
    using load_nth [OF Suc.prems(4), of j] j by (simp add: nth_append)
  then have b: "mem (chunks s) (path + of_nat j) \<noteq> 0" using j Suc.prems(3) by (auto simp: in_set_conv_nth)
  have "valid (path + of_nat j)" using Suc.prems(2) j by simp
  then obtain m where m: "get_byte c (path + of_nat j) s
      = Some (Inr (mem (chunks s) (path + of_nat j), s\<lparr>chunks := m\<rparr>))" "invar m" "mem m = mem (chunks s)"
    using get_byte_OK [OF Suc.prems(1)] by blast
  have "take (Suc j) (buf[j := name ! j]) = take (Suc j) name"
    using j Suc.prems(6,7) by (simp add: take_Suc_conv_app_nth)
  then obtain m' where "copy_name c path (Suc j) (buf[j := name ! j]) (s\<lparr>chunks := m\<rparr>)
      = Some (Inr (name @ [0], s\<lparr>chunks := m'\<rparr>))" "invar m'" "mem m' = mem (chunks s)"
    using Suc.hyps(1) [OF n, of "s\<lparr>chunks := m\<rparr>" "buf[j := name ! j]"] Suc.prems j m by auto
  then show ?case using m b mk j Suc.prems(6)
    by (intro exI [of _ m']) (subst copy_name.simps, simp add: monad_simps)
qed

lemma chdir_result:
  fixes s :: "('a, 'o, 'z) proxy_scheme"
  assumes s: "invar (chunks s)" and v: "\<forall>i<length name + 1. valid (path + of_nat i)"
    and name: "0 \<notin> set name" "load (mem (chunks s)) path (length name + 1) = name @ [0]" "length name + 1 < 2 ^ 63"
    and os: "os_chdir os name (host s) = (r, h)"
  shows "\<exists>m. sys_chdir c os path s =
      Some (Inr (if r = -1 then scast (- os_errno os h) else scast r, s\<lparr>chunks := m, host := h\<rparr>))
    \<and> invar m \<and> mem m = mem (chunks s)"
proof -
  obtain m where m: "name_size c path 0 s = Some (Inr (of_nat (length name + 1), s\<lparr>chunks := m\<rparr>))"
    "invar m" "mem m = mem (chunks s)"
    using name_size_OK [where s = s and name = name and path = path and j = 0] s v name(1,2) by auto
  let ?n = "of_nat (length name + 1) :: u64"
  have n: "unat ?n = length name + 1" using name(3) by (intro unat_of_nat64) simp
  obtain m' where m': "copy_name c path 0 (replicate (length name + 1) 0) (s\<lparr>chunks := m\<rparr>)
      = Some (Inr (name @ [0], s\<lparr>chunks := m'\<rparr>))" "invar m'" "mem m' = mem (chunks s)"
    using copy_name_OK [of "s\<lparr>chunks := m\<rparr>" name path 0 "replicate (length name + 1) 0"] m v name by auto
  have "vector_alloc ?n (s\<lparr>chunks := m\<rparr>) = Some (Inr (replicate (length name + 1) 0, s\<lparr>chunks := m\<rparr>))"
    using n name(3) by (simp add: vector_alloc_def monad_simps del: replicate.simps of_nat_Suc of_nat_add)
  then show ?thesis using m(1) m' os cstr_append_NUL [of name "[]"] name(1)
    unfolding sys_chdir_def
    by (intro exI [of _ m']) (simp add: monad_simps scast_minus_1 del: replicate.simps of_nat_Suc of_nat_add)
qed


end
section \<open>Opening files\<close>

context chunk_provider
begin

lemma openat_result:
  fixes s :: "('a, 'o, 'z) proxy_scheme"
  assumes s: "invar (chunks s)" and len: "unat n < 2 ^ 63" and v: "\<forall>i<unat n. valid (pname + of_nat i)"
    and name: "cstr (load (mem (chunks s)) pname (unat n)) = Inr name"
      "hname = (if (ucast dirfd :: i32) = riscv_at_fdcwd then do_chroot (chroot (syscall_proxy s)) name else name)"
    and os: "os_openat os (fds_lookup dirfd (fds (syscall_proxy s))) hname (ucast flags) (ucast mode) (host s) = (hfd, h)"
    and ok: "0 \<le> sint hfd" and room: "fd_room (fds (syscall_proxy s))"
  shows "\<exists>m i l. sys_openat c os dirfd pname n flags mode s = Some (Inr (i, s\<lparr>chunks := m, host := h,
      syscall_proxy := (syscall_proxy s)\<lparr>fds := l\<rparr>\<rparr>)) \<and> invar m \<and> mem m = mem (chunks s)
    \<and> fd_view (fds (syscall_proxy s)) i = None \<and> fd_view l = (fd_view (fds (syscall_proxy s)))(i \<mapsto> hfd)
    \<and> fds_lookup i l = hfd"
proof -
  obtain m where m: "read_name c pname n s = Some (Inr (load (mem (chunks s)) pname (unat n), s\<lparr>chunks := m\<rparr>))"
    "invar m" "mem m = mem (chunks s)" using read_name_OK [OF s len v] by blast
  have nn: "hfd \<noteq> -1" using ok by auto
  have "(ucast (scast hfd :: u64) :: i32) = hfd" by (rule bit_word_eqI) (auto simp: bit_simps)
  moreover obtain i l where il: "fds_alloc hfd (fds (syscall_proxy s)) = (i, l)" by fastforce
  ultimately have "sys_openat c os dirfd pname n flags mode s = Some (Inr (i, s\<lparr>chunks := m, host := h,
      syscall_proxy := (syscall_proxy s)\<lparr>fds := l\<rparr>\<rparr>))"
    using m name os ok nn
    by (auto simp: sys_openat_def at_name_def monad_simps scast_minus_1)
  then show ?thesis
    using m fds_alloc_view [OF room nn il] fdt.lookup_alloc(1) [OF room nn il] by blast
qed

end

text \<open>Closing a live descriptor forgets it and no other.\<close>

lemma close_result:
  fixes s :: "('m, 'o, 'z) proxy_scheme"
  assumes view: "fd_view (fds (syscall_proxy s)) fd = Some hfd" and ok: "fd_ok (fds (syscall_proxy s))"
    and os: "os_close os hfd (host s) = (r, h)" "0 \<le> sint r"
  shows "\<exists>l. sys_close os fd s = Some (Inr (0, s\<lparr>host := h, syscall_proxy := (syscall_proxy s)\<lparr>fds := l\<rparr>\<rparr>))
    \<and> fd_view l = (fd_view (fds (syscall_proxy s)))(fd := None)"
proof -
  obtain l where "fds_dealloc fd (fds (syscall_proxy s)) = Inr l"
    "fd_view l = (fd_view (fds (syscall_proxy s)))(fd := None)"
    using fdt.dealloc_law [OF view] by blast
  then show ?thesis using fdt.lookup_law [OF ok view] os
    by (auto simp: sys_close_def monad_simps)
qed

section \<open>Exit\<close>

lemma exit_code_31:
  fixes x code :: u64
  assumes "x = push_bit 1 code"
  shows "signed_drop_bit 1 (ucast (x OR 1) :: i32) = scast (ucast code :: 31 word)"
proof (rule bit_word_eqI)
  fix n assume "n < LENGTH(32)"
  then have n: "n < 32" by simp
  have x: "bit x (Suc i) \<longleftrightarrow> bit code i" if "i < 63" for i
    unfolding assms using that by (simp only: bit_push_bit_iff) (auto dest: bit_imp_le_length)
  consider "n < 30" | "n = 30" | "n = 31" using n by linarith
  then show "bit (signed_drop_bit 1 (ucast (x OR 1) :: i32)) n = bit (scast (ucast code :: 31 word) :: i32) n"
    using x [of n] x [of 30] by cases (auto simp: bit_simps)
qed

lemma odd_exit:
  assumes "x AND 1 \<noteq> (0 :: u64)"
  shows "(ucast x :: i32) \<noteq> 0"
proof
  assume "ucast x = (0 :: i32)"
  then have "\<not> bit (ucast x :: i32) 0" by simp
  then have "\<not> bit x 0" by (simp only: bit_unsigned_iff) simp
  then have "x AND 1 = 0"
    by (intro bit_word_eqI) (auto simp: bit_and_iff bit_1_iff simp del: bit_0 intro: gr0I)
  then show False using assms by simp
qed

lemma handle_exit:
  fixes s :: "('m, 'o, 'z) proxy_scheme"
  assumes "cmd_payload cmd AND 1 \<noteq> 0"
  shows "\<exists>h. handle_syscall ops os cmd s = Some (Inr ((), s\<lparr>exitcode := ucast (cmd_payload cmd), host := h\<rparr>))"
  using assms by (auto simp: handle_syscall_def monad_simps intro: exI [of _ "host s"])

lemma sys_exit_result:
  fixes s :: "('m, 'o, 'z) proxy_scheme"
  shows "\<exists>s'. sys_exit code s = Some (Inr (0, s')) \<and> exitcode s' \<noteq> 0
    \<and> exit_code s' = scast (ucast code :: 31 word)"
proof -
  define x where "x = push_bit 1 code"
  have "(x OR 1) AND 1 = 1" by (rule bit_word_eqI) (auto simp: bit_simps)
  then show ?thesis using odd_exit [of "x OR 1"] exit_code_31 [OF x_def]
    unfolding sys_exit_def x_def [symmetric] by (simp add: monad_simps exit_code_def)
qed

section \<open>Unknown calls\<close>

lemma length_syscall_table [simp]: "length syscall_table = 2048"
  by (simp add: syscall_table_def)

context chunk_provider
begin

lemma dispatch_bad:
  fixes s :: "('a, 'o, 'z) proxy_scheme"
  assumes s: "invar (chunks s)" and v: "\<forall>i<64. valid (mm + of_nat i)"
    and n: "n = dwords (load (mem (chunks s)) mm 64) ! 0"
      "length (table (syscall_proxy s)) \<le> unat n \<or> table (syscall_proxy s) ! unat n = None"
  shows "dispatch c os mm s = Some (Inl (Runtime_error (''bad syscall #'' @ to_string (unat n))))"
proof -
  obtain m where "mem_read c mm 64 s = Some (Inr (load (mem (chunks s)) mm 64, s\<lparr>chunks := m\<rparr>))"
    using mem_read_OK [OF s v] by blast
  then show ?thesis using n by (auto simp: dispatch_def monad_simps Let_def)
qed

text \<open>A whole system call, from the command word to the frame and the response: \<^verbatim>\<open>write\<close>.\<close>

lemma write_call:
  fixes s :: "('a, 'o, 'z) proxy_scheme" and cmd :: command_t
  defines "mm \<equiv> cmd_payload cmd" and "frame \<equiv> dwords (load (mem (chunks s)) (cmd_payload cmd) 64)"
  assumes s: "invar (chunks s)" and tab: "table (syscall_proxy s) = syscall_table"
    and cmd: "mm AND 1 = 0" "\<forall>i<64. valid (mm + of_nat i)" and call: "frame ! 0 = 64"
    and len: "unat (frame ! 3) < 2 ^ 63" and v: "\<forall>i<unat (frame ! 3). valid (frame ! 2 + of_nat i)"
    and os: "os_write os (fds_lookup (frame ! 1) (fds (syscall_proxy s)))
      (load (mem (chunks s)) (frame ! 2) (unat (frame ! 3))) (host s) = (ret, h)"
    and r: "r = (if ret = -1 then scast (- os_errno os h) else ret)"
  shows "\<exists>m. handle_syscall c os cmd s = Some (Inr ((), s\<lparr>chunks := m, host := h,
      fromhost_queue := fromhost_queue s @ [response cmd 1]\<rparr>)) \<and> invar m
    \<and> mem m = store (mem (chunks s)) mm (le_bytes r @ drop 8 (load (mem (chunks s)) mm 64))"
proof -
  let ?Q = "\<lambda>s'. \<exists>m. s' = s\<lparr>chunks := m, host := h\<rparr> \<and> mem m = mem (chunks s)"
  have l: "length frame = 8" by (simp add: frame_def)
  have a: "tl frame ! 0 = frame ! 1" "tl frame ! 1 = frame ! 2" "tl frame ! 2 = frame ! 3"
    using l by (simp_all add: nth_tl numeral_eq_Suc)
  have t: "unat (64 :: u64) < length (table (syscall_proxy s))" "table (syscall_proxy s) ! unat (64 :: u64) = Some Sys_write"
    by (simp_all add: tab) (simp add: syscall_table_def)
  have run: "\<exists>s'. sys_call c os Sys_write (tl frame) (s\<lparr>chunks := m\<rparr>) = Some (Inr (r, s')) \<and> invar (chunks s') \<and> ?Q s'"
    if "invar m" "mem m = mem (chunks s)" for m
    using write_result [of "s\<lparr>chunks := m\<rparr>" "frame ! 3" "frame ! 2" os "frame ! 1" ret h] that len v os
    unfolding sys_call.simps a r by auto
  obtain s' m where "dispatch c os mm s = Some (Inr ((), s'\<lparr>chunks := m\<rparr>))" "?Q s'" "invar m"
    "mem m = store (mem (chunks s')) mm (le_bytes r @ drop 8 (load (mem (chunks s)) mm 64))"
    using dispatch_result [OF s cmd(2), where n = 64 and f = Sys_write and os = os and r = r and Q = ?Q] call t run
    unfolding frame_def mm_def by auto
  then show ?thesis using cmd(1) unfolding handle_syscall_def mm_def
    by (intro exI [of _ m]) (auto simp: monad_simps respond_def)
qed

text \<open>The current directory as the target sees it: written with its NUL or refused.\<close>

lemma getcwd_result:
  fixes s :: "('a, 'o, 'z) proxy_scheme"
  assumes s: "invar (chunks s)" and len: "unat n < 2 ^ 63"
    and os: "os_getcwd os (replicate (unat n) 0) (host s) = ((True, buf), h)" "cstr buf = Inr cwd"
    and tmp: "tmp = undo_chroot (chroot (syscall_proxy s)) cwd"
    and v: "\<forall>i<length tmp + 1. valid (pbuf + of_nat i)"
  shows "\<exists>m. invar m \<and> sys_getcwd c os pbuf n s = Some (Inr
      (if unat n \<le> length tmp then - 12 else of_nat (length tmp + 1), s\<lparr>chunks := m, host := h\<rparr>))
    \<and> mem m = (if unat n \<le> length tmp then mem (chunks s) else store (mem (chunks s)) pbuf (tmp @ [0]))"
proof (cases "unat n \<le> length tmp")
  case True
  then show ?thesis using s len os tmp
    by (intro exI [of _ "chunks s"]) (simp add: sys_getcwd_def monad_simps enomem_def)
next
  case False
  obtain m where "mem_write c pbuf (tmp @ [0]) (s\<lparr>host := h\<rparr>) = Some (Inr ((), s\<lparr>host := h, chunks := m\<rparr>))"
    "invar m" "mem m = store (mem (chunks s)) pbuf (tmp @ [0])"
    using mem_write_OK [of "s\<lparr>host := h\<rparr>" "tmp @ [0]" pbuf] s v False len by auto
  then show ?thesis using False len os tmp
    by (intro exI [of _ m]) (simp add: sys_getcwd_def monad_simps)
qed

end

end
