(* ===== verification/Rfb.thy ===== *)
theory Rfb
  imports Device
begin

text \<open>
  The remote frame buffer (\<^verbatim>\<open>rfb.h\<close>, \<^verbatim>\<open>rfb.cc\<close>): a device that copies a frame from target memory,
  256 bytes per tick, into the back one of two buffers, swaps the buffers when the frame is
  complete and then sends an update message to the connected client. The thread that listens
  for a client is in \<open>Rfb_thread\<close>; the messages it builds and checks are here.
\<close>

section \<open>State\<close>

text \<open>
  The pointer \<^verbatim>\<open>memif\<close> is null or the memory interface of the machine, so a boolean stands for
  it; the buffers are \<open>None\<close> before they are allocated. Their initial contents, indeterminate in
  the code, are zero here: \<open>fb1\<close> is only sent after it was filled.
\<close>

record rfb_t =
  rfb_device :: device_t
  afd :: i32
  rfb_memif :: bool
  rfb_addr :: u64
  rfb_width :: u16
  rfb_height :: u16
  rfb_bpp :: u16
  display :: int
  fb1 :: "u8 list option"
  fb2 :: "u8 list option"
  read_pos :: nat

definition fb_align :: nat where "fb_align = 256"

definition fb_bytes :: "rfb_t \<Rightarrow> nat" where
  "fb_bytes r = unat (rfb_width r) * unat (rfb_height r) * unat (rfb_bpp r) div 8"

definition rfb_new :: "int \<Rightarrow> ('s, rfb_t) M" where
  "rfb_new disp =
     bindM (build_device (bindM device_ctor (\<lambda>_.
       bindM (register_command 0 Rfb_configure ''configure'') (\<lambda>_.
       register_command 1 Rfb_set_address ''set_address'')))) (\<lambda>d.
     return \<lparr>rfb_device = d, afd = -1, rfb_memif = False, rfb_addr = 0, rfb_width = 0, rfb_height = 0,
       rfb_bpp = 0, display = disp, fb1 = None, fb2 = None, read_pos = 0\<rparr>)"

text \<open>The destructor waits for the thread, if \<^verbatim>\<open>handle_configure\<close> has created one.\<close>

definition rfb_delete :: "'o posix \<Rightarrow> rfb_t \<Rightarrow> (('m, 'o, 'z) machine_scheme, rfb_t) M" where
  "rfb_delete os r =
     (let r = r\<lparr>rfb_memif := False\<rparr> in
      bindM (if fb1 r \<noteq> None then bindM (on_host (total (os_pthread_join os))) (\<lambda>_. return ()) else return ()) (\<lambda>_.
      return (r\<lparr>fb1 := None, fb2 := None\<rparr>)))"

definition rfb_identity :: string where "rfb_identity = ''rfb''"

section \<open>Commands\<close>

definition handle_configure ::
  "'o posix \<Rightarrow> command_t \<Rightarrow> rfb_t \<Rightarrow> (('m, 'o, 'z) machine_scheme, rfb_t) M" where
  "handle_configure os cmd r =
     (if fb1 r \<noteq> None then throw (Runtime_error ''you must only set the rfb configuration once'')
      else
        let r = r\<lparr>rfb_width := ucast (cmd_payload cmd), rfb_height := ucast (drop_bit 16 (cmd_payload cmd)),
                rfb_bpp := ucast (drop_bit 32 (cmd_payload cmd))\<rparr> in
        if rfb_bpp r \<noteq> 32 then throw (Runtime_error ''rfb requires 32 bpp true color'')
        else if fb_bytes r mod fb_align \<noteq> 0 then
          throw (Runtime_error (''rfb size must be a multiple of '' @ to_string fb_align))
        else
          let r = r\<lparr>fb1 := Some (replicate (fb_bytes r) 0), fb2 := Some (replicate (fb_bytes r) 0)\<rparr> in
          bindM (on_host (total (os_pthread_create os))) (\<lambda>e.
          if e \<noteq> 0 then throw (Runtime_error ''could not create thread'')
          else bindM (respond cmd 1) (\<lambda>_. return r)))"

definition handle_set_address :: "command_t \<Rightarrow> rfb_t \<Rightarrow> (('m, 'o, 'z) machine_scheme, rfb_t) M" where
  "handle_set_address cmd r =
     (let r = r\<lparr>rfb_addr := cmd_payload cmd\<rparr> in
      if rfb_addr r mod of_nat fb_align \<noteq> 0 then
        throw (Runtime_error (''rfb address must be '' @ to_string fb_align @ ''-byte aligned''))
      else bindM (respond cmd 1) (\<lambda>_. return (r\<lparr>rfb_memif := True\<rparr>)))"

section \<open>Messages\<close>

text \<open>Integers in network byte order, as \<^verbatim>\<open>str(htons(x))\<close> and \<^verbatim>\<open>str(htonl(x))\<close> build them.\<close>

definition be_bytes :: "'a::len word \<Rightarrow> u8 list" where
  "be_bytes x = rev (le_bytes x)"

function widen_bpp :: "nat \<Rightarrow> nat" where
  "widen_bpp bpp = (if bpp = 0 \<or> 64 \<le> bpp then bpp
     else if bpp AND (bpp - 1) \<noteq> 0 then widen_bpp (bpp + 1) else bpp)"
  by pat_completeness auto
termination by (relation "measure (\<lambda>bpp. 64 - bpp)") auto

definition pixel_format :: "u8 list" where
  "pixel_format =
     (let red_bits = 8; green_bits = 8; blue_bits = 8 :: nat;
          bpp = widen_bpp (red_bits + green_bits + blue_bits) in
      [of_nat bpp, of_nat (red_bits + green_bits + blue_bits), 0, 1]
      @ be_bytes (push_bit red_bits 1 - 1 :: u16) @ be_bytes (push_bit green_bits 1 - 1 :: u16)
      @ be_bytes (push_bit blue_bits 1 - 1 :: u16)
      @ [of_nat (blue_bits + green_bits), of_nat blue_bits, 0] @ le_bytes (0 :: u16) @ [0])"

definition server_init :: "rfb_t \<Rightarrow> u8 list" where
  "server_init r = be_bytes (rfb_width r) @ be_bytes (rfb_height r) @ pixel_format
     @ be_bytes (of_nat (length ''RISC-V'') :: u32) @ str ''RISC-V''"

definition set_pixel_format :: "u8 list \<Rightarrow> error + unit" where
  "set_pixel_format s = (if length s \<noteq> 20 \<or> take 16 (drop 4 s) \<noteq> pixel_format
     then Inl (Runtime_error ''bad pixel format'') else Inr ())"

definition rfb_write :: "'o posix \<Rightarrow> i32 \<Rightarrow> u8 list \<Rightarrow> ('o, unit) M" where
  "rfb_write os fd s = bindM (total (os_write os fd s)) (\<lambda>n.
     if n \<noteq> of_nat (length s) then throw (Runtime_error ''could not write'') else return ())"

text \<open>\<^verbatim>\<open>rfb_t::read\<close>: a packet of less than 2048 bytes.\<close>

definition rfb_read :: "'o posix \<Rightarrow> i32 \<Rightarrow> ('o, u8 list) M" where
  "rfb_read os fd = bindM (total (os_read os fd (replicate 2048 0))) (\<lambda>(n, buf).
     if sint n < 0 then throw (Runtime_error ''could not read'')
     else if n = 2048 then throw (Runtime_error ''received oversized packet'')
     else return (take (unat n) buf))"

text \<open>The encodings that do not fit the first packet are read and dropped.\<close>

partial_function (option) skip_encodings ::
  "'o posix \<Rightarrow> i32 \<Rightarrow> nat \<Rightarrow> nat \<Rightarrow> 'o \<Rightarrow> (error + unit \<times> 'o) option" where
  "skip_encodings os fd b limit h =
     (if b < limit then
        bindM (rfb_read os fd) (\<lambda>s h. skip_encodings os fd (b + length s) limit h) h
      else return () h)"

definition set_encodings :: "'o posix \<Rightarrow> i32 \<Rightarrow> u8 list \<Rightarrow> ('o, unit) M" where
  "set_encodings os fd s =
     (let n = unat (le_word (rev (take 2 (drop 2 s))) :: u16) in
      skip_encodings os fd (length s) (4 + 4 * n))"

definition update_message :: "rfb_t \<Rightarrow> u8 list \<Rightarrow> u8 list" where
  "update_message r frame = [0, 0] @ be_bytes (1 :: u16) @ be_bytes (0 :: u16) @ be_bytes (0 :: u16)
     @ be_bytes (rfb_width r) @ be_bytes (rfb_height r) @ be_bytes (0 :: u32) @ take (fb_bytes r) frame"

text \<open>The handler in \<^verbatim>\<open>fb_update\<close> drops a failed write, but not what the host did.\<close>

definition fb_update :: "'o posix \<Rightarrow> rfb_t \<Rightarrow> (('m, 'o, 'z) machine_scheme, unit) M" where
  "fb_update os r =
     bindM (on_host (total (os_write os (afd r) (update_message r (the (fb1 r)))))) (\<lambda>_. return ())"

section \<open>Ticks\<close>

definition rfb_tick ::
  "'m chunked_memif \<Rightarrow> 'o posix \<Rightarrow> rfb_t \<Rightarrow> (('m, 'o, 'z) machine_scheme, rfb_t) M" where
  "rfb_tick ops os r =
     (if fb_bytes r = 0 \<or> \<not> rfb_memif r then return r
      else case fb2 r of
        None \<Rightarrow> throw Out_of_bounds
      | Some buf \<Rightarrow>
          if length buf < read_pos r + fb_align then throw Out_of_bounds
          else
            bindM (mem_read ops (rfb_addr r + of_nat (read_pos r)) fb_align) (\<lambda>bytes.
            let r = r\<lparr>fb2 := Some (take (read_pos r) buf @ bytes @ drop (read_pos r + fb_align) buf),
                      read_pos := (read_pos r + fb_align) mod fb_bytes r\<rparr> in
            if read_pos r = 0 then
              let r = r\<lparr>fb1 := fb2 r, fb2 := fb1 r\<rparr> in
              bindM (on_host (total (os_trylock os))) (\<lambda>e.
              bindM (if e = 0 then fb_update os r else return ()) (\<lambda>_.
              return r))
            else return r))"

section \<open>The invariant of the buffers\<close>

definition rfb_invar :: "rfb_t \<Rightarrow> bool" where
  "rfb_invar r \<longleftrightarrow> (fb1 r = None \<longleftrightarrow> fb2 r = None) \<and> fb_align dvd read_pos r \<and>
     (case (fb1 r, fb2 r) of
        (Some a, Some b) \<Rightarrow> length a = fb_bytes r \<and> length b = fb_bytes r \<and> fb_align dvd fb_bytes r
          \<and> (0 < fb_bytes r \<longrightarrow> read_pos r < fb_bytes r) \<and> (fb_bytes r = 0 \<longrightarrow> read_pos r = 0)
      | _ \<Rightarrow> fb_bytes r = 0 \<and> read_pos r = 0)"

lemma widen_bpp_24: "widen_bpp 24 = 32"
  by (simp add: and_nat_unfold)

lemma length_pixel_format: "length pixel_format = 16"
  by (simp add: pixel_format_def be_bytes_def)

lemma rfb_new_invar: "\<exists>r. rfb_new disp s = Some (Inr (r, s)) \<and> rfb_invar r \<and> device_wf (rfb_device r)"
proof -
  obtain d where d: "device_ctor raw_device = Some (Inr ((), d))" "device_wf d"
    using device_ctor_wf by blast
  obtain d1 where d1: "register_command 0 Rfb_configure ''configure'' d = Some (Inr ((), d1))" "device_wf d1"
    using register_command_wf [OF d(2), of 0 "''configure''" Rfb_configure]
    by (auto simp: max_commands_def identity_size_def)
  obtain d2 where d2: "register_command 1 Rfb_set_address ''set_address'' d1 = Some (Inr ((), d2))" "device_wf d2"
    using register_command_wf [OF d1(2), of 1 "''set_address''" Rfb_set_address]
    by (auto simp: max_commands_def identity_size_def)
  have "build_device (bindM device_ctor (\<lambda>_. bindM (register_command 0 Rfb_configure ''configure'') (\<lambda>_.
       register_command 1 Rfb_set_address ''set_address''))) s = Some (Inr (d2, s))"
    using d(1) d1(1) d2(1) by (simp add: build_device_def monad_simps)
  then show ?thesis using d2(2)
    by (simp add: rfb_new_def monad_simps rfb_invar_def fb_bytes_def)
qed

lemma configure_invar:
  assumes "rfb_invar r" "handle_configure os cmd r s = Some (Inr (r', s'))"
  shows "rfb_invar r' \<and> fb_bytes r' mod 256 = 0 \<and> fromhost_queue s' = fromhost_queue s @ [response cmd 1]"
  using assms
  by (auto simp: handle_configure_def Let_def rfb_invar_def monad_simps bindM_eq_OK respond_def fb_align_def
      fb_bytes_def on_host_def zoom_def return_def total_def throw_def modifyM_def
      split: if_splits option.splits prod.splits)

lemma set_address_invar:
  assumes "rfb_invar r" "handle_set_address cmd r s = Some (Inr (r', s'))"
  shows "rfb_invar r'" "rfb_memif r'" "rfb_addr r' = cmd_payload cmd"
  using assms
  by (auto simp: handle_set_address_def Let_def rfb_invar_def monad_simps respond_def fb_align_def
      fb_bytes_def return_def throw_def modifyM_def bindM_eq_OK split: if_splits option.splits)

section \<open>Frames\<close>

fun rfb_ticks :: "'m chunked_memif \<Rightarrow> 'o posix \<Rightarrow> nat \<Rightarrow> rfb_t \<Rightarrow> (('m, 'o, 'z) machine_scheme, rfb_t) M" where
  "rfb_ticks ops os 0 r = return r"
| "rfb_ticks ops os (Suc n) r = bindM (rfb_tick ops os r) (rfb_ticks ops os n)"

context chunk_provider
begin

lemma tick_copies:
  fixes s :: "('a, 'o, 'z) machine_scheme"
  assumes s: "invar (chunks s)" and r: "rfb_memif r" "fb2 r = Some buf" "length buf = fb_bytes r"
    and p: "read_pos r + 256 \<le> fb_bytes r" "take (read_pos r) buf = load (mem (chunks s)) (rfb_addr r) (read_pos r)"
    and v: "\<forall>i<fb_bytes r. valid (rfb_addr r + of_nat i)"
  obtains m buf' where "mem_read c (rfb_addr r + of_nat (read_pos r)) fb_align s
      = Some (Inr (load (mem (chunks s)) (rfb_addr r + of_nat (read_pos r)) 256, s\<lparr>chunks := m\<rparr>))"
    "invar m" "mem m = mem (chunks s)"
    "buf' = take (read_pos r) buf @ load (mem (chunks s)) (rfb_addr r + of_nat (read_pos r)) 256
       @ drop (read_pos r + fb_align) buf"
    "length buf' = fb_bytes r"
    "take (read_pos r + 256) buf' = load (mem (chunks s)) (rfb_addr r) (read_pos r + 256)"
proof -
  have "valid (rfb_addr r + of_nat (read_pos r) + of_nat i)" if "i < 256" for i
  proof -
    have "read_pos r + i < fb_bytes r" using p(1) that by simp
    then have "valid (rfb_addr r + of_nat (read_pos r + i))" using v by blast
    then show ?thesis by (simp add: add.assoc)
  qed
  then obtain m where "mem_read c (rfb_addr r + of_nat (read_pos r)) fb_align s
      = Some (Inr (load (mem (chunks s)) (rfb_addr r + of_nat (read_pos r)) 256, s\<lparr>chunks := m\<rparr>))"
    "invar m" "mem m = mem (chunks s)"
    using mem_read_OK [OF s, of 256 "rfb_addr r + of_nat (read_pos r)"] by (auto simp: fb_align_def)
  then show ?thesis using that r(3) p by (simp add: fb_align_def load_add)
qed

lemma ticks_frame:
  fixes s :: "('a, 'o, 'z) machine_scheme"
  assumes s: "invar (chunks s)" and r: "rfb_memif r" "fb2 r = Some buf" "length buf = fb_bytes r"
    and p: "read_pos r + 256 * n = fb_bytes r" "0 < n"
      "take (read_pos r) buf = load (mem (chunks s)) (rfb_addr r) (read_pos r)"
    and v: "\<forall>i<fb_bytes r. valid (rfb_addr r + of_nat i)"
  shows "\<exists>r' s'. rfb_ticks c os n r s = Some (Inr (r', s')) \<and> invar (chunks s') \<and> mem (chunks s') = mem (chunks s)
    \<and> read_pos r' = 0 \<and> fb1 r' = Some (load (mem (chunks s)) (rfb_addr r) (fb_bytes r)) \<and> fb2 r' = fb1 r"
  using assms
proof (induction n arbitrary: r s buf)
  case (Suc n)
  have pos: "read_pos r + 256 \<le> fb_bytes r" "fb_bytes r \<noteq> 0" using Suc.prems(5) by simp_all
  obtain m buf' where m: "mem_read c (rfb_addr r + of_nat (read_pos r)) fb_align s
      = Some (Inr (load (mem (chunks s)) (rfb_addr r + of_nat (read_pos r)) 256, s\<lparr>chunks := m\<rparr>))"
    "invar m" "mem m = mem (chunks s)"
    and buf: "buf' = take (read_pos r) buf @ load (mem (chunks s)) (rfb_addr r + of_nat (read_pos r)) 256
       @ drop (read_pos r + fb_align) buf" "length buf' = fb_bytes r"
      "take (read_pos r + 256) buf' = load (mem (chunks s)) (rfb_addr r) (read_pos r + 256)"
    using tick_copies [OF Suc.prems(1-4) pos(1) Suc.prems(7,8)] by blast
  have nolen: "\<not> length buf < read_pos r + fb_align" using Suc.prems(4) pos(1) by (simp add: fb_align_def)
  let ?r = "r\<lparr>fb2 := Some buf', read_pos := (read_pos r + fb_align) mod fb_bytes r\<rparr>"
  have fbb: "fb_bytes ?r = fb_bytes r" by (simp add: fb_bytes_def)
  show ?case
  proof (cases "n = 0")
    case False
    then have lt: "read_pos r + 256 < fb_bytes r" using Suc.prems(5) by simp
    have t: "rfb_tick c os r s = Some (Inr (r\<lparr>fb2 := Some buf', read_pos := read_pos r + 256\<rparr>, s\<lparr>chunks := m\<rparr>))"
      using m(1) pos Suc.prems(2,3) nolen lt unfolding rfb_tick_def buf(1)
      by (simp add: monad_simps Let_def fb_align_def)
    have "\<exists>r' s'. rfb_ticks c os n (r\<lparr>fb2 := Some buf', read_pos := read_pos r + 256\<rparr>) (s\<lparr>chunks := m\<rparr>) = Some (Inr (r', s'))
      \<and> invar (chunks s') \<and> mem (chunks s') = mem (chunks (s\<lparr>chunks := m\<rparr>))
      \<and> read_pos r' = 0 \<and> fb1 r' = Some (load (mem (chunks (s\<lparr>chunks := m\<rparr>))) (rfb_addr (r\<lparr>fb2 := Some buf', read_pos := read_pos r + 256\<rparr>))
          (fb_bytes (r\<lparr>fb2 := Some buf', read_pos := read_pos r + 256\<rparr>)))
      \<and> fb2 r' = fb1 (r\<lparr>fb2 := Some buf', read_pos := read_pos r + 256\<rparr>)"
      using Suc.prems(2,5,8) False m(2,3) buf(2,3) by (intro Suc.IH [where buf = buf']) (auto simp: fb_bytes_def)
    then show ?thesis using t m(3) by (simp add: monad_simps fb_bytes_def)
  next
    case True
    then have full: "read_pos r + 256 = fb_bytes r" using Suc.prems(5) by simp
    then have "buf' = load (mem (chunks s)) (rfb_addr r) (fb_bytes r)" using buf(2,3) by simp
    moreover have "\<exists>h. rfb_tick c os r s = Some (Inr (r\<lparr>fb1 := Some buf', fb2 := fb1 r, read_pos := 0\<rparr>, s\<lparr>chunks := m, host := h\<rparr>))"
      using m(1) pos Suc.prems(2,3) nolen full unfolding rfb_tick_def buf(1)
      by (auto simp: monad_simps Let_def fb_align_def fb_update_def)
    ultimately show ?thesis using True m by (auto simp: monad_simps)
  qed
qed simp

end

end
