(* ===== verification/Elf.thy ===== *)
theory Elf
  imports Device
begin

text \<open>
  The loader of ELF files (\<^verbatim>\<open>elf.h\<close>, \<^verbatim>\<open>elfloader.cc\<close>). The macro \<^verbatim>\<open>LOAD_ELF\<close> is instantiated at the
  32-bit and the 64-bit structures; here the structures have the type of their addresses as a
  parameter and the two layouts are the values \<open>elf32\<close> and \<open>elf64\<close>, so that the arithmetic
  on offsets wraps at the width it wraps at in the code.

  The file is a list of bytes. A structure or string that the code reads beyond the end of the
  mapped file is the error \<open>Out_of_bounds\<close>.
\<close>

section \<open>Structures\<close>

record 'w ehdr =
  e_ident :: "u8 list"
  e_type :: u16
  e_machine :: u16
  e_version :: u32
  e_entry :: 'w
  e_phoff :: 'w
  e_shoff :: 'w
  e_flags :: u32
  e_ehsize :: u16
  e_phentsize :: u16
  e_phnum :: u16
  e_shentsize :: u16
  e_shnum :: u16
  e_shstrndx :: u16

record 'w phdr =
  p_type :: u32
  p_flags :: u32
  p_offset :: 'w
  p_vaddr :: 'w
  p_paddr :: 'w
  p_filesz :: 'w
  p_memsz :: 'w
  p_align :: 'w

record 'w shdr =
  sh_name :: u32
  sh_type :: u32
  sh_flags :: 'w
  sh_addr :: 'w
  sh_offset :: 'w
  sh_size :: 'w
  sh_link :: u32
  sh_info :: u32
  sh_addralign :: 'w
  sh_entsize :: 'w

record 'w sym =
  st_name :: u32
  st_info :: u8
  st_other :: u8
  st_shndx :: u16
  st_value :: 'w
  st_size :: 'w

text \<open>The integer at an offset of a structure.\<close>

definition at :: "u8 list \<Rightarrow> nat \<Rightarrow> 'a::len word" where
  "at bs off = le_word (take (LENGTH('a) div 8) (drop off bs))"

definition ehdr32 :: "u8 list \<Rightarrow> 32 word ehdr" where
  "ehdr32 b = \<lparr>e_ident = take 16 b, e_type = at b 16, e_machine = at b 18, e_version = at b 20,
     e_entry = at b 24, e_phoff = at b 28, e_shoff = at b 32, e_flags = at b 36, e_ehsize = at b 40,
     e_phentsize = at b 42, e_phnum = at b 44, e_shentsize = at b 46, e_shnum = at b 48,
     e_shstrndx = at b 50\<rparr>"

definition shdr32 :: "u8 list \<Rightarrow> 32 word shdr" where
  "shdr32 b = \<lparr>sh_name = at b 0, sh_type = at b 4, sh_flags = at b 8, sh_addr = at b 12,
     sh_offset = at b 16, sh_size = at b 20, sh_link = at b 24, sh_info = at b 28,
     sh_addralign = at b 32, sh_entsize = at b 36\<rparr>"

definition phdr32 :: "u8 list \<Rightarrow> 32 word phdr" where
  "phdr32 b = \<lparr>p_type = at b 0, p_flags = at b 24, p_offset = at b 4, p_vaddr = at b 8,
     p_paddr = at b 12, p_filesz = at b 16, p_memsz = at b 20, p_align = at b 28\<rparr>"

definition sym32 :: "u8 list \<Rightarrow> 32 word sym" where
  "sym32 b = \<lparr>st_name = at b 0, st_info = at b 12, st_other = at b 13, st_shndx = at b 14,
     st_value = at b 4, st_size = at b 8\<rparr>"

definition ehdr64 :: "u8 list \<Rightarrow> 64 word ehdr" where
  "ehdr64 b = \<lparr>e_ident = take 16 b, e_type = at b 16, e_machine = at b 18, e_version = at b 20,
     e_entry = at b 24, e_phoff = at b 32, e_shoff = at b 40, e_flags = at b 48, e_ehsize = at b 52,
     e_phentsize = at b 54, e_phnum = at b 56, e_shentsize = at b 58, e_shnum = at b 60,
     e_shstrndx = at b 62\<rparr>"

definition shdr64 :: "u8 list \<Rightarrow> 64 word shdr" where
  "shdr64 b = \<lparr>sh_name = at b 0, sh_type = at b 4, sh_flags = at b 8, sh_addr = at b 16,
     sh_offset = at b 24, sh_size = at b 32, sh_link = at b 40, sh_info = at b 44,
     sh_addralign = at b 48, sh_entsize = at b 56\<rparr>"

definition phdr64 :: "u8 list \<Rightarrow> 64 word phdr" where
  "phdr64 b = \<lparr>p_type = at b 0, p_flags = at b 4, p_offset = at b 8, p_vaddr = at b 16,
     p_paddr = at b 24, p_filesz = at b 32, p_memsz = at b 40, p_align = at b 48\<rparr>"

definition sym64 :: "u8 list \<Rightarrow> 64 word sym" where
  "sym64 b = \<lparr>st_name = at b 0, st_info = at b 4, st_other = at b 5, st_shndx = at b 6,
     st_value = at b 8, st_size = at b 16\<rparr>"

text \<open>The arguments of the macro: each structure with its \<^verbatim>\<open>sizeof\<close>.\<close>

record 'w elf_class =
  ehdr_t :: "(u8 list \<Rightarrow> 'w ehdr) \<times> nat"
  phdr_t :: "(u8 list \<Rightarrow> 'w phdr) \<times> nat"
  shdr_t :: "(u8 list \<Rightarrow> 'w shdr) \<times> nat"
  sym_t :: "(u8 list \<Rightarrow> 'w sym) \<times> nat"

definition elf32 :: "32 word elf_class" where
  "elf32 = \<lparr>ehdr_t = (ehdr32, 52), phdr_t = (phdr32, 32), shdr_t = (shdr32, 40), sym_t = (sym32, 16)\<rparr>"

definition elf64 :: "64 word elf_class" where
  "elf64 = \<lparr>ehdr_t = (ehdr64, 64), phdr_t = (phdr64, 56), shdr_t = (shdr64, 64), sym_t = (sym64, 24)\<rparr>"

definition pt_load :: u32 where "pt_load = 1"
definition sht_nobits :: u32 where "sht_nobits = 8"

definition is_elf :: "u8 list \<Rightarrow> bool" where
  "is_elf b \<longleftrightarrow> b ! 0 = 0x7f \<and> b ! 1 = 0x45 \<and> b ! 2 = 0x4c \<and> b ! 3 = 0x46"

definition is_elf32 :: "u8 list \<Rightarrow> bool" where
  "is_elf32 b \<longleftrightarrow> is_elf b \<and> b ! 4 = 1"

definition is_elf64 :: "u8 list \<Rightarrow> bool" where
  "is_elf64 b \<longleftrightarrow> is_elf b \<and> b ! 4 = 2"

text \<open>Bytes of the mapped file; a structure at an offset; an element of an array of structures.\<close>

definition bytes_at :: "u8 list \<Rightarrow> nat \<Rightarrow> nat \<Rightarrow> error + u8 list" where
  "bytes_at buf off n = (if off + n \<le> length buf then Inr (take n (drop off buf)) else Inl Out_of_bounds)"

definition struct_at :: "(u8 list \<Rightarrow> 'b) \<times> nat \<Rightarrow> u8 list \<Rightarrow> nat \<Rightarrow> error + 'b" where
  "struct_at t buf off = map_sum id (fst t) (bytes_at buf off (snd t))"

definition elem_at :: "(u8 list \<Rightarrow> 'b) \<times> nat \<Rightarrow> u8 list \<Rightarrow> 'a::len word \<Rightarrow> nat \<Rightarrow> error + 'b" where
  "elem_at t buf off i = struct_at t buf (unat off + i * snd t)"

definition strnlen :: "u8 list \<Rightarrow> nat \<Rightarrow> nat \<Rightarrow> error + nat" where
  "strnlen buf off n =
     (let t = take n (drop off buf); k = length (takeWhile (\<lambda>c. c \<noteq> 0) t) in
      if k < length t \<or> length t = n then Inr k else Inl Out_of_bounds)"

definition c_string :: "u8 list \<Rightarrow> nat \<Rightarrow> cstring" where
  "c_string buf off = takeWhile (\<lambda>c. c \<noteq> 0) (drop off buf)"

section \<open>Segments\<close>

text \<open>
  The body of the first loop. \<open>wr\<close> is the write operation of the memory interface the caller
  passes. A sum of two words of the class wraps at its width before it is compared with \<^verbatim>\<open>size\<close>.
\<close>

definition load_segment ::
  "(u64 \<Rightarrow> u8 list \<Rightarrow> ('s, unit) M) \<Rightarrow> u8 list \<Rightarrow> 'a::len word phdr \<Rightarrow> ('s, unit) M" where
  "load_segment wr buf ph =
     (if p_type ph = pt_load \<and> p_memsz ph \<noteq> 0 then
        bindM (if p_filesz ph \<noteq> 0 then
            bindM (assertM (unat (p_offset ph + p_filesz ph) \<le> length buf)
              ''size >= ph[i].p_offset + ph[i].p_filesz'') (\<lambda>_.
            bindM (liftE (bytes_at buf (unat (p_offset ph)) (unat (p_filesz ph)))) (\<lambda>bytes.
            wr (ucast (p_paddr ph)) bytes))
          else return ()) (\<lambda>_.
        bindM (vector_alloc (ucast (p_memsz ph - p_filesz ph))) (\<lambda>zeros.
        wr (ucast (p_paddr ph + p_filesz ph)) zeros))
      else return ())"

definition load_segments ::
  "(u64 \<Rightarrow> u8 list \<Rightarrow> ('s, unit) M) \<Rightarrow> 'a::len word elf_class \<Rightarrow> u8 list \<Rightarrow> 'a word ehdr \<Rightarrow> ('s, unit) M" where
  "load_segments wr cls buf eh =
     bindM (assertM (unat (ucast (e_phoff eh) + ucast (e_phnum eh) * of_nat (snd (phdr_t cls)) :: u64) \<le> length buf)
       ''size >= eh->e_phoff + eh->e_phnum*sizeof(*ph)'') (\<lambda>_.
     forM (\<lambda>i. bindM (liftE (elem_at (phdr_t cls) buf (e_phoff eh) i)) (load_segment wr buf))
       [0..<unat (e_phnum eh)])"

section \<open>Sections and symbols\<close>

text \<open>One step of the section loop, on the two table indices found so far.\<close>

definition scan_section ::
  "'a::len word elf_class \<Rightarrow> u8 list \<Rightarrow> 'a word ehdr \<Rightarrow> 'a word shdr \<Rightarrow> nat \<Rightarrow> (nat \<times> nat, unit) M" where
  "scan_section cls buf eh strs i =
     bindM (liftE (elem_at (shdr_t cls) buf (e_shoff eh) i)) (\<lambda>sh.
     let max_len = (ucast (sh_size strs - ucast (sh_name sh)) :: u32);
         off = unat (sh_offset strs) + unat (sh_name sh) in
     bindM (assertM (unat (sh_name sh) < unat (sh_size strs))
       ''sh[i].sh_name < sh[eh->e_shstrndx].sh_size'') (\<lambda>_.
     bindM (liftE (strnlen buf off (unat max_len))) (\<lambda>n.
     bindM (assertM (n < unat max_len) ''strnlen(shstrtab + sh[i].sh_name, max_len) < max_len'') (\<lambda>_.
     if sh_type sh AND sht_nobits \<noteq> 0 then return ()
     else
       bindM (assertM (unat (sh_offset sh + sh_size sh) \<le> length buf)
         ''size >= sh[i].sh_offset + sh[i].sh_size'') (\<lambda>_.
       bindM (modifyM (\<lambda>(strtabidx, symtabidx).
         (if c_string buf off = str ''.strtab'' then i else strtabidx, symtabidx))) (\<lambda>_.
       modifyM (\<lambda>(strtabidx, symtabidx).
         (strtabidx, if c_string buf off = str ''.symtab'' then i else symtabidx))))))))"

text \<open>One step of the symbol loop.\<close>

definition read_symbol ::
  "'a::len word elf_class \<Rightarrow> u8 list \<Rightarrow> 'a word shdr \<Rightarrow> 'a word shdr \<Rightarrow> nat \<Rightarrow> (cstring \<rightharpoonup> u64, unit) M" where
  "read_symbol cls buf strtab symtab i =
     bindM (liftE (elem_at (sym_t cls) buf (sh_offset symtab) i)) (\<lambda>sym.
     let max_len = (ucast (sh_size strtab - ucast (st_name sym)) :: u32);
         off = unat (sh_offset strtab) + unat (st_name sym) in
     bindM (assertM (unat (st_name sym) < unat (sh_size strtab))
       ''sym[i].st_name < sh[strtabidx].sh_size'') (\<lambda>_.
     bindM (liftE (strnlen buf off (unat max_len))) (\<lambda>n.
     bindM (assertM (n < unat max_len) ''strnlen(strtab + sym[i].st_name, max_len) < max_len'') (\<lambda>_.
     modifyM (\<lambda>symbols. symbols(c_string buf off \<mapsto> ucast (st_value sym)))))))"

definition run_on :: "'t \<Rightarrow> ('t, 'a) M \<Rightarrow> ('s, 't) M" where
  "run_on t f s = Option.bind (f t) (\<lambda>r. case r of Inl e \<Rightarrow> Some (Inl e) | Inr (_, t') \<Rightarrow> return t' s)"

definition read_symbols ::
  "'a::len word elf_class \<Rightarrow> u8 list \<Rightarrow> 'a word ehdr \<Rightarrow> ('s, cstring \<rightharpoonup> u64) M" where
  "read_symbols cls buf eh =
     bindM (assertM (unat (ucast (e_shoff eh) + ucast (e_shnum eh) * of_nat (snd (shdr_t cls)) :: u64) \<le> length buf)
       ''size >= eh->e_shoff + eh->e_shnum*sizeof(*sh)'') (\<lambda>_.
     bindM (assertM (e_shstrndx eh < e_shnum eh) ''eh->e_shstrndx < eh->e_shnum'') (\<lambda>_.
     bindM (liftE (elem_at (shdr_t cls) buf (e_shoff eh) (unat (e_shstrndx eh)))) (\<lambda>strs.
     bindM (assertM (unat (sh_offset strs + sh_size strs) \<le> length buf)
       ''size >= sh[eh->e_shstrndx].sh_offset + sh[eh->e_shstrndx].sh_size'') (\<lambda>_.
     bindM (run_on (0, 0) (forM (scan_section cls buf eh strs) [0..<unat (e_shnum eh)]))
       (\<lambda>(strtabidx, symtabidx).
     if strtabidx \<noteq> 0 \<and> symtabidx \<noteq> 0 then
       bindM (liftE (elem_at (shdr_t cls) buf (e_shoff eh) strtabidx)) (\<lambda>strtab.
       bindM (liftE (elem_at (shdr_t cls) buf (e_shoff eh) symtabidx)) (\<lambda>symtab.
       run_on Map.empty (forM (read_symbol cls buf strtab symtab)
         [0..<unat (sh_size symtab) div snd (sym_t cls)])))
     else return Map.empty)))))"

section \<open>The loader\<close>

definition load_elf_class ::
  "(u64 \<Rightarrow> u8 list \<Rightarrow> ('s, unit) M) \<Rightarrow> 'a::len word elf_class \<Rightarrow> u8 list \<Rightarrow>
   ('s, (cstring \<rightharpoonup> u64) \<times> u64) M" where
  "load_elf_class wr cls buf =
     bindM (liftE (struct_at (ehdr_t cls) buf 0)) (\<lambda>eh.
     bindM (load_segments wr cls buf eh) (\<lambda>_.
     bindM (read_symbols cls buf eh) (\<lambda>symbols.
     return (symbols, ucast (e_entry eh)))))"

definition load_image ::
  "(u64 \<Rightarrow> u8 list \<Rightarrow> ('s, unit) M) \<Rightarrow> u8 list \<Rightarrow> ('s, (cstring \<rightharpoonup> u64) \<times> u64) M" where
  "load_image wr buf =
     bindM (assertM (64 \<le> length buf) ''size >= sizeof(Elf64_Ehdr)'') (\<lambda>_.
     bindM (assertM (is_elf32 buf \<or> is_elf64 buf) ''IS_ELF32(*eh64) || IS_ELF64(*eh64)'') (\<lambda>_.
     if is_elf32 buf then load_elf_class wr elf32 buf else load_elf_class wr elf64 buf))"

definition o_rdonly :: i32 where "o_rdonly = 0"

text \<open>Opening and mapping the file.\<close>

definition map_file :: "'o posix \<Rightarrow> cstring \<Rightarrow> ('o, u8 list) M" where
  "map_file os fn =
     bindM (total (os_open os fn o_rdonly)) (\<lambda>fd.
     bindM (assertM (fd \<noteq> -1) ''fd != -1'') (\<lambda>_.
     bindM (total (os_fstat os fd)) (\<lambda>(ret, st).
     if sint ret < 0 then throw Abort
     else
       bindM (total (os_mmap os fd (stat.st_size st))) (\<lambda>buf.
       bindM (assertM (buf \<noteq> None) ''buf != MAP_FAILED'') (\<lambda>_.
       bindM (total (os_close os fd)) (\<lambda>_.
       return (the buf)))))))"

definition load_elf ::
  "'o posix \<Rightarrow> (u64 \<Rightarrow> u8 list \<Rightarrow> (('m, 'o, 'z) machine_scheme, unit) M) \<Rightarrow> cstring \<Rightarrow>
   (('m, 'o, 'z) machine_scheme, (cstring \<rightharpoonup> u64) \<times> u64) M" where
  "load_elf os wr fn = bindM (on_host (map_file os fn)) (load_image wr)"

section \<open>What a segment means\<close>

definition loads :: "'a::len word phdr \<Rightarrow> bool" where
  "loads ph \<longleftrightarrow> p_type ph = pt_load \<and> p_memsz ph \<noteq> 0"

definition segment_bytes :: "u8 list \<Rightarrow> 'a::len word phdr \<Rightarrow> u8 list" where
  "segment_bytes buf ph = take (unat (p_filesz ph)) (drop (unat (p_offset ph)) buf)
     @ replicate (unat (p_memsz ph) - unat (p_filesz ph)) 0"

definition segment_mem :: "u8 list \<Rightarrow> 'a::len word phdr \<Rightarrow> memory \<Rightarrow> memory" where
  "segment_mem buf ph m = (if loads ph then store m (ucast (p_paddr ph)) (segment_bytes buf ph) else m)"

text \<open>A loadable segment lies in the file and in the address space.\<close>

definition segment_ok :: "u8 list \<Rightarrow> 'a::len word phdr \<Rightarrow> bool" where
  "segment_ok buf ph \<longleftrightarrow> (loads ph \<longrightarrow>
     unat (p_offset ph) + unat (p_filesz ph) \<le> length buf \<and> p_filesz ph \<le> p_memsz ph
     \<and> unat (p_paddr ph) + unat (p_memsz ph) < 2 ^ LENGTH('a) \<and> unat (p_memsz ph) < 2 ^ 63)"

lemma unat_add_le: "unat (a + b :: 'a::len word) \<le> unat a + unat b"
  by (simp add: unat_word_ariths)

lemma ucast_add_64:
  fixes a b :: "'a::len word"
  assumes "LENGTH('a) \<le> 64" "unat a + unat b < 2 ^ LENGTH('a)"
  shows "(ucast (a + b) :: u64) = ucast a + of_nat (unat b)"
proof -
  have "unat (a + b) = unat a + unat b" using assms(2) by (simp add: unat_word_ariths)
  moreover have "(ucast x :: u64) = of_nat (unat x)" for x :: "'a word" by simp
  ultimately show ?thesis by (metis of_nat_add)
qed

lemma unsigned_ucast64: "(ucast (x :: 'a::len word) :: u64) = of_nat (unat x)"
  by simp

lemma bytes_at_OK: "off + n \<le> length buf \<Longrightarrow> bytes_at buf off n = Inr (take n (drop off buf))"
  by (simp add: bytes_at_def)

context chunk_provider
begin

lemma load_segment_OK:
  fixes ph :: "'w::len word phdr" and s :: "('a, 'o, 'z) machine_scheme"
  assumes w: "LENGTH('w) \<le> 64" and s: "invar (chunks s)" and ok: "segment_ok buf ph"
    and v: "loads ph \<Longrightarrow> \<forall>i<unat (p_memsz ph). valid (ucast (p_paddr ph) + of_nat i)"
  shows "\<exists>m. load_segment (mem_write c) buf ph s = Some (Inr ((), s\<lparr>chunks := m\<rparr>)) \<and> invar m
    \<and> mem m = segment_mem buf ph (mem (chunks s))"
proof (cases "loads ph")
  case False
  then show ?thesis using s
    by (intro exI [of _ "chunks s"]) (auto simp: load_segment_def loads_def segment_mem_def monad_simps)
next
  case True
  note ok = ok [unfolded segment_ok_def, rule_format, OF True] and v = v [OF True]
  let ?a = "ucast (p_paddr ph) :: u64" and ?f = "unat (p_filesz ph)" and ?n = "unat (p_memsz ph)"
  let ?bs = "take ?f (drop (unat (p_offset ph)) buf)"
  have fn: "?f \<le> ?n" using ok by (simp add: word_le_nat_alt)
  have lbs: "length ?bs = ?f" using ok by (auto simp: min_def)
  have sub: "unat (p_memsz ph - p_filesz ph) = ?n - ?f" using fn by (simp add: unat_sub_if_size)
  have "(ucast (p_memsz ph - p_filesz ph) :: u64) = of_nat (?n - ?f)" using sub by (metis unsigned_ucast64)
  then have sub64: "unat (ucast (p_memsz ph - p_filesz ph) :: u64) = ?n - ?f"
    using ok by (intro trans [OF arg_cong [of _ _ unat] unat_of_nat64]) auto
  obtain m1 where m1: "(if p_filesz ph \<noteq> 0 then
            bindM (assertM (unat (p_offset ph + p_filesz ph) \<le> length buf)
              ''size >= ph[i].p_offset + ph[i].p_filesz'') (\<lambda>_.
            bindM (liftE (bytes_at buf (unat (p_offset ph)) ?f)) (\<lambda>bytes.
            mem_write c ?a bytes))
          else return ()) s = Some (Inr ((), s\<lparr>chunks := m1\<rparr>))" "invar m1"
    "mem m1 = store (mem (chunks s)) ?a ?bs"
  proof (cases "p_filesz ph = 0")
    case True
    then show ?thesis using that [of "chunks s"] s by (simp add: monad_simps)
  next
    case False
    have "unat (p_offset ph + p_filesz ph) \<le> length buf"
      using unat_add_le [of "p_offset ph" "p_filesz ph"] ok by linarith
    moreover obtain m where "mem_write c ?a ?bs s = Some (Inr ((), s\<lparr>chunks := m\<rparr>))" "invar m"
      "mem m = store (mem (chunks s)) ?a ?bs"
      using mem_write_OK [OF s, of ?bs ?a] ok fn lbs v by auto
    ultimately show ?thesis using that [of m] False ok by (simp add: monad_simps bytes_at_OK)
  qed
  let ?z = "replicate (?n - ?f) (0 :: u8)"
  have a2: "(ucast (p_paddr ph + p_filesz ph) :: u64) = ?a + of_nat ?f"
    using ok fn by (intro ucast_add_64 [OF w]) simp
  have "valid (?a + of_nat ?f + of_nat i)" if "i < ?n - ?f" for i
  proof -
    have "?f + i < ?n" using that by simp
    then have "valid (?a + of_nat (?f + i))" using v by blast
    then show ?thesis by (simp add: add.assoc)
  qed
  moreover have "?n - ?f \<le> 18446744073709551616" using ok by auto
  ultimately obtain m2 where m2: "mem_write c (?a + of_nat ?f) ?z (s\<lparr>chunks := m1\<rparr>) = Some (Inr ((), s\<lparr>chunks := m2\<rparr>))"
    "invar m2" "mem m2 = store (mem m1) (?a + of_nat ?f) ?z"
    using mem_write_OK [of "s\<lparr>chunks := m1\<rparr>" ?z "?a + of_nat ?f"] m1(2) ok by auto
  have "mem m2 = segment_mem buf ph (mem (chunks s))"
    using store_append [of ?bs ?z "mem (chunks s)" ?a] m1(3) m2(3) lbs ok fn True
    by (simp add: segment_mem_def segment_bytes_def)
  moreover have "vector_alloc (ucast (p_memsz ph - p_filesz ph)) (s\<lparr>chunks := m1\<rparr>)
      = Some (Inr (?z, s\<lparr>chunks := m1\<rparr>))" using sub64 ok by (auto simp: vector_alloc_def monad_simps)
  then have "load_segment (mem_write c) buf ph s = Some (Inr ((), s\<lparr>chunks := m2\<rparr>))"
    using True m1(1) m2(1) unfolding load_segment_def loads_def a2 by (simp add: bindM_Some(1))
  ultimately show ?thesis using m2(2) by blast
qed

lemma load_each_OK:
  fixes cls :: "'w::len word elf_class" and s :: "('a, 'o, 'z) machine_scheme"
  assumes "LENGTH('w) \<le> 64" "invar (chunks s)"
    and "\<And>i. i \<in> set is \<Longrightarrow> \<exists>ph. elem_at (phdr_t cls) buf off i = Inr ph \<and> P i = ph \<and> segment_ok buf ph
      \<and> (loads ph \<longrightarrow> (\<forall>j<unat (p_memsz ph). valid (ucast (p_paddr ph) + of_nat j)))"
  shows "\<exists>m. forM (\<lambda>i. bindM (liftE (elem_at (phdr_t cls) buf off i)) (load_segment (mem_write c) buf)) is s
      = Some (Inr ((), s\<lparr>chunks := m\<rparr>)) \<and> invar m
    \<and> mem m = fold (segment_mem buf) (map P is) (mem (chunks s))"
  using assms(2,3)
proof (induction "is" arbitrary: s)
  case Nil
  then show ?case by (intro exI [of _ "chunks s"]) (simp add: monad_simps)
next
  case (Cons i "is")
  obtain ph where ph: "elem_at (phdr_t cls) buf off i = Inr ph" "P i = ph" "segment_ok buf ph"
    "loads ph \<longrightarrow> (\<forall>j<unat (p_memsz ph). valid (ucast (p_paddr ph) + of_nat j))"
    using Cons.prems(2) [of i] by auto
  obtain m1 where m1: "load_segment (mem_write c) buf ph s = Some (Inr ((), s\<lparr>chunks := m1\<rparr>))" "invar m1"
    "mem m1 = segment_mem buf ph (mem (chunks s))"
    using load_segment_OK [OF assms(1) Cons.prems(1) ph(3)] ph(4) by auto
  obtain m2 where "forM (\<lambda>i. bindM (liftE (elem_at (phdr_t cls) buf off i)) (load_segment (mem_write c) buf)) is
      (s\<lparr>chunks := m1\<rparr>) = Some (Inr ((), s\<lparr>chunks := m2\<rparr>))" "invar m2"
    "mem m2 = fold (segment_mem buf) (map P is) (mem m1)"
    using Cons.IH [of "s\<lparr>chunks := m1\<rparr>"] Cons.prems(2) m1(2) by auto
  then show ?case using ph m1 by (intro exI [of _ m2]) (simp add: monad_simps)
qed

end

text \<open>The program headers of a file.\<close>

definition phdrs :: "'a::len word elf_class \<Rightarrow> u8 list \<Rightarrow> 'a word ehdr \<Rightarrow> 'a word phdr list" where
  "phdrs cls buf eh = map (\<lambda>i. fst (phdr_t cls) (take (snd (phdr_t cls))
     (drop (unat (e_phoff eh) + i * snd (phdr_t cls)) buf))) [0..<unat (e_phnum eh)]"

context chunk_provider
begin

lemma load_segments_OK:
  fixes cls :: "'w::len word elf_class" and s :: "('a, 'o, 'z) machine_scheme"
  assumes w: "LENGTH('w) \<le> 64" and s: "invar (chunks s)"
    and table: "unat (e_phoff eh) + unat (e_phnum eh) * snd (phdr_t cls) \<le> length buf" "length buf < 2 ^ 64"
    and ok: "\<forall>ph \<in> set (phdrs cls buf eh). segment_ok buf ph
      \<and> (loads ph \<longrightarrow> (\<forall>j<unat (p_memsz ph). valid (ucast (p_paddr ph) + of_nat j)))"
  shows "\<exists>m. load_segments (mem_write c) cls buf eh s = Some (Inr ((), s\<lparr>chunks := m\<rparr>)) \<and> invar m
    \<and> mem m = fold (segment_mem buf) (phdrs cls buf eh) (mem (chunks s))"
proof -
  let ?n = "unat (e_phnum eh)" and ?z = "snd (phdr_t cls)"
  let ?P = "\<lambda>i. fst (phdr_t cls) (take ?z (drop (unat (e_phoff eh) + i * ?z) buf))"
  have "(ucast (e_phoff eh) + ucast (e_phnum eh) * of_nat ?z :: u64) = of_nat (unat (e_phoff eh) + ?n * ?z)"
    by simp
  then have a: "unat (ucast (e_phoff eh) + ucast (e_phnum eh) * of_nat ?z :: u64) \<le> length buf"
    using table unat_of_nat64 [of "unat (e_phoff eh) + ?n * ?z"] by simp
  have el: "elem_at (phdr_t cls) buf (e_phoff eh) i = Inr (?P i)" if "i < ?n" for i
  proof -
    have "Suc i * ?z \<le> ?n * ?z" using that by (intro mult_le_mono1) simp
    then show ?thesis using table(1) by (simp add: elem_at_def struct_at_def bytes_at_def)
  qed
  have ps: "phdrs cls buf eh = map ?P [0..<?n]" by (simp add: phdrs_def)
  have "\<exists>m. forM (\<lambda>i. bindM (liftE (elem_at (phdr_t cls) buf (e_phoff eh) i)) (load_segment (mem_write c) buf)) [0..<?n] s
      = Some (Inr ((), s\<lparr>chunks := m\<rparr>)) \<and> invar m \<and> mem m = fold (segment_mem buf) (map ?P [0..<?n]) (mem (chunks s))"
    using ok el ps by (intro load_each_OK [OF w s]) auto
  then show ?thesis using a ps by (auto simp: load_segments_def monad_simps)
qed

end

section \<open>The size check\<close>

text \<open>Without wrap-around the check of a segment is exact.\<close>

lemma segment_past_end:
  fixes ph :: "'a::len word phdr"
  assumes "loads ph" "p_filesz ph \<noteq> 0" "length buf < unat (p_offset ph) + unat (p_filesz ph)"
    "unat (p_offset ph) + unat (p_filesz ph) < 2 ^ LENGTH('a)"
  shows "load_segment wr buf ph s = Some (Inl (Assert_failed ''size >= ph[i].p_offset + ph[i].p_filesz''))"
proof -
  have "unat (p_offset ph + p_filesz ph) = unat (p_offset ph) + unat (p_filesz ph)"
    using assms(4) by (simp add: unat_word_ariths)
  then show ?thesis using assms by (simp add: load_segment_def loads_def bindM_assoc monad_simps)
qed

text \<open>With wrap-around it passes, and the segment is read from beyond the file.\<close>

lemma segment_wraps:
  fixes ph :: "'a::len word phdr"
  assumes "loads ph" "p_filesz ph \<noteq> 0" "2 ^ LENGTH('a) \<le> unat (p_offset ph) + unat (p_filesz ph)"
    "unat (p_offset ph) + unat (p_filesz ph) - 2 ^ LENGTH('a) \<le> length buf" "length buf < unat (p_offset ph)"
  shows "load_segment wr buf ph s = Some (Inl Out_of_bounds)"
proof -
  have "unat (p_filesz ph) < 2 ^ LENGTH('a)" "unat (p_offset ph) < 2 ^ LENGTH('a)" by simp_all
  then have "unat (p_offset ph) + unat (p_filesz ph) - 2 ^ LENGTH('a) < 2 ^ LENGTH('a)" by linarith
  then have "unat (p_offset ph + p_filesz ph) = unat (p_offset ph) + unat (p_filesz ph) - 2 ^ LENGTH('a)"
    using assms(3) by (simp add: unat_word_ariths le_mod_geq)
  then show ?thesis using assms by (simp add: load_segment_def loads_def bindM_assoc monad_simps bytes_at_def)
qed

text \<open>Files that are too short or are not ELF files are refused before anything is written.\<close>

lemma load_image_refuses:
  assumes "length buf < 64 \<or> \<not> (is_elf32 buf \<or> is_elf64 buf)"
  shows "\<exists>msg. load_image wr buf s = Some (Inl (Assert_failed msg))"
  using assms by (auto simp: load_image_def monad_simps assertM_def bindM_def)

end
