(* ===== verification/Htif_hexwriter.thy ===== *)
theory Htif_hexwriter
  imports Memif
begin

text \<open>
  The chunk provider of \<^verbatim>\<open>elf2hex\<close> (\<^verbatim>\<open>htif_hexwriter.h\<close>, \<^verbatim>\<open>htif_hexwriter.cc\<close>): a sparse image
  of \<^verbatim>\<open>depth\<close> words of \<^verbatim>\<open>width\<close> bytes at \<^verbatim>\<open>base\<close>, printed as lines of hexadecimal digits.

  It obeys the transfer laws \<open>chunk_rw\<close> for every geometry that \<^verbatim>\<open>elf2hex\<close> accepts. It does not
  obey the clearing law: its \<^verbatim>\<open>clear_chunk\<close> does nothing, which is right only where the image
  is still zero (\<open>hex_clears_zero\<close>).
\<close>

section \<open>State and operations\<close>

record hexwriter =
  base :: u64
  width :: u64
  depth :: u64
  hmem :: "u64 \<rightharpoonup> u8 list"

definition hexwriter_init :: "u64 \<Rightarrow> u64 \<Rightarrow> u64 \<Rightarrow> hexwriter" where
  "hexwriter_init b w d = \<lparr>base = b, width = w, depth = d, hmem = (\<lambda>_. None)\<rparr>"

text \<open>\<^verbatim>\<open>mem[i]\<close> of a \<^verbatim>\<open>std::map\<close>: an absent key is the empty vector.\<close>

definition hex_slot :: "hexwriter \<Rightarrow> u64 \<Rightarrow> u8 list" where
  "hex_slot h i = (case hmem h i of None \<Rightarrow> [] | Some v \<Rightarrow> v)"

text \<open>The first lines of both loop bodies: make the slot exist, with \<^verbatim>\<open>width\<close> zeros.\<close>

definition hex_touch :: "u64 \<Rightarrow> hexwriter \<Rightarrow> hexwriter" where
  "hex_touch i h = h\<lparr>hmem := (hmem h)(i \<mapsto>
     (if length (hex_slot h i) = 0 then replicate (unat (width h)) 0 else hex_slot h i))\<rparr>"

definition hex_check :: "u64 \<Rightarrow> nat \<Rightarrow> (hexwriter, unit) M" where
  "hex_check taddr len =
     bindM (getM (\<lambda>h. len mod unat (width h) = 0)) (\<lambda>b. bindM (assertM b ''len % chunk_align() == 0'') (\<lambda>_.
     bindM (getM (\<lambda>h. taddr < width h * depth h)) (\<lambda>b. bindM (assertM b ''taddr < width*depth'') (\<lambda>_.
     bindM (getM (\<lambda>h. taddr + of_nat len \<le> width h * depth h)) (\<lambda>b.
     assertM b ''taddr+len <= width*depth'')))))"

partial_function (option) hex_read_loop ::
  "u64 \<Rightarrow> nat \<Rightarrow> hexwriter \<Rightarrow> (error + u8 list \<times> hexwriter) option" where
  "hex_read_loop taddr len h =
     (if len \<noteq> 0 then
        bindM (modifyM (hex_touch (taddr div width h)))
          (\<lambda>_. bindM (getM (\<lambda>h'. map (\<lambda>j. hex_slot h' (taddr div width h) ! j) [0..<unat (width h)]))
          (\<lambda>dst. bindM (hex_read_loop (taddr + width h) (len - unat (width h)))
          (\<lambda>rest. return (dst @ rest)))) h
      else return [] h)"

definition hex_read_chunk :: "u64 \<Rightarrow> nat \<Rightarrow> (hexwriter, u8 list) M" where
  "hex_read_chunk taddr len =
     bindM (getM base) (\<lambda>b. bindM (hex_check (taddr - b) len) (\<lambda>_. hex_read_loop (taddr - b) len))"

text \<open>
  The loop of \<^verbatim>\<open>write_chunk\<close> advances \<^verbatim>\<open>taddr\<close> but not \<^verbatim>\<open>src\<close>: every slot receives the first
  \<^verbatim>\<open>width\<close> bytes of the source.
\<close>

partial_function (option) hex_write_loop ::
  "u64 \<Rightarrow> nat \<Rightarrow> u8 list \<Rightarrow> hexwriter \<Rightarrow> (error + unit \<times> hexwriter) option" where
  "hex_write_loop taddr len src h =
     (if len \<noteq> 0 then
        bindM (modifyM (hex_touch (taddr div width h)))
          (\<lambda>_. bindM (modifyM (\<lambda>h'. h'\<lparr>hmem := (hmem h')(taddr div width h \<mapsto>
             map (\<lambda>j. src ! j) [0..<unat (width h)]
             @ drop (unat (width h)) (hex_slot h' (taddr div width h)))\<rparr>))
          (\<lambda>_. hex_write_loop (taddr + width h) (len - unat (width h)) src)) h
      else return () h)"

definition hex_write_chunk :: "u64 \<Rightarrow> u8 list \<Rightarrow> (hexwriter, unit) M" where
  "hex_write_chunk taddr src =
     bindM (getM base) (\<lambda>b. bindM (hex_check (taddr - b) (length src)) (\<lambda>_.
     hex_write_loop (taddr - b) (length src) src))"

definition hex_clear_chunk :: "u64 \<Rightarrow> nat \<Rightarrow> (hexwriter, unit) M" where
  "hex_clear_chunk taddr len = return ()"

definition hex_ops :: "hexwriter chunked_memif" where
  "hex_ops = \<lparr>read_chunk = hex_read_chunk, write_chunk = hex_write_chunk, clear_chunk = hex_clear_chunk,
     chunk_align = (\<lambda>h. unat (width h)), chunk_max_size = (\<lambda>h. unat (width h))\<rparr>"

section \<open>The abstract memory of the writer\<close>

definition hex_mem :: "hexwriter \<Rightarrow> memory" where
  "hex_mem h x =
     (case hmem h ((x - base h) div width h) of
        None \<Rightarrow> 0
      | Some v \<Rightarrow> v ! unat ((x - base h) mod width h))"

definition hex_invar :: "u64 \<Rightarrow> nat \<Rightarrow> u64 \<Rightarrow> hexwriter \<Rightarrow> bool" where
  "hex_invar b k d h \<longleftrightarrow> base h = b \<and> width h = 2 ^ k \<and> depth h = d
     \<and> (\<forall>i v. hmem h i = Some v \<longrightarrow> length v = 2 ^ k)"

definition hex_valid :: "u64 \<Rightarrow> nat \<Rightarrow> u64 \<Rightarrow> u64 \<Rightarrow> bool" where
  "hex_valid b k d x \<longleftrightarrow> x - b < 2 ^ k * d"

definition hex_geometry :: "u64 \<Rightarrow> nat \<Rightarrow> u64 \<Rightarrow> bool" where
  "hex_geometry b k d \<longleftrightarrow> k < 64 \<and> b AND (2 ^ k - 1) = 0 \<and> 2 ^ k * unat d < 2 ^ 64"

lemma unat_aligned_add:
  assumes "k < 64" "2 ^ k dvd unat (t :: u64)" "i < 2 ^ k"
  shows "unat (t + of_nat i) = unat t + i"
    "unat (t + of_nat i) div 2 ^ k = unat t div 2 ^ k" "unat (t + of_nat i) mod 2 ^ k = i"
proof -
  obtain q where q: "unat t = 2 ^ k * q" using assms(2) by (elim dvdE)
  have "(2::nat) ^ 64 = 2 ^ k * 2 ^ (64 - k)" using assms(1) by (simp flip: power_add)
  moreover have "unat t < 2 ^ 64" using unat64_less [of t] by simp
  ultimately have "q < 2 ^ (64 - k)" using q by (metis mult_less_cancel1)
  then have "Suc q \<le> 2 ^ (64 - k)" by simp
  then have "2 ^ k * Suc q \<le> 2 ^ k * 2 ^ (64 - k)" by (rule mult_le_mono2)
  then have lt: "unat t + i < 2 ^ 64" using q assms(3) \<open>2 ^ 64 = 2 ^ k * 2 ^ (64 - k)\<close> by simp
  then have "unat (of_nat i :: u64) = i" by simp
  with lt show *: "unat (t + of_nat i) = unat t + i" by (simp add: unat_word_ariths)
  show "unat (t + of_nat i) div 2 ^ k = unat t div 2 ^ k" "unat (t + of_nat i) mod 2 ^ k = i"
    unfolding * q using assms(3) by auto
qed

lemma unat_pow2: "k < 64 \<Longrightarrow> unat (2 ^ k :: u64) = 2 ^ k"
  using unat_of_nat64 [of "2 ^ k"] power_strict_increasing [of k 64 "2::nat"] by simp

text \<open>The slot and the offset of a byte of an aligned chunk.\<close>

lemma slot_of_byte:
  assumes "k < 64" "2 ^ k dvd unat (t :: u64)" "i < 2 ^ k"
  shows "(t + of_nat i) div 2 ^ k = t div 2 ^ k" "unat ((t + of_nat i) mod 2 ^ k) = i"
proof -
  show "(t + of_nat i) div 2 ^ k = t div 2 ^ k"
    using unat_aligned_add(2) [OF assms] assms(1)
    by (simp add: word_unat_eq_iff unat_div unat_pow2)
  show "unat ((t + of_nat i) mod 2 ^ k) = i"
    using unat_aligned_add(3) [OF assms] assms(1) by (simp add: unat_mod unat_pow2)
qed

lemma same_slot:
  assumes "k < 64" "2 ^ k dvd unat (a - b)" "(x - b) div 2 ^ k = (a - b) div (2 ^ k :: u64)"
  shows "unat (x - a) < 2 ^ k"
proof -
  obtain q where q: "unat (a - b) = 2 ^ k * q" using assms(2) by (elim dvdE)
  have "unat (x - b) div 2 ^ k = unat (a - b) div 2 ^ k"
    using arg_cong [OF assms(3), of unat] unat_pow2 [OF assms(1)] by (simp add: unat_div)
  then have "unat (x - b) = 2 ^ k * q + unat (x - b) mod 2 ^ k"
    using q mult_div_mod_eq [of "2 ^ k" "unat (x - b)"] by simp
  moreover have "unat (x - b) mod 2 ^ k < 2 ^ k" by simp
  moreover have "x - a = (x - b) - (a - b)" by simp
  ultimately show ?thesis using q
    by (metis add_diff_cancel_left' le_add1 unat_sub word_le_nat_alt)
qed

lemma geometry_size:
  assumes "hex_geometry b k d"
  shows "unat (2 ^ k * d) = 2 ^ k * unat d" "k < 64" "unat (2 ^ k :: u64) = 2 ^ k"
proof -
  show k: "k < 64" using assms by (simp add: hex_geometry_def)
  show p: "unat (2 ^ k :: u64) = 2 ^ k" using k by (rule unat_pow2)
  show "unat (2 ^ k * d) = 2 ^ k * unat d"
    using assms by (simp add: hex_geometry_def unat_word_ariths p)
qed

lemma aligned_offset:
  assumes "hex_geometry b k d" "a AND (2 ^ k - 1) = 0"
  shows "2 ^ k dvd unat (a - b)"
proof -
  have "(b AND (2 ^ k - 1)) = 0" "k < 64" using assms(1) by (auto simp: hex_geometry_def)
  then have "2 ^ k dvd unat b" "2 ^ k dvd unat a" "(2::nat) ^ k dvd 18446744073709551616"
    using assms(2) le_imp_power_dvd [of k 64 "2::nat"] by (auto simp: aligned_iff)
  then show ?thesis by (auto simp: unat_sub_if_size word_size intro: dvd_diff_nat)
qed

lemma hex_check_passes:
  assumes g: "hex_geometry b k d" and i: "hex_invar b k d h" and a: "a AND (2 ^ k - 1) = 0"
    and v: "\<forall>i<2 ^ k. hex_valid b k d (a + of_nat i)"
  shows "hex_check (a - b) (2 ^ k) h = Some (Inr ((), h))"
proof -
  note gs = geometry_size [OF g]
  note al = aligned_offset [OF g a]
  have inv: "width h = 2 ^ k" "depth h = d" using i by (auto simp: hex_invar_def)
  have "hex_valid b k d (a + of_nat (2 ^ k - 1))"
    by (rule v [rule_format]) simp
  then have "unat (a - b + of_nat (2 ^ k - 1)) < unat (2 ^ k * d)"
    unfolding hex_valid_def word_less_nat_alt by (simp add: algebra_simps)
  then have lt: "unat (a - b) + 2 ^ k \<le> 2 ^ k * unat d"
    using unat_aligned_add(1) [OF gs(2) al, of "2 ^ k - 1"] gs(1) by simp
  have g64: "2 ^ k * unat d < 2 ^ 64" using g by (simp add: hex_geometry_def)
  then have "unat (a - b + 2 ^ k) = unat (a - b) + 2 ^ k"
    using lt gs(3) by (simp add: unat_word_ariths)
  then have "a - b + 2 ^ k \<le> 2 ^ k * d" using lt gs(1) by (simp add: word_le_nat_alt)
  moreover have "a - b < 2 ^ k * d"
    using lt gs(1) zero_less_power [of "2::nat" k] unfolding word_less_nat_alt by linarith
  ultimately show ?thesis using inv gs(3) by (simp add: hex_check_def monad_simps)
qed

lemma hex_slot_touch:
  "hex_slot (hex_touch i h) j =
     (if j = i \<and> hex_slot h i = [] then replicate (unat (width h)) 0 else hex_slot h j)"
  by (auto simp: hex_touch_def hex_slot_def split: option.splits)

lemma hex_touch_sel [simp]:
  "base (hex_touch i h) = base h" "width (hex_touch i h) = width h" "depth (hex_touch i h) = depth h"
  by (simp_all add: hex_touch_def)

lemma hex_invar_touch:
  "hex_geometry b k d \<Longrightarrow> hex_invar b k d h \<Longrightarrow> hex_invar b k d (hex_touch i h)"
  by (auto simp: hex_invar_def hex_touch_def hex_slot_def geometry_size(3) split: option.splits if_splits)

lemma hex_no_empty_slot: "hex_invar b k d h \<Longrightarrow> hmem h i \<noteq> Some []"
  by (auto simp: hex_invar_def) (metis list.size(3) power_not_zero zero_neq_numeral)

lemma hex_mem_touch:
  assumes "hex_geometry b k d" "hex_invar b k d h"
  shows "hex_mem (hex_touch i h) = hex_mem h"
proof
  fix x
  have "unat ((x - base h) mod 2 ^ k) < 2 ^ k"
    using geometry_size(3) [OF assms(1)] by (simp add: unat_mod)
  then show "hex_mem (hex_touch i h) x = hex_mem h x"
    using assms(2) geometry_size(3) [OF assms(1)] hex_no_empty_slot [OF assms(2)]
    by (auto simp: hex_mem_def hex_touch_def hex_slot_def hex_invar_def split: option.splits)
qed

lemma hex_mem_slot:
  assumes "hex_geometry b k d" "hex_invar b k d h" "a AND (2 ^ k - 1) = 0" "i < 2 ^ k"
  shows "hex_mem h (a + of_nat i) =
    (case hmem h ((a - b) div 2 ^ k) of None \<Rightarrow> 0 | Some v \<Rightarrow> v ! i)"
proof -
  have "a + of_nat i - b = (a - b) + of_nat i" by simp
  note eq = this
  show ?thesis
    using slot_of_byte [OF geometry_size(2) [OF assms(1)] aligned_offset [OF assms(1,3)] assms(4)] assms(2)
    by (simp add: hex_mem_def hex_invar_def eq split: option.split)
qed

lemma hex_read_law:
  assumes g: "hex_geometry b k d" and i: "hex_invar b k d h" and a: "a AND (2 ^ k - 1) = 0"
    and v: "\<forall>i<2 ^ k. hex_valid b k d (a + of_nat i)"
  shows "\<exists>h'. hex_read_chunk a (2 ^ k) h = Some (Inr (load (hex_mem h) a (2 ^ k), h'))
    \<and> hex_invar b k d h' \<and> hex_mem h' = hex_mem h"
proof -
  let ?q = "(a - b) div 2 ^ k"
  have w: "base h = b" "width h = 2 ^ k" using i by (auto simp: hex_invar_def)
  have "hex_slot (hex_touch ?q h) ?q =
      (case hmem h ?q of None \<Rightarrow> replicate (2 ^ k) 0 | Some v \<Rightarrow> v)"
    using w geometry_size(3) [OF g] hex_no_empty_slot [OF i]
    by (auto simp: hex_slot_touch) (auto simp: hex_slot_def split: option.splits)
  then have slot: "map (\<lambda>j. hex_slot (hex_touch ?q h) ?q ! j) [0..<2 ^ k] = load (hex_mem h) a (2 ^ k)"
    using hex_mem_slot [OF g i a]
    by (intro nth_equalityI) (auto split: option.splits)
  have "hex_read_loop (a - b) (2 ^ k) h =
    Some (Inr (load (hex_mem h) a (2 ^ k), hex_touch ?q h))"
    using slot w geometry_size(3) [OF g]
    by (subst hex_read_loop.simps) (simp add: monad_simps hex_read_loop.simps [of _ 0])
  then show ?thesis
    using hex_check_passes [OF g i a v] w hex_invar_touch [OF g i] hex_mem_touch [OF g i]
    by (simp add: hex_read_chunk_def monad_simps)
qed

lemma hex_write_law:
  assumes g: "hex_geometry b k d" and i: "hex_invar b k d h" and a: "a AND (2 ^ k - 1) = 0"
    and v: "\<forall>i<2 ^ k. hex_valid b k d (a + of_nat i)" and l: "length bs = 2 ^ k"
  shows "\<exists>h'. hex_write_chunk a bs h = Some (Inr ((), h'))
    \<and> hex_invar b k d h' \<and> hex_mem h' = store (hex_mem h) a bs"
proof -
  let ?q = "(a - b) div 2 ^ k"
  define h' where "h' = h\<lparr>hmem := (hmem h)(?q \<mapsto> bs)\<rparr>"
  have w: "base h = b" "width h = 2 ^ k" using i by (auto simp: hex_invar_def)
  have "length (hex_slot (hex_touch ?q h) ?q) = 2 ^ k"
    using i w geometry_size(3) [OF g]
    by (auto simp: hex_slot_touch) (auto simp: hex_slot_def hex_invar_def split: option.splits)
  moreover have "map (\<lambda>j. bs ! j) [0..<2 ^ k] = bs" using l map_nth [of bs] by simp
  ultimately have "hex_write_loop (a - b) (2 ^ k) bs h = Some (Inr ((), h'))"
    using w geometry_size(3) [OF g]
    by (subst hex_write_loop.simps)
      (simp add: monad_simps hex_write_loop.simps [of _ 0] h'_def, simp add: hex_touch_def)
  moreover have i': "hex_invar b k d h'" using i l by (auto simp: hex_invar_def h'_def)
  moreover have "hex_mem h' = store (hex_mem h) a bs"
  proof
    fix x
    show "hex_mem h' x = store (hex_mem h) a bs x"
    proof (cases "unat (x - a) < 2 ^ k")
      case True
      then have "hex_mem h' (a + of_nat (unat (x - a))) = bs ! unat (x - a)"
        using hex_mem_slot [OF g i' a True] by (simp add: h'_def)
      with True l show ?thesis by (simp add: store_def)
    next
      case False
      then have "(x - b) div 2 ^ k \<noteq> ?q"
        using same_slot [OF geometry_size(2) [OF g] aligned_offset [OF g a]] by auto
      with False l w show ?thesis by (simp add: store_def hex_mem_def h'_def split: option.split)
    qed
  qed
  ultimately show ?thesis
    using hex_check_passes [OF g i a v] w l by (auto simp: hex_write_chunk_def monad_simps)
qed

section \<open>The writer is a chunk provider, clearing apart\<close>

lemma hex_valid_chunk:
  assumes g: "hex_geometry b k d" and x: "hex_valid b k d x"
    and eq: "x AND NOT (2 ^ k - 1) = y AND NOT (2 ^ k - 1)"
  shows "hex_valid b k d y"
proof -
  define c where "c = x AND NOT (2 ^ k - 1)"
  note gs = geometry_size [OF g]
  have "c AND (2 ^ k - 1) = 0" unfolding c_def by (intro bit_word_eqI) (simp add: bit_simps)
  then have al: "2 ^ k dvd unat (c - b)" using aligned_offset [OF g] by simp
  have split: "z - b = (c - b) + of_nat (unat z mod 2 ^ k)" if "z AND NOT (2 ^ k - 1) = c" for z
    using that and_not_align [of z k] by (simp add: algebra_simps)
  have quot: "unat (z - b) div 2 ^ k = unat (c - b) div 2 ^ k" if "z AND NOT (2 ^ k - 1) = c" for z
    unfolding split [OF that] using unat_aligned_add(2) [OF gs(2) al, of "unat z mod 2 ^ k"] by simp
  have "hex_valid b k d z \<longleftrightarrow> unat (z - b) div 2 ^ k < unat d" for z
    using gs(1) by (simp add: hex_valid_def word_less_nat_alt less_mult_imp_div_less div_less_iff_less_mult mult.commute)
  then show ?thesis using x quot [of x] quot [of y] eq by (simp add: c_def)
qed

lemma hex_chunk_rw:
  assumes g: "hex_geometry b k d"
  shows "chunk_rw hex_ops hex_mem (hex_invar b k d) (hex_valid b k d) k (2 ^ k)"
proof
  show "k < 64" using geometry_size [OF g] by simp
  show "hex_valid b k d y" if "hex_valid b k d x" "x AND NOT (2 ^ k - 1) = y AND NOT (2 ^ k - 1)" for x y
    using hex_valid_chunk [OF g that] .
  fix h :: hexwriter and a :: u64
  assume i: "hex_invar b k d h"
  show "chunk_align hex_ops h = 2 ^ k" "chunk_max_size hex_ops h = 2 ^ k"
    using i geometry_size(3) [OF g] by (auto simp: hex_ops_def hex_invar_def)
  assume a: "a AND (2 ^ k - 1) = 0"
  show "\<exists>s'. read_chunk hex_ops a n h = Some (Inr (load (hex_mem h) a n, s'))
      \<and> hex_invar b k d s' \<and> hex_mem s' = hex_mem h"
    if "2 ^ k dvd n" "0 < n" "n \<le> 2 ^ k" "\<forall>i<n. hex_valid b k d (a + of_nat i)" for n
  proof -
    have "n = 2 ^ k" using that dvd_imp_le [of "2 ^ k" n] by simp
    with hex_read_law [OF g i a] that show ?thesis by (simp add: hex_ops_def)
  qed
  show "\<exists>s'. write_chunk hex_ops a bs h = Some (Inr ((), s'))
      \<and> hex_invar b k d s' \<and> hex_mem s' = store (hex_mem h) a bs"
    if "2 ^ k dvd length bs" "bs \<noteq> []" "length bs \<le> 2 ^ k"
      "\<forall>i<length bs. hex_valid b k d (a + of_nat i)" for bs
  proof -
    have "length bs = 2 ^ k" using that dvd_imp_le [of "2 ^ k" "length bs"] by simp
    with hex_write_law [OF g i a] that show ?thesis by (simp add: hex_ops_def)
  qed
qed simp_all

text \<open>The geometry of a 64 KiB image at the start of DRAM in words of 16 bytes.\<close>

lemma dram_geometry: "hex_geometry 0x80000000 4 4096"
  by (simp add: hex_geometry_def)

interpretation hexw: chunk_rw hex_ops hex_mem "hex_invar 0x80000000 4 4096" "hex_valid 0x80000000 4 4096" 4 "2 ^ 4"
  by (rule hex_chunk_rw [OF dram_geometry])

lemma hex_clears_zero:
  assumes "hex_invar b k d h" "n \<le> 2 ^ 64" "\<forall>i<n. hex_mem h (a + of_nat i) = 0"
  shows "clears hex_ops (hex_invar b k d) hex_mem h a n"
proof -
  have "hex_mem h = store (hex_mem h) a (replicate n 0)"
  proof
    fix x
    have "hex_mem h (a + of_nat (unat (x - a))) = 0" if "unat (x - a) < n" using assms(3) that by blast
    then show "hex_mem h x = store (hex_mem h) a (replicate n 0) x" by (simp add: store_def)
  qed
  then show ?thesis using assms(1) by (simp add: clears_def hex_ops_def hex_clear_chunk_def monad_simps)
qed

section \<open>The printed image\<close>

definition hex_digit :: "nat \<Rightarrow> char" where
  "hex_digit n = ''0123456789abcdef'' ! n"

definition hex_byte :: "u8 \<Rightarrow> string" where
  "hex_byte c = [hex_digit (unat (drop_bit 4 c AND 0xF)), hex_digit (unat (c AND 0xF))]"

definition hex_line :: "hexwriter \<Rightarrow> u64 \<Rightarrow> string" where
  "hex_line h addr =
     (case hmem h addr of
        None \<Rightarrow> concat (map (\<lambda>j. ''00'') [0..<unat (width h)])
      | Some v \<Rightarrow> concat (map (\<lambda>j. hex_byte (v ! (unat (width h) - j - 1))) [0..<unat (width h)]))
     @ [CHR 0x0A]"

definition hex_output :: "hexwriter \<Rightarrow> string" where
  "hex_output h = concat (map (\<lambda>addr. hex_line h (of_nat addr)) [0..<unat (depth h)])"

text \<open>Reading a line of hexadecimal digits back.\<close>

definition digit_value :: "char \<Rightarrow> u8" where
  "digit_value c = of_nat (if c \<in> set ''abcdef'' then of_char c - 87 else of_char c - 48)"

fun unhex :: "string \<Rightarrow> u8 list" where
  "unhex (c # d # cs) = (push_bit 4 (digit_value c) OR digit_value d) # unhex cs"
| "unhex _ = []"

lemma digit_value_hex_digit: "n < 16 \<Longrightarrow> digit_value (hex_digit n) = of_nat n"
proof -
  have "list_all (\<lambda>n. digit_value (hex_digit n) = of_nat n) [0..<16]" by code_simp
  then show "n < 16 \<Longrightarrow> digit_value (hex_digit n) = of_nat n" by (simp add: list_all_iff)
qed

lemma low_nibble: "c AND 0xF = take_bit 4 (c :: u8)"
  by (simp add: take_bit_eq_mask mask_eq_exp_minus_1)

lemma nibble_less: "unat (take_bit 4 c :: u8) < 16"
proof -
  have "unat (take_bit 4 c) = take_bit 4 (unat c)" by (rule unsigned_take_bit_eq)
  then show ?thesis using take_bit_nat_less_exp [of 4 "unat c"] by simp
qed

lemma nibbles: "push_bit 4 (take_bit 4 (drop_bit 4 c)) OR take_bit 4 c = (c :: u8)"
  by (rule bit_word_eqI) (auto simp: bit_simps)

lemma unhex_hex_byte: "unhex (hex_byte c @ cs) = c # unhex cs"
  unfolding hex_byte_def low_nibble
  by (simp add: digit_value_hex_digit nibble_less nibbles del: push_bit_take_bit)

lemma unhex_concat: "unhex (concat (map hex_byte bs)) = bs"
  by (induction bs) (simp_all add: unhex_hex_byte)

lemma length_concat_hex_byte [simp]: "length (concat (map hex_byte bs)) = 2 * length bs"
  by (induction bs) (simp_all add: hex_byte_def)

lemma slice_concat:
  assumes "i < n" "\<And>i. i < n \<Longrightarrow> length (f i) = l"
  shows "take l (drop (i * l) (concat (map f [0..<n]))) = f i"
  using assms
proof (induction n arbitrary: i)
  case (Suc n)
  have len: "length (concat (map f [0..<m])) = m * l" if "m \<le> n" for m
    using that Suc.prems(2) by (induction m) simp_all
  show ?case
  proof (cases "i = n")
    case True
    then show ?thesis using Suc.prems(2) len [of n] by simp
  next
    case False
    then have i: "i < n" using Suc.prems(1) by simp
    then have "Suc i * l \<le> n * l" by (intro mult_le_mono1) simp
    then show ?thesis using Suc.IH [OF i] Suc.prems(2) len [of n] by simp
  qed
qed simp

text \<open>Line \<open>i\<close> shows the bytes of word \<open>i\<close>, most significant first.\<close>

lemma hex_line_bytes:
  assumes g: "hex_geometry b k d" and inv: "hex_invar b k d h" and i: "i < unat d"
  shows "hex_line h (of_nat i) =
    concat (map hex_byte (rev (load (hex_mem h) (b + of_nat (i * 2 ^ k)) (2 ^ k)))) @ [CHR 0x0A]"
proof -
  let ?a = "b + of_nat (i * 2 ^ k)"
  note gs = geometry_size [OF g]
  have "i * 2 ^ k < unat d * 2 ^ k" using i by simp
  moreover have "unat d * 2 ^ k < 2 ^ 64" using g by (simp add: hex_geometry_def mult.commute)
  ultimately have lt: "i * 2 ^ k < 2 ^ 64" by (rule less_trans)
  have "i < 2 ^ 64" using i unat64_less [of d] by simp
  with lt have slot: "(?a - b) div 2 ^ k = of_nat i"
    by (simp add: word_unat_eq_iff unat_div gs(3) del: of_nat_mult)
  have "b AND (2 ^ k - 1) = 0" using g by (simp add: hex_geometry_def)
  moreover have "(2::nat) ^ k dvd 2 ^ 64" using gs(2) by (intro le_imp_power_dvd) simp
  ultimately have "?a AND (2 ^ k - 1) = 0"
    using unat_add_mod [OF gs(2), of b "i * 2 ^ k"] unfolding aligned_iff by (auto elim!: dvdE)
  note byte = hex_mem_slot [OF g inv this, unfolded slot]
  have w: "unat (width h) = 2 ^ k" using inv gs(3) by (simp add: hex_invar_def)
  show ?thesis
  proof (cases "hmem h (of_nat i)")
    case None
    have "load (hex_mem h) ?a (2 ^ k) = replicate (2 ^ k) 0"
      using byte None by (intro nth_equalityI) auto
    moreover have "hex_byte 0 = ''00''" by code_simp
    moreover have "map (\<lambda>j. x) [0..<n] = replicate n x" for x :: string and n
      by (simp add: map_replicate_const)
    ultimately show ?thesis using None w by (simp add: hex_line_def)
  next
    case (Some v)
    then have v: "length v = 2 ^ k" using inv by (simp add: hex_invar_def)
    then have "load (hex_mem h) ?a (2 ^ k) = v" using byte Some by (intro nth_equalityI) auto
    moreover have "map (\<lambda>j. v ! (2 ^ k - j - 1)) [0..<2 ^ k] = rev v"
      using v by (intro nth_equalityI) (auto simp: rev_nth)
    then have "map (\<lambda>j. hex_byte (v ! (2 ^ k - j - 1))) [0..<2 ^ k] = map hex_byte (rev v)"
      by (metis (no_types) map_map comp_apply map_eq_conv)
    ultimately show ?thesis using Some w by (simp add: hex_line_def)
  qed
qed

lemma hex_output_decodes:
  assumes "hex_geometry b k d" "hex_invar b k d h" "i < unat d"
  shows "unhex (take (2 * 2 ^ k) (drop (i * (2 * 2 ^ k + 1)) (hex_output h)))
    = rev (load (hex_mem h) (b + of_nat (i * 2 ^ k)) (2 ^ k))"
proof -
  have dp: "depth h = d" using assms(2) by (simp add: hex_invar_def)
  have "take (2 * 2 ^ k + 1) (drop (i * (2 * 2 ^ k + 1)) (hex_output h)) = hex_line h (of_nat i)"
    unfolding hex_output_def dp
    by (rule slice_concat [OF assms(3)]) (simp add: hex_line_bytes [OF assms(1,2)])
  then have "take (2 * 2 ^ k) (take (2 * 2 ^ k + 1) (drop (i * (2 * 2 ^ k + 1)) (hex_output h)))
    = concat (map hex_byte (rev (load (hex_mem h) (b + of_nat (i * 2 ^ k)) (2 ^ k))))"
    using hex_line_bytes [OF assms] by simp
  then show ?thesis using unhex_concat by simp
qed

end
