(* ===== verification/Elf2hex.thy ===== *)
theory Elf2hex
  imports Elf Htif_hexwriter
begin

text \<open>
  The tool \<^verbatim>\<open>elf2hex\<close> (\<^verbatim>\<open>elf2hex.cc\<close>): it checks the geometry given on the command line, loads an
  ELF file into the image of a hex writer and prints the image.
\<close>

text \<open>
  \<^verbatim>\<open>atoi\<close> and \<^verbatim>\<open>atoll\<close>: white space, an optional sign, digits. A value outside the range of the
  result type, undefined in C, is truncated where the result is used.
\<close>

definition is_space :: "u8 \<Rightarrow> bool" where
  "is_space c \<longleftrightarrow> c = 0x20 \<or> (9 \<le> c \<and> c \<le> 13)"

definition digits :: "cstring \<Rightarrow> int" where
  "digits s = foldl (\<lambda>n c. 10 * n + (uint c - 48)) 0 (takeWhile (\<lambda>c. 48 \<le> c \<and> c \<le> 57) s)"

definition atoi :: "cstring \<Rightarrow> int" where
  "atoi s = (case dropWhile is_space s of
      [] \<Rightarrow> 0
    | c # cs \<Rightarrow> if c = 0x2D then - digits cs else if c = 0x2B then digits cs else digits (c # cs))"

text \<open>The result is the exit status; \<open>argv\<close> holds the program name too.\<close>

definition elf2hex :: "'o posix \<Rightarrow> cstring list \<Rightarrow> ('o, int) M" where
  "elf2hex os argv =
     (let fail = (\<lambda>msg. bindM (modifyM (os_stderr os (msg @ newline))) (\<lambda>_. return 1)) in
      if length argv < 4 \<or> 5 < length argv then
        fail (''Usage: '' @ unstr (argv ! 0) @ '' <width> <depth> <elf_file> [base]'')
      else
        let width = (of_int (atoi (argv ! 1)) :: u32) in
        if width = 0 \<or> width AND (width - 1) \<noteq> 0 then fail ''width must be a power of 2''
        else
          let base = (if length argv = 5 then of_int (atoi (argv ! 4)) else 0 :: u64) in
          if length argv = 5 \<and> base AND ucast (width - 1) \<noteq> 0 then fail ''base must be divisible by width''
          else
            let depth = (of_int (atoi (argv ! 2)) :: u32) in
            if depth = 0 \<or> depth AND (depth - 1) \<noteq> 0 then fail ''depth must be a power of 2''
            else (\<lambda>h. Option.bind
              (load_elf os (mem_write hex_ops) (argv ! 3)
                \<lparr>chunks = hexwriter_init base (ucast width) (ucast depth), host = h, fromhost_queue = []\<rparr>)
              (\<lambda>r. case r of Inl e \<Rightarrow> Some (Inl e)
                | Inr (_, s) \<Rightarrow> return 0 (os_stdout os (hex_output (chunks s)) (host s)))))"

section \<open>The geometry\<close>

lemma power_of_two_nat:
  "n \<noteq> 0 \<Longrightarrow> n AND (n - 1) = 0 \<Longrightarrow> \<exists>k. (n :: nat) = 2 ^ k"
proof (induction n rule: less_induct)
  case (less n)
  show ?case
  proof (cases "even n")
    case True
    then obtain m where m: "n = 2 * m" by blast
    with less.prems have "m \<noteq> 0" by simp
    then have d: "(n - 1) div 2 = m - 1" "odd (n - 1)" using m by (auto simp: odd_two_times_div_two_nat)
    have "n AND (n - 1) = 2 * (m AND (m - 1))"
      using d m by (subst and_nat_unfold) simp
    then obtain k where "m = 2 ^ k" using less.IH [of m] less.prems m \<open>m \<noteq> 0\<close> by auto
    then show ?thesis using m by (intro exI [of _ "Suc k"]) simp
  next
    case False
    then obtain m where m: "n = 2 * m + 1" by (elim oddE)
    have "n AND (n - 1) = 2 * (m AND m)" using m by (subst and_nat_unfold) simp
    then have "m = 0" using less.prems by simp
    then show ?thesis using m by (intro exI [of _ 0]) simp
  qed
qed

lemma unat_u32_less: "unat (w :: u32) < 2 ^ 32"
  using unsigned_less [of w] by simp

lemma power_of_two_u32:
  assumes "w \<noteq> 0" "w AND (w - 1) = (0 :: u32)"
  shows "\<exists>k < 32. unat w = 2 ^ k"
proof -
  have u: "unat (w - 1) = unat w - 1" using assms(1) by (rule unat_minus_one)
  have "unat (w AND (w - 1)) = unat w AND unat (w - 1)" by (simp add: unsigned_and_eq)
  then have "unat w AND (unat w - 1) = 0" using assms(2) u by simp
  moreover have "unat w \<noteq> 0" using assms(1) by (simp add: unat_eq_0)
  ultimately obtain k where k: "unat w = 2 ^ k" using power_of_two_nat by blast
  have "unat w < 2 ^ 32" by (rule unat_u32_less)
  then have "(2::nat) ^ k < 2 ^ 32" using k by simp
  then have "k < 32" by (simp only: power_strict_increasing_iff)
  with k show ?thesis by blast
qed

text \<open>Every geometry that the tool accepts is one for which the writer obeys the transfer laws.\<close>

lemma accepted_geometry:
  fixes width depth :: u32 and base :: u64
  assumes "width \<noteq> 0" "width AND (width - 1) = 0" "base AND ucast (width - 1) = 0"
  shows "\<exists>k. ucast width = (2 ^ k :: u64) \<and> hex_geometry base k (ucast depth)
    \<and> hex_invar base k (ucast depth) (hexwriter_init base (ucast width) (ucast depth))"
proof -
  obtain k where k: "k < 32" "unat width = 2 ^ k" using power_of_two_u32 [OF assms(1,2)] by blast
  have "(ucast width :: u64) = of_nat (unat width)" by simp
  then have w: "(ucast width :: u64) = 2 ^ k" using k by simp
  have "(ucast (width - 1) :: u64) = of_nat (unat (width - 1))" by simp
  also have "unat (width - 1) = 2 ^ k - 1" using unat_minus_one [OF assms(1)] k by simp
  finally have w1: "(ucast (width - 1) :: u64) = 2 ^ k - 1" by (simp add: of_nat_diff)
  have "unat depth < 2 ^ 32" by (rule unat_u32_less)
  then have "unat (ucast depth :: u64) < 2 ^ 32" by (simp add: unsigned_ucast_eq take_bit_nat_eq_self)
  moreover have "(2::nat) ^ k \<le> 2 ^ 32" using k(1) by (intro power_increasing) auto
  ultimately have "2 ^ k * unat (ucast depth :: u64) < 2 ^ 32 * 2 ^ 32"
    by (intro mult_le_less_imp_less) auto
  then have "hex_geometry base k (ucast depth)" using k(1) assms(3) w1 by (simp add: hex_geometry_def)
  moreover have "hex_invar base k (ucast depth) (hexwriter_init base (ucast width) (ucast depth))"
    using w by (simp add: hex_invar_def hexwriter_init_def)
  ultimately show ?thesis using w by blast
qed

end
