(* ===== verification/Htif.thy ===== *)
theory Htif
  imports Syscall Rfb Elf2hex
begin

text \<open>
  The host-target interface itself (\<^verbatim>\<open>htif.h\<close>, \<^verbatim>\<open>htif.cc\<close>): its state, the parsing of its options,
  the registration and the calling of devices, loading the program, the main loop and the
  signature written at the end.

  \<^verbatim>\<open>htif_t\<close> is abstract. What a derived class gives it is a record \<open>sub_htif\<close> of operations on the
  derived class's own state \<open>'m\<close>: the chunk operations, \<^verbatim>\<open>reset\<close>, \<^verbatim>\<open>idle\<close> and
  \<^verbatim>\<open>is_address_preloaded\<close>. \<^verbatim>\<open>getopt_long\<close> belongs to the C library and is a parameter too.
\<close>

section \<open>State\<close>

datatype dynamic = Dyn_rfb rfb_t | Dyn_disk disk_t

record ('m, 'o) htif = "('m, 'o) proxy" +
  entry :: u64
  sig_file :: cstring
  sig_addr :: u64
  sig_len :: u64
  tohost_addr :: u64
  fromhost_addr :: u64
  stopped :: bool
  device_list :: device_list_t
  bcd :: bcd_t
  dynamic_devices :: "dynamic list"

record 'm sub_htif =
  sub_chunks :: "'m chunked_memif"
  sub_reset :: "u64 \<Rightarrow> ('m, unit) M"
  sub_idle :: "('m, unit) M"
  sub_preloaded :: "u64 \<Rightarrow> nat \<Rightarrow> bool"

text \<open>One call of \<^verbatim>\<open>getopt_long\<close>: its result, \<^verbatim>\<open>optarg\<close>, and the library's next state; \<^verbatim>\<open>optind\<close>.\<close>

record 'g getopt =
  getopt_long :: "cstring list \<Rightarrow> bool \<Rightarrow> 'g \<Rightarrow> (i32 \<times> cstring option) \<times> 'g"
  optind :: "'g \<Rightarrow> nat"

definition dram_base :: u64 where "dram_base = 0x80000000"

section \<open>Devices\<close>

text \<open>Run an operation of a device on the device and the machine.\<close>

definition on_bcd :: "(bcd_t \<Rightarrow> (('m, 'o, 'z) htif_scheme, bcd_t) M) \<Rightarrow> (('m, 'o, 'z) htif_scheme, unit) M" where
  "on_bcd f = bindM (getM bcd) (\<lambda>b. bindM (f b) (\<lambda>b. modifyM (\<lambda>s. s\<lparr>bcd := b\<rparr>)))"

definition on_dynamic ::
  "nat \<Rightarrow> (dynamic \<Rightarrow> (('m, 'o, 'z) htif_scheme, dynamic) M) \<Rightarrow> (('m, 'o, 'z) htif_scheme, unit) M" where
  "on_dynamic i f = bindM (getM (\<lambda>s. dynamic_devices s ! i)) (\<lambda>d.
     bindM (f d) (\<lambda>d. modifyM (\<lambda>s. s\<lparr>dynamic_devices := (dynamic_devices s)[i := d]\<rparr>)))"

definition rfb_method ::
  "(rfb_t \<Rightarrow> (('m, 'o, 'z) htif_scheme, rfb_t) M) \<Rightarrow> dynamic \<Rightarrow> (('m, 'o, 'z) htif_scheme, dynamic) M" where
  "rfb_method f d = (case d of Dyn_rfb r \<Rightarrow> bindM (f r) (\<lambda>r. return (Dyn_rfb r))
     | Dyn_disk _ \<Rightarrow> throw Out_of_bounds)"

definition disk_method ::
  "(disk_t \<Rightarrow> (('m, 'o, 'z) htif_scheme, unit) M) \<Rightarrow> dynamic \<Rightarrow> (('m, 'o, 'z) htif_scheme, dynamic) M" where
  "disk_method f d = (case d of Dyn_disk k \<Rightarrow> bindM (f k) (\<lambda>_. return d)
     | Dyn_rfb _ \<Rightarrow> throw Out_of_bounds)"

fun dynamic_base :: "dynamic \<Rightarrow> device_t" where
  "dynamic_base (Dyn_rfb r) = rfb_device r"
| "dynamic_base (Dyn_disk d) = disk_device d"

fun dynamic_identity :: "dynamic \<Rightarrow> string" where
  "dynamic_identity (Dyn_rfb r) = rfb_identity"
| "dynamic_identity (Dyn_disk d) = disk_id d"

fun base_device :: "('m, 'o, 'z) htif_scheme \<Rightarrow> dev_id \<Rightarrow> device_t" where
  "base_device s Dev_null = null_device (device_list s)"
| "base_device s Dev_syscall = sc_device (syscall_proxy s)"
| "base_device s Dev_bcd = bcd_device (bcd s)"
| "base_device s (Dev_dynamic i) = dynamic_base (dynamic_devices s ! i)"

fun identity_of :: "('m, 'o, 'z) htif_scheme \<Rightarrow> dev_id \<Rightarrow> string" where
  "identity_of s Dev_null = ''''"
| "identity_of s Dev_syscall = syscall_identity"
| "identity_of s Dev_bcd = bcd_identity"
| "identity_of s (Dev_dynamic i) = dynamic_identity (dynamic_devices s ! i)"

text \<open>
  Calling the bound method. A method bound by one class is never in the table of another, which
  the last branches mark.
\<close>

definition run_handler :: "'m sub_htif \<Rightarrow> 'o posix \<Rightarrow> dev_id \<Rightarrow> handler \<Rightarrow> command_t \<Rightarrow>
    (('m, 'o, 'z) htif_scheme, unit) M" where
  "run_handler sub os dev h cmd =
     (case (h, dev) of
        (Handle_null, _) \<Rightarrow> handle_null_command cmd
      | (Handle_identify, _) \<Rightarrow>
          bindM (getM (\<lambda>s. (identity_of s dev, base_device s dev))) (\<lambda>(identity, d).
          handle_identify (sub_chunks sub) identity d cmd)
      | (Bcd_read, Dev_bcd) \<Rightarrow> on_bcd (\<lambda>b. return (bcd_handle_read cmd b))
      | (Bcd_write, Dev_bcd) \<Rightarrow> bcd_handle_write os cmd
      | (Syscall_handle, Dev_syscall) \<Rightarrow> handle_syscall (sub_chunks sub) os cmd
      | (Disk_read, Dev_dynamic i) \<Rightarrow> on_dynamic i (disk_method (\<lambda>d. disk_handle_read (sub_chunks sub) os d cmd))
      | (Disk_write, Dev_dynamic i) \<Rightarrow> on_dynamic i (disk_method (\<lambda>d. disk_handle_write (sub_chunks sub) os d cmd))
      | (Rfb_configure, Dev_dynamic i) \<Rightarrow> on_dynamic i (rfb_method (handle_configure os cmd))
      | (Rfb_set_address, Dev_dynamic i) \<Rightarrow> on_dynamic i (rfb_method (handle_set_address cmd))
      | _ \<Rightarrow> throw Out_of_bounds)"

definition handle_command :: "'m sub_htif \<Rightarrow> 'o posix \<Rightarrow> command_t \<Rightarrow> (('m, 'o, 'z) htif_scheme, unit) M" where
  "handle_command sub os cmd =
     bindM (getM (\<lambda>s. command_device (device_list s) cmd)) (\<lambda>dev.
     bindM (getM (\<lambda>s. device_handler (base_device s dev) cmd)) (\<lambda>h.
     bindM (liftE h) (\<lambda>h.
     run_handler sub os dev h cmd)))"

text \<open>A device without a \<^verbatim>\<open>tick\<close> of its own has the empty one.\<close>

definition tick_device :: "'m sub_htif \<Rightarrow> 'o posix \<Rightarrow> dev_id \<Rightarrow> (('m, 'o, 'z) htif_scheme, unit) M" where
  "tick_device sub os dev =
     (case dev of
        Dev_bcd \<Rightarrow> on_bcd (bcd_tick os)
      | Dev_dynamic i \<Rightarrow> on_dynamic i (\<lambda>d. case d of
            Dyn_rfb r \<Rightarrow> bindM (rfb_tick (sub_chunks sub) os r) (\<lambda>r. return (Dyn_rfb r))
          | Dyn_disk _ \<Rightarrow> return d)
      | _ \<Rightarrow> return ())"

definition tick_devices :: "'m sub_htif \<Rightarrow> 'o posix \<Rightarrow> (('m, 'o, 'z) htif_scheme, unit) M" where
  "tick_devices sub os =
     bindM (getM (\<lambda>s. num_devices (device_list s))) (\<lambda>n.
     forM (\<lambda>i. bindM (getM (\<lambda>s. devices (device_list s) ! i)) (tick_device sub os)) [0..<n])"

definition on_device_list :: "(device_list_t, unit) M \<Rightarrow> (('m, 'o, 'z) htif_scheme, unit) M" where
  "on_device_list = zoom device_list (\<lambda>l s. s\<lparr>device_list := l\<rparr>)"

definition register_devices :: "(('m, 'o, 'z) htif_scheme, unit) M" where
  "register_devices =
     bindM (on_device_list (register_device Dev_syscall)) (\<lambda>_.
     bindM (on_device_list (register_device Dev_bcd)) (\<lambda>_.
     bindM (getM (\<lambda>s. length (dynamic_devices s))) (\<lambda>n.
     forM (\<lambda>i. on_device_list (register_device (Dev_dynamic i))) [0..<n])))"

section \<open>Loading the program\<close>

definition cstr_slash :: u8 where "cstr_slash = 0x2F"

text \<open>\<^verbatim>\<open>PREFIX TARGET_DIR\<close>, fixed when the code is built, is the parameter \<open>pfx\<close>.\<close>

definition find_program :: "'o posix \<Rightarrow> cstring \<Rightarrow> cstring \<Rightarrow> (('m, 'o, 'z) htif_scheme, cstring) M" where
  "find_program os pfx targ =
     bindM (call (os_access os targ)) (\<lambda>r.
     if r = 0 then return targ
     else if cstr_slash \<notin> set targ then
       bindM (call (os_access os (pfx @ targ))) (\<lambda>r.
       return (if r = 0 then pfx @ targ else []))
     else return [])"

text \<open>The memory interface that skips preloaded ranges.\<close>

definition preload_aware_write :: "'m sub_htif \<Rightarrow> u64 \<Rightarrow> u8 list \<Rightarrow> (('m, 'o, 'z) htif_scheme, unit) M" where
  "preload_aware_write sub taddr src =
     (if \<not> sub_preloaded sub taddr (length src) then mem_write (sub_chunks sub) taddr src else return ())"

definition load_program :: "'m sub_htif \<Rightarrow> 'o posix \<Rightarrow> cstring \<Rightarrow> (('m, 'o, 'z) htif_scheme, unit) M" where
  "load_program sub os pfx =
     bindM (getM (\<lambda>s. hd (targs s))) (\<lambda>targ.
     bindM (find_program os pfx targ) (\<lambda>path.
     if path = [] then
       throw (Runtime_error (''could not open '' @ unstr targ
         @ '' (did you misspell it? If VCS, did you forget +permissive/+permissive-off?)''))
     else
       bindM (load_elf os (preload_aware_write sub) path) (\<lambda>(symbols, e).
       bindM (modifyM (\<lambda>s. s\<lparr>entry := e\<rparr>)) (\<lambda>_.
       bindM (case (symbols (str ''tohost''), symbols (str ''fromhost'')) of
           (Some t, Some f) \<Rightarrow> modifyM (\<lambda>s. s\<lparr>tohost_addr := t, fromhost_addr := f\<rparr>)
         | _ \<Rightarrow> modifyM (\<lambda>s. s\<lparr>host := os_stderr os
             (''warning: tohost and fromhost symbols not in ELF; can't communicate with target'' @ newline) (host s)\<rparr>)) (\<lambda>_.
       case (symbols (str ''begin_signature''), symbols (str ''end_signature'')) of
         (Some b, Some e) \<Rightarrow> modifyM (\<lambda>s. s\<lparr>sig_addr := b, sig_len := e - b\<rparr>)
       | _ \<Rightarrow> return ())))))"

definition start :: "'m sub_htif \<Rightarrow> 'o posix \<Rightarrow> cstring \<Rightarrow> (('m, 'o, 'z) htif_scheme, unit) M" where
  "start sub os pfx =
     bindM (getM targs) (\<lambda>ts.
     bindM (if ts \<noteq> [] \<and> hd ts \<noteq> str ''none'' then load_program sub os pfx else return ()) (\<lambda>_.
     bindM (getM entry) (\<lambda>e.
     on_chunks (sub_reset sub e))))"

section \<open>The signature\<close>

definition signature_line :: "u8 list \<Rightarrow> nat \<Rightarrow> string" where
  "signature_line buf i = concat (map (\<lambda>j. hex_byte (buf ! (i + j - 1))) (rev [1..<17])) @ newline"

definition signature_text :: "u8 list \<Rightarrow> string" where
  "signature_text buf = concat (map (\<lambda>k. signature_line buf (16 * k)) [0..<length buf div 16])"

text \<open>
  The file is written as a whole here. When its length is not a multiple of 16 the assertion
  stops the program after the file was opened.
\<close>

definition stop :: "'m sub_htif \<Rightarrow> 'o posix \<Rightarrow> (('m, 'o, 'z) htif_scheme, unit) M" where
  "stop sub os =
     bindM (getM (\<lambda>s. (sig_file s, sig_addr s, sig_len s))) (\<lambda>(file, addr, len).
     bindM (if file \<noteq> [] \<and> len \<noteq> 0 then
         bindM (vector_alloc len) (\<lambda>buf.
         bindM (mem_read (sub_chunks sub) addr (length buf)) (\<lambda>buf.
         bindM (call (os_write_file os file (if len mod 16 = 0 then signature_text buf else ''''))) (\<lambda>sigs.
         bindM (assertM sigs ''sigs && can't open signature file!'') (\<lambda>_.
         assertM (len mod 16 = 0) ''sig_len % incr == 0''))))
       else return ()) (\<lambda>_.
     modifyM (\<lambda>s. s\<lparr>stopped := True\<rparr>)))"

section \<open>The main loop\<close>

definition read_word :: "'m sub_htif \<Rightarrow> u64 \<Rightarrow> (('m, 'o, 'z) htif_scheme, u64) M" where
  "read_word sub addr = on_chunks (read_uint64 (sub_chunks sub) addr)"

definition write_word :: "'m sub_htif \<Rightarrow> u64 \<Rightarrow> u64 \<Rightarrow> (('m, 'o, 'z) htif_scheme, unit) M" where
  "write_word sub addr x = on_chunks (write_uint64 (sub_chunks sub) addr x)"

text \<open>Deliver the oldest response when the target has taken the last one.\<close>

definition deliver :: "'m sub_htif \<Rightarrow> (('m, 'o, 'z) htif_scheme, unit) M" where
  "deliver sub =
     bindM (getM fromhost_queue) (\<lambda>q.
     case q of
       [] \<Rightarrow> return ()
     | r # q' \<Rightarrow>
         bindM (getM fromhost_addr) (\<lambda>addr.
         bindM (read_word sub addr) (\<lambda>v.
         if v = 0 then
           bindM (write_word sub addr r) (\<lambda>_. modifyM (\<lambda>s. s\<lparr>fromhost_queue := q'\<rparr>))
         else return ())))"

definition run_step :: "'m sub_htif \<Rightarrow> 'o posix \<Rightarrow> (('m, 'o, 'z) htif_scheme, unit) M" where
  "run_step sub os =
     bindM (getM tohost_addr) (\<lambda>addr.
     bindM (read_word sub addr) (\<lambda>w.
     bindM (if w \<noteq> 0 then
         bindM (write_word sub addr 0) (\<lambda>_. handle_command sub os \<lparr>tohost = w\<rparr>)
       else on_chunks (sub_idle sub)) (\<lambda>_.
     bindM (tick_devices sub os) (\<lambda>_.
     deliver sub))))"

partial_function (option) run_loop :: "'m sub_htif \<Rightarrow> 'o posix \<Rightarrow> ('m, 'o, 'z) htif_scheme \<Rightarrow>
    (error + unit \<times> ('m, 'o, 'z) htif_scheme) option" where
  "run_loop sub os s =
     bindM (call (os_signal_exit os))
       (\<lambda>sig s. if \<not> sig \<and> exitcode s = 0 then bindM (run_step sub os) (\<lambda>_ s. run_loop sub os s) s
         else return () s) s"

definition run :: "'m sub_htif \<Rightarrow> 'o posix \<Rightarrow> cstring \<Rightarrow> (('m, 'o, 'z) htif_scheme, int) M" where
  "run sub os pfx =
     bindM (start sub os pfx) (\<lambda>_.
     bindM (modifyM (\<lambda>s. s\<lparr>fromhost_queue := []\<rparr>)) (\<lambda>_.
     bindM (getM tohost_addr) (\<lambda>addr.
     bindM (if addr = 0 then while_loop (\<lambda>_. True) (on_chunks (sub_idle sub)) else return ()) (\<lambda>_.
     bindM (run_loop sub os) (\<lambda>_.
     bindM (stop sub os) (\<lambda>_.
     getM (\<lambda>s. sint (exit_code s))))))))"

definition htif_done :: "('m, 'o, 'z) htif_scheme \<Rightarrow> bool" where
  "htif_done s = stopped s"

section \<open>Construction and options\<close>

definition null_device_new :: "('s, device_t) M" where
  "null_device_new = build_device device_ctor"

text \<open>
  The first constructor. The members are built in the order of their declaration: the list of
  devices, the proxy, the character device. Installing the signal handlers is the host's.
\<close>

definition htif_new :: "'o posix \<Rightarrow> 'm \<Rightarrow> ('o, ('m, 'o) htif) M" where
  "htif_new os m =
     bindM null_device_new (\<lambda>null.
     bindM (syscall_new os) (\<lambda>proxy.
     bindM (\<lambda>h. Option.bind (bcd_ctor raw_bcd)
         (\<lambda>r. case r of Inl e \<Rightarrow> Some (Inl e) | Inr (_, b) \<Rightarrow> return b h)) (\<lambda>b.
     (\<lambda>h. return \<lparr>chunks = m, host = h, fromhost_queue = [], exitcode = 0, targs = [], syscall_proxy = proxy,
       entry = dram_base, sig_file = [], sig_addr = 0, sig_len = 0, tohost_addr = 0, fromhost_addr = 0,
       stopped = False, device_list = device_list_new null, bcd = b, dynamic_devices = []\<rparr> h))))"

definition usage_options :: string where
  "usage_options =
    ''HOST OPTIONS'' @ newline
    @ ''  -h, --help               Display this help and exit'' @ newline
    @ ''       +permissive         The host will ignore any unparsed options up until'' @ newline
    @ ''                             +permissive-off (Only needed for VCS)'' @ newline
    @ ''       +permissive-off     Stop ignoring options. This is mandatory if using'' @ newline
    @ ''                             +permissive (Only needed for VCS)'' @ newline
    @ ''      --rfb=DISPLAY        Add new remote frame buffer on display DISPLAY'' @ newline
    @ ''       +rfb=DISPLAY          to be accessible on 5900 + DISPLAY (default = 0)'' @ newline
    @ ''      --signature=FILE     Write torture test signature to FILE'' @ newline
    @ ''       +signature=FILE'' @ newline
    @ ''      --chroot=PATH        Use PATH as location of syscall-servicing binaries'' @ newline
    @ ''       +chroot=PATH'' @ newline @ newline
    @ ''HOST OPTIONS (currently unsupported)'' @ newline
    @ ''      --disk=DISK          Add DISK device. Use a ramdisk since this isn't'' @ newline
    @ ''       +disk=DISK            supported'' @ newline @ newline
    @ ''TARGET (RISC-V BINARY) OPTIONS'' @ newline
    @ ''  These are the options passed to the program executing on the emulated RISC-V'' @ newline
    @ ''  microprocessor.'' @ newline"

definition usage_text :: "string \<Rightarrow> string" where
  "usage_text program_name =
    ''Usage: '' @ program_name
    @ '' [EMULATOR OPTION]... [VERILOG PLUSARG]... [HOST OPTION]... BINARY [TARGET OPTION]...'' @ newline @ '' ''
    @ ''Run a BINARY on the Rocket Chip emulator.'' @ newline @ newline
    @ ''Mandatory arguments to long options are mandatory for short options too.'' @ newline @ newline
    @ ''EMULATOR OPTIONS'' @ newline
    @ ''  Consult emulator.cc if using Verilator or VCS documentation if using VCS'' @ newline
    @ ''    for available options.'' @ newline
    @ ''EMUALTOR VERILOG PLUSARGS'' @ newline
    @ ''  Consult generated-src*/*.plusArgs for available options'' @ newline
    @ newline @ usage_options"

definition usage :: "'o posix \<Rightarrow> cstring \<Rightarrow> (('m, 'o, 'z) htif_scheme, unit) M" where
  "usage os program_name = modifyM (\<lambda>s. s\<lparr>host := os_stdout os (usage_text (unstr program_name)) (host s)\<rparr>)"

text \<open>What one option asks for next: go on with \<^verbatim>\<open>opterr\<close> set so, or stop processing.\<close>

datatype parse_next = Go_on bool | Stop_here

definition opt_rfb :: i32 where "opt_rfb = 1024"
definition opt_disk :: i32 where "opt_disk = 1025"
definition opt_signature :: i32 where "opt_signature = 1026"
definition opt_chroot :: i32 where "opt_chroot = 1027"

definition has_prefix :: "string \<Rightarrow> cstring \<Rightarrow> bool" where
  "has_prefix p arg \<longleftrightarrow> take (length p) arg = str p"

text \<open>The switch on the result of \<^verbatim>\<open>getopt_long\<close>, its case 1 aside.\<close>

definition parse_switch ::
  "'o posix \<Rightarrow> cstring \<Rightarrow> bool \<Rightarrow> i32 \<Rightarrow> cstring option \<Rightarrow> (('m, 'o, 'z) htif_scheme, parse_next) M" where
  "parse_switch os program_name opterr c optarg =
     (if c = 0x68 then
        bindM (usage os program_name) (\<lambda>_. throw (Invalid_argument ''User quered htif_t help text''))
      else if c = opt_rfb then
        bindM (rfb_new (case optarg of Some a \<Rightarrow> atoi a | None \<Rightarrow> 0)) (\<lambda>r.
        bindM (modifyM (\<lambda>s. s\<lparr>dynamic_devices := dynamic_devices s @ [Dyn_rfb r]\<rparr>)) (\<lambda>_.
        return (Go_on opterr)))
      else if c = opt_disk then
        throw (Invalid_argument ''--disk/+disk unsupported (use a ramdisk)'')
      else if c = opt_signature then
        bindM (modifyM (\<lambda>s. s\<lparr>sig_file := the optarg\<rparr>)) (\<lambda>_. return (Go_on opterr))
      else if c = opt_chroot then
        bindM (set_chroot os (the optarg)) (\<lambda>_. return (Go_on opterr))
      else if c = 0x3F then
        if \<not> opterr then return (Go_on opterr)
        else throw (Invalid_argument ''Unknown argument (did you mean to enable +permissive parsing?)'')
      else return (Go_on opterr))"

text \<open>Case 1: an argument that is no option. A plus argument becomes the option it stands for.\<close>

definition parse_plus ::
  "'o posix \<Rightarrow> cstring \<Rightarrow> bool \<Rightarrow> cstring \<Rightarrow> (('m, 'o, 'z) htif_scheme, parse_next) M" where
  "parse_plus os program_name opterr arg =
     (if arg = str ''+rfb'' then parse_switch os program_name opterr opt_rfb None
      else if has_prefix ''+rfb='' arg then parse_switch os program_name opterr opt_rfb (Some (drop 5 arg))
      else if has_prefix ''+disk='' arg then parse_switch os program_name opterr opt_disk (Some (drop 6 arg))
      else if has_prefix ''+signature='' arg then parse_switch os program_name opterr opt_signature (Some (drop 11 arg))
      else if has_prefix ''+chroot='' arg then parse_switch os program_name opterr opt_chroot (Some (drop 8 arg))
      else if has_prefix ''+permissive-off'' arg then
        if opterr then throw (Invalid_argument ''Found +permissive-off when not parsing permissively'')
        else return (Go_on True)
      else if has_prefix ''+permissive'' arg then
        if \<not> opterr then throw (Invalid_argument ''Found +permissive when already parsing permissively'')
        else return (Go_on False)
      else if \<not> opterr then return (Go_on opterr)
      else return Stop_here)"

text \<open>The loop; its result is \<^verbatim>\<open>optind\<close> after it.\<close>

partial_function (option) parse_loop ::
  "'g getopt \<Rightarrow> 'o posix \<Rightarrow> cstring list \<Rightarrow> bool \<Rightarrow> 'g \<Rightarrow> ('m, 'o, 'z) htif_scheme \<Rightarrow>
   (error + nat \<times> ('m, 'o, 'z) htif_scheme) option" where
  "parse_loop lib os argv opterr g s =
     (let ((c, optarg), g) = getopt_long lib argv opterr g in
      if c = -1 then return (optind lib g) s
      else
        bindM (if c = 1 then parse_plus os (argv ! 0) opterr (the optarg)
               else parse_switch os (argv ! 0) opterr c optarg)
          (\<lambda>next_step s. case next_step of
              Go_on opterr \<Rightarrow> parse_loop lib os argv opterr g s
            | Stop_here \<Rightarrow> return (optind lib g - 1) s) s)"

definition parse_arguments ::
  "'g getopt \<Rightarrow> 'g \<Rightarrow> 'o posix \<Rightarrow> bool \<Rightarrow> cstring list \<Rightarrow> (('m, 'o, 'z) htif_scheme, unit) M" where
  "parse_arguments lib g os opterr argv =
     bindM (parse_loop lib os argv opterr g) (\<lambda>optind.
     bindM (modifyM (\<lambda>s. s\<lparr>targs := targs s @ drop optind argv\<rparr>)) (\<lambda>_.
     bindM (getM targs) (\<lambda>ts.
     if length ts = 0 then
       bindM (usage os (argv ! 0)) (\<lambda>_.
       throw (Invalid_argument (''No binary specified (Did you forget it? ''
         @ ''Did you forget '+permissive-off' if running with +permissive?)'')))
     else return ())))"

text \<open>The two other constructors.\<close>

definition htif_new_argv ::
  "'g getopt \<Rightarrow> 'g \<Rightarrow> 'o posix \<Rightarrow> bool \<Rightarrow> 'm \<Rightarrow> cstring list \<Rightarrow> 'o \<Rightarrow> (unit \<times> ('m, 'o) htif) result" where
  "htif_new_argv lib g os opterr m argv h =
     Option.bind (htif_new os m h) (\<lambda>r. case r of Inl e \<Rightarrow> Some (Inl e)
       | Inr (s, h) \<Rightarrow> bindM (parse_arguments lib g os opterr argv) (\<lambda>_. register_devices) (s\<lparr>host := h\<rparr>))"

definition htif_new_args ::
  "'g getopt \<Rightarrow> 'g \<Rightarrow> 'o posix \<Rightarrow> bool \<Rightarrow> 'm \<Rightarrow> cstring list \<Rightarrow> 'o \<Rightarrow> (unit \<times> ('m, 'o) htif) result" where
  "htif_new_args lib g os opterr m args h = htif_new_argv lib g os opterr m (str ''htif'' # args) h"

text \<open>The destructor deletes the dynamic devices.\<close>

definition delete_dynamic :: "'o posix \<Rightarrow> dynamic \<Rightarrow> (('m, 'o, 'z) htif_scheme, unit) M" where
  "delete_dynamic os d = (case d of
     Dyn_rfb r \<Rightarrow> bindM (rfb_delete os r) (\<lambda>_. return ())
   | Dyn_disk k \<Rightarrow> disk_delete os k)"

definition htif_delete :: "'o posix \<Rightarrow> (('m, 'o, 'z) htif_scheme, unit) M" where
  "htif_delete os = bindM (getM dynamic_devices) (forM (delete_dynamic os))"

text \<open>
  The signal handler: the first \<^verbatim>\<open>SIGINT\<close> or \<^verbatim>\<open>SIGTERM\<close> asks the loop to end, a second one, or
  \<^verbatim>\<open>SIGABRT\<close>, ends the process. The flag is what \<open>os_signal_exit\<close> observes.
\<close>

definition SIGABRT :: i32 where "SIGABRT = 6"

definition handle_signal :: "i32 \<Rightarrow> bool \<Rightarrow> error + bool" where
  "handle_signal sig signal_exit =
     (if sig = SIGABRT \<or> signal_exit then Inl (Exit_process (- 1)) else Inr True)"

end
