(* ===== verification/Elf_facts.thy ===== *)
theory Elf_facts
  imports Elf
begin

text \<open>
  What an ELF file says and that the loader (\<^verbatim>\<open>elfloader.cc\<close>) does it: the sections and symbols of a
  file are given here without the loops and checks of the code, and for well-formed files the code
  returns them, puts the segments into memory and returns the entry point.
\<close>

section \<open>The sections of a file\<close>

definition table_at :: "(u8 list \<Rightarrow> 'b) \<times> nat \<Rightarrow> u8 list \<Rightarrow> nat \<Rightarrow> nat \<Rightarrow> 'b" where
  "table_at t buf off i = fst t (take (snd t) (drop (off + i * snd t) buf))"

definition shdrs :: "'a::len word elf_class \<Rightarrow> u8 list \<Rightarrow> 'a word ehdr \<Rightarrow> 'a word shdr list" where
  "shdrs cls buf eh = map (table_at (shdr_t cls) buf (unat (e_shoff eh))) [0..<unat (e_shnum eh)]"

definition syms :: "'a::len word elf_class \<Rightarrow> u8 list \<Rightarrow> 'a word shdr \<Rightarrow> 'a word sym list" where
  "syms cls buf symtab = map (table_at (sym_t cls) buf (unat (sh_offset symtab)))
     [0..<unat (sh_size symtab) div snd (sym_t cls)]"

text \<open>A string of a string table, and when it ends inside of the table.\<close>

definition name_in :: "u8 list \<Rightarrow> 'a::len word shdr \<Rightarrow> u32 \<Rightarrow> cstring" where
  "name_in buf strs k = c_string buf (unat (sh_offset strs) + unat k)"

definition name_ok :: "u8 list \<Rightarrow> 'a::len word shdr \<Rightarrow> u32 \<Rightarrow> bool" where
  "name_ok buf strs k \<longleftrightarrow> unat k < unat (sh_size strs) \<and>
     0 \<in> set (take (unat (sh_size strs) - unat k) (drop (unat (sh_offset strs) + unat k) buf))"

definition region_ok :: "u8 list \<Rightarrow> 'a::len word shdr \<Rightarrow> bool" where
  "region_ok buf sh \<longleftrightarrow> unat (sh_offset sh) + unat (sh_size sh) \<le> length buf"

text \<open>The section with a name, the last one when there are several; 0 stands for none.\<close>

definition has_name :: "u8 list \<Rightarrow> 'a::len word shdr \<Rightarrow> cstring \<Rightarrow> 'a word shdr \<Rightarrow> bool" where
  "has_name buf strs n sh \<longleftrightarrow> sh_type sh AND sht_nobits = 0 \<and> name_in buf strs (sh_name sh) = n"

definition section_index :: "('a \<Rightarrow> bool) \<Rightarrow> 'a list \<Rightarrow> nat" where
  "section_index P l = (case rev (filter (\<lambda>i. P (l ! i)) [0..<length l]) of [] \<Rightarrow> 0 | i # _ \<Rightarrow> i)"

definition symbol_map :: "u8 list \<Rightarrow> 'a::len word shdr \<Rightarrow> 'a word sym list \<Rightarrow> (cstring \<rightharpoonup> u64)" where
  "symbol_map buf strtab l = map_of (rev (map (\<lambda>y. (name_in buf strtab (st_name y), ucast (st_value y))) l))"

text \<open>What the file says: the index of both tables, and the symbols.\<close>

definition strs_of :: "'a::len word elf_class \<Rightarrow> u8 list \<Rightarrow> 'a word ehdr \<Rightarrow> 'a word shdr" where
  "strs_of cls buf eh = shdrs cls buf eh ! unat (e_shstrndx eh)"

definition section_named :: "'a::len word elf_class \<Rightarrow> u8 list \<Rightarrow> 'a word ehdr \<Rightarrow> cstring \<Rightarrow> nat" where
  "section_named cls buf eh n = section_index (has_name buf (strs_of cls buf eh) n) (shdrs cls buf eh)"

definition file_symbols :: "'a::len word elf_class \<Rightarrow> u8 list \<Rightarrow> 'a word ehdr \<Rightarrow> (cstring \<rightharpoonup> u64)" where
  "file_symbols cls buf eh =
     (let i = section_named cls buf eh (str ''.strtab''); j = section_named cls buf eh (str ''.symtab'') in
      if i = 0 \<or> j = 0 then Map.empty
      else symbol_map buf (shdrs cls buf eh ! i) (syms cls buf (shdrs cls buf eh ! j)))"

definition sections_ok :: "'a::len word elf_class \<Rightarrow> u8 list \<Rightarrow> 'a word ehdr \<Rightarrow> bool" where
  "sections_ok cls buf eh \<longleftrightarrow>
     unat (e_shoff eh) + unat (e_shnum eh) * snd (shdr_t cls) \<le> length buf \<and> e_shstrndx eh < e_shnum eh \<and>
     (let strs = strs_of cls buf eh in
      region_ok buf strs \<and> unat (sh_size strs) < 2 ^ 32 \<and>
      (\<forall>sh \<in> set (shdrs cls buf eh). name_ok buf strs (sh_name sh) \<and> (sh_type sh AND sht_nobits = 0 \<longrightarrow> region_ok buf sh)))"

definition symbols_ok :: "'a::len word elf_class \<Rightarrow> u8 list \<Rightarrow> 'a word ehdr \<Rightarrow> bool" where
  "symbols_ok cls buf eh \<longleftrightarrow>
     (let i = section_named cls buf eh (str ''.strtab''); j = section_named cls buf eh (str ''.symtab'');
          strtab = shdrs cls buf eh ! i; symtab = shdrs cls buf eh ! j in
      i = 0 \<or> j = 0 \<or> unat (sh_size strtab) < 2 ^ 32 \<and> (\<forall>y \<in> set (syms cls buf symtab). name_ok buf strtab (st_name y)))"

lemma elem_table: "unat off + n * snd t \<le> length buf \<Longrightarrow> i < n \<Longrightarrow> elem_at t buf off i = Inr (table_at t buf (unat off) i)"
proof -
  assume a: "unat off + n * snd t \<le> length buf" "i < n"
  then have "Suc i * snd t \<le> n * snd t" by (intro mult_le_mono1) simp
  then show ?thesis using a(1) by (simp add: elem_at_def struct_at_def bytes_at_def table_at_def)
qed

text \<open>The check of a name passes.\<close>

lemma strnlen_OK:
  assumes "0 \<in> set (take n (drop off buf))"
  shows "\<exists>k < n. strnlen buf off n = Inr k"
proof -
  let ?t = "take n (drop off buf)"
  let ?k = "length (takeWhile (\<lambda>c. c \<noteq> 0) ?t)"
  have k: "?k < length ?t"
  proof -
    have "0 \<in> set t \<Longrightarrow> length (takeWhile (\<lambda>c. c \<noteq> 0) t) < length t" for t :: "u8 list" by (induction t) auto
    then show ?thesis using assms by blast
  qed
  then have "?k < n" by simp
  then show ?thesis using k by (intro exI [of _ ?k]) (simp add: strnlen_def Let_def)
qed

lemma max_len_OK:
  fixes strs :: "'a::len word shdr"
  assumes "32 \<le> LENGTH('a)" "unat k < unat (sh_size strs)" "unat (sh_size strs) < 2 ^ 32"
  shows "unat (ucast (sh_size strs - ucast k) :: u32) = unat (sh_size strs) - unat (k :: u32)"
proof -
  have "unat k < 2 ^ 32" using unsigned_less [of k] by simp
  also have "(2 :: nat) ^ 32 \<le> 2 ^ LENGTH('a)" using assms(1) by (intro power_increasing) simp_all
  finally have u: "unat (ucast k :: 'a word) = unat k" by (simp add: unsigned_ucast_eq take_bit_nat_eq_self)
  have "unat (sh_size strs - ucast k) = unat (sh_size strs) - unat k"
    using assms(2) u by (simp add: unat_sub_if_size)
  then show ?thesis using assms(3) by (simp add: unsigned_ucast_eq take_bit_nat_eq_self)
qed

text \<open>The section loop finds the indices.\<close>

definition note_section :: "('a \<Rightarrow> bool) \<Rightarrow> 'a list \<Rightarrow> nat \<Rightarrow> nat \<Rightarrow> nat" where
  "note_section P l i k = (if P (l ! i) then i else k)"

lemma section_index_fold: "section_index P l = fold (note_section P l) [0..<length l] 0"
proof -
  have "fold (note_section P l) xs k = (case rev (filter (\<lambda>i. P (l ! i)) xs) of [] \<Rightarrow> k | i # _ \<Rightarrow> i)" for xs k
    by (induction xs arbitrary: k rule: rev_induct) (auto simp: note_section_def)
  then show ?thesis by (simp add: section_index_def)
qed

lemma scan_section_OK:
  fixes cls :: "'a::len word elf_class"
  assumes w: "32 \<le> LENGTH('a)" and ok: "sections_ok cls buf eh" and i: "i < unat (e_shnum eh)"
  shows "scan_section cls buf eh (strs_of cls buf eh) i (a, b) = Some (Inr ((),
    (note_section (has_name buf (strs_of cls buf eh) (str ''.strtab'')) (shdrs cls buf eh) i a,
     note_section (has_name buf (strs_of cls buf eh) (str ''.symtab'')) (shdrs cls buf eh) i b)))"
proof -
  let ?strs = "strs_of cls buf eh" and ?sh = "shdrs cls buf eh ! i"
  have el: "elem_at (shdr_t cls) buf (e_shoff eh) i = Inr ?sh"
    using ok i elem_table [of "e_shoff eh" "unat (e_shnum eh)" "shdr_t cls" buf i] by (simp add: sections_ok_def shdrs_def)
  have mem: "?sh \<in> set (shdrs cls buf eh)" using i by (simp add: shdrs_def)
  have s: "name_ok buf ?strs (sh_name ?sh)" "unat (sh_size ?strs) < 2 ^ 32"
    "sh_type ?sh AND sht_nobits = 0 \<longrightarrow> region_ok buf ?sh"
    using ok mem by (simp_all add: sections_ok_def Let_def)
  note n = s(1) [unfolded name_ok_def]
  note ml = max_len_OK [OF w conjunct1 [OF n] s(2)]
  obtain k where k: "k < unat (sh_size ?strs) - unat (sh_name ?sh)"
    "strnlen buf (unat (sh_offset ?strs) + unat (sh_name ?sh)) (unat (sh_size ?strs) - unat (sh_name ?sh)) = Inr k"
    using strnlen_OK [OF conjunct2 [OF n]] by blast
  have r: "unat (sh_offset ?sh + sh_size ?sh) \<le> length buf" if "sh_type ?sh AND sht_nobits = 0"
    using s(3) that unat_add_le [of "sh_offset ?sh" "sh_size ?sh"] by (simp add: region_ok_def)
  show ?thesis
    using n k r by (simp add: scan_section_def el Let_def ml monad_simps note_section_def has_name_def name_in_def)
qed

lemma scan_sections_OK:
  fixes cls :: "'a::len word elf_class"
  assumes "32 \<le> LENGTH('a)" and "sections_ok cls buf eh"
  shows "forM (scan_section cls buf eh (strs_of cls buf eh)) [0..<unat (e_shnum eh)] (0, 0) = Some (Inr ((),
    (section_named cls buf eh (str ''.strtab''), section_named cls buf eh (str ''.symtab''))))"
proof -
  let ?f = "\<lambda>n. note_section (has_name buf (strs_of cls buf eh) n) (shdrs cls buf eh)"
  have "forM (scan_section cls buf eh (strs_of cls buf eh)) xs (a, b) =
      Some (Inr ((), (fold (?f (str ''.strtab'')) xs a, fold (?f (str ''.symtab'')) xs b)))"
    if "set xs \<subseteq> {..<unat (e_shnum eh)}" for xs a b
    using that by (induction xs arbitrary: a b) (simp_all add: monad_simps scan_section_OK [OF assms])
  from this [of "[0..<unat (e_shnum eh)]"] show ?thesis
    by (simp add: section_named_def section_index_fold shdrs_def lessThan_atLeast0)
qed

text \<open>The symbol loop builds the map.\<close>

lemma read_symbol_OK:
  fixes cls :: "'a::len word elf_class"
  assumes w: "32 \<le> LENGTH('a)" and tab: "elem_at (sym_t cls) buf (sh_offset symtab) i = Inr y"
    and n: "name_ok buf strtab (st_name y)" and z: "unat (sh_size strtab) < 2 ^ 32"
  shows "read_symbol cls buf strtab symtab i f = Some (Inr ((), f(name_in buf strtab (st_name y) \<mapsto> ucast (st_value y))))"
proof -
  note n = n [unfolded name_ok_def]
  note ml = max_len_OK [OF w conjunct1 [OF n] z]
  obtain k where k: "k < unat (sh_size strtab) - unat (st_name y)"
    "strnlen buf (unat (sh_offset strtab) + unat (st_name y)) (unat (sh_size strtab) - unat (st_name y)) = Inr k"
    using strnlen_OK [OF conjunct2 [OF n]] by blast
  show ?thesis using n k by (simp add: read_symbol_def tab Let_def ml monad_simps name_in_def)
qed

lemma read_all_symbols_OK:
  fixes cls :: "'a::len word elf_class"
  assumes w: "32 \<le> LENGTH('a)" and r: "region_ok buf symtab" and z: "unat (sh_size strtab) < 2 ^ 32"
    and ok: "\<forall>y \<in> set (syms cls buf symtab). name_ok buf strtab (st_name y)"
  shows "forM (read_symbol cls buf strtab symtab) [0..<unat (sh_size symtab) div snd (sym_t cls)] Map.empty =
    Some (Inr ((), symbol_map buf strtab (syms cls buf symtab)))"
proof -
  let ?n = "unat (sh_size symtab) div snd (sym_t cls)"
  let ?y = "table_at (sym_t cls) buf (unat (sh_offset symtab))"
  have "?n * snd (sym_t cls) \<le> unat (sh_size symtab)" by (rule div_times_less_eq_dividend)
  then have fit: "unat (sh_offset symtab) + ?n * snd (sym_t cls) \<le> length buf"
    using r unfolding region_ok_def by linarith
  have "forM (read_symbol cls buf strtab symtab) xs f = Some (Inr ((),
      f ++ map_of (rev (map (\<lambda>i. (name_in buf strtab (st_name (?y i)), ucast (st_value (?y i)))) xs))))"
    if "set xs \<subseteq> {..<?n}" for xs f
    using that
  proof (induction xs arbitrary: f)
    case (Cons i xs)
    then have "i < ?n" by simp
    moreover then have "name_ok buf strtab (st_name (?y i))" using ok by (simp add: syms_def)
    ultimately show ?case using Cons read_symbol_OK [OF w elem_table [OF fit] _ z]
      by (simp add: monad_simps map_add_upd_left [symmetric] del: map_add_upd_left)
  qed (simp add: monad_simps)
  from this [of "[0..<?n]" Map.empty] show ?thesis
    by (simp add: symbol_map_def syms_def o_def lessThan_atLeast0)
qed

lemma read_symbols_OK:
  fixes cls :: "'a::len word elf_class"
  assumes w: "32 \<le> LENGTH('a)" and ok: "sections_ok cls buf eh" "symbols_ok cls buf eh" and len: "length buf < 2 ^ 64"
  shows "read_symbols cls buf eh (s :: 'b) = Some (Inr (file_symbols cls buf eh, s))"
proof -
  let ?n = "unat (e_shnum eh)" and ?z = "snd (shdr_t cls)"
  let ?strs = "strs_of cls buf eh" and ?i = "section_named cls buf eh (str ''.strtab'')"
    and ?j = "section_named cls buf eh (str ''.symtab'')"
  have fit: "unat (e_shoff eh) + ?n * ?z \<le> length buf" using ok(1) by (simp add: sections_ok_def)
  have "(ucast (e_shoff eh) + ucast (e_shnum eh) * of_nat ?z :: u64) = of_nat (unat (e_shoff eh) + ?n * ?z)" by simp
  then have a: "unat (ucast (e_shoff eh) + ucast (e_shnum eh) * of_nat ?z :: u64) \<le> length buf"
    using fit len unat_of_nat64 [of "unat (e_shoff eh) + ?n * ?z"] by simp
  have x: "unat (e_shstrndx eh) < ?n" "e_shstrndx eh < e_shnum eh"
    using ok(1) by (simp_all add: sections_ok_def word_less_nat_alt)
  have el: "elem_at (shdr_t cls) buf (e_shoff eh) k = Inr (shdrs cls buf eh ! k)" if "k < ?n" for k
    using elem_table [OF fit that] that by (simp add: shdrs_def)
  have strs: "elem_at (shdr_t cls) buf (e_shoff eh) (unat (e_shstrndx eh)) = Inr ?strs"
    using el [OF x(1)] by (simp add: strs_of_def)
  have r: "unat (sh_offset ?strs + sh_size ?strs) \<le> length buf"
    using ok(1) unat_add_le [of "sh_offset ?strs" "sh_size ?strs"] by (simp add: sections_ok_def Let_def region_ok_def)
  have idx: "section_named cls buf eh nm = 0 \<or>
      section_named cls buf eh nm < ?n \<and> has_name buf ?strs nm (shdrs cls buf eh ! section_named cls buf eh nm)" for nm
  proof -
    let ?l = "rev (filter (\<lambda>i. has_name buf ?strs nm (shdrs cls buf eh ! i)) [0..<length (shdrs cls buf eh)])"
    show ?thesis
    proof (cases ?l)
      case (Cons k ks)
      then have "k \<in> set ?l" by simp
      then show ?thesis using Cons by (auto simp add: section_named_def section_index_def shdrs_def)
    qed (simp add: section_named_def section_index_def)
  qed
  define rest :: "nat \<times> nat \<Rightarrow> ('b, cstring \<rightharpoonup> u64) M" where
    "rest = (\<lambda>(strtabidx, symtabidx). if strtabidx \<noteq> 0 \<and> symtabidx \<noteq> 0 then
       bindM (liftE (elem_at (shdr_t cls) buf (e_shoff eh) strtabidx)) (\<lambda>strtab.
       bindM (liftE (elem_at (shdr_t cls) buf (e_shoff eh) symtabidx)) (\<lambda>symtab.
       run_on Map.empty (forM (read_symbol cls buf strtab symtab)
         [0..<unat (sh_size symtab) div snd (sym_t cls)])))
     else return Map.empty)"
  have "read_symbols cls buf eh s = rest (?i, ?j) s"
    unfolding read_symbols_def rest_def [symmetric]
    by (simp add: a x strs r monad_simps run_on_def scan_sections_OK [OF w ok(1)])
  moreover have "rest (?i, ?j) s = Some (Inr (file_symbols cls buf eh, s))"
  proof (cases "?i = 0 \<or> ?j = 0")
    case True
    have none: "rest (i, j) s = Some (Inr (Map.empty, s))" if "i = 0 \<or> j = 0" for i j
      using that by (auto simp: rest_def return_def)
    have e: "file_symbols cls buf eh = Map.empty" using True by (simp only: file_symbols_def Let_def if_True)
    show ?thesis unfolding e by (rule none [OF True])
  next
    case False
    then have nz: "?i \<noteq> 0" "?j \<noteq> 0" by simp_all
    have k: "?i < ?n" "?j < ?n" "has_name buf ?strs (str ''.symtab'') (shdrs cls buf eh ! ?j)"
      using idx [of "str ''.strtab''"] idx [of "str ''.symtab''"] nz by simp_all
    have "region_ok buf (shdrs cls buf eh ! ?j)"
      using ok(1) k(2,3) by (auto simp: sections_ok_def Let_def has_name_def shdrs_def)
    then have f: "forM (read_symbol cls buf (shdrs cls buf eh ! ?i) (shdrs cls buf eh ! ?j))
        [0..<unat (sh_size (shdrs cls buf eh ! ?j)) div snd (sym_t cls)] Map.empty =
      Some (Inr ((), symbol_map buf (shdrs cls buf eh ! ?i) (syms cls buf (shdrs cls buf eh ! ?j))))"
      using ok(2) False by (intro read_all_symbols_OK [OF w]) (auto simp: symbols_ok_def Let_def)
    show ?thesis using False
      by (simp add: rest_def monad_simps run_on_def f file_symbols_def el [OF k(1)] el [OF k(2)] Let_def)
  qed
  ultimately show ?thesis by simp
qed

section \<open>A whole file\<close>

definition header :: "'a elf_class \<Rightarrow> u8 list \<Rightarrow> 'a ehdr" where
  "header cls buf = fst (ehdr_t cls) (take (snd (ehdr_t cls)) buf)"

text \<open>A well-formed file of one class, its segments in the part \<open>valid\<close> of the target's memory.\<close>

definition class_ok :: "(u64 \<Rightarrow> bool) \<Rightarrow> 'a::len word elf_class \<Rightarrow> u8 list \<Rightarrow> bool" where
  "class_ok valid cls buf \<longleftrightarrow>
     (let eh = header cls buf in
      unat (e_phoff eh) + unat (e_phnum eh) * snd (phdr_t cls) \<le> length buf \<and>
      (\<forall>ph \<in> set (phdrs cls buf eh). segment_ok buf ph \<and>
         (loads ph \<longrightarrow> (\<forall>j<unat (p_memsz ph). valid (ucast (p_paddr ph) + of_nat j)))) \<and>
      sections_ok cls buf eh \<and> symbols_ok cls buf eh)"

definition class_mem :: "'a::len word elf_class \<Rightarrow> u8 list \<Rightarrow> memory \<Rightarrow> memory" where
  "class_mem cls buf = fold (segment_mem buf) (phdrs cls buf (header cls buf))"

definition image_ok :: "(u64 \<Rightarrow> bool) \<Rightarrow> u8 list \<Rightarrow> bool" where
  "image_ok valid buf \<longleftrightarrow> 64 \<le> length buf \<and> length buf < 2 ^ 64 \<and>
     (if is_elf32 buf then class_ok valid elf32 buf else is_elf64 buf \<and> class_ok valid elf64 buf)"

definition image_mem :: "u8 list \<Rightarrow> memory \<Rightarrow> memory" where
  "image_mem buf = (if is_elf32 buf then class_mem elf32 buf else class_mem elf64 buf)"

definition image_symbols :: "u8 list \<Rightarrow> (cstring \<rightharpoonup> u64)" where
  "image_symbols buf =
     (if is_elf32 buf then file_symbols elf32 buf (header elf32 buf) else file_symbols elf64 buf (header elf64 buf))"

definition image_entry :: "u8 list \<Rightarrow> u64" where
  "image_entry buf = (if is_elf32 buf then ucast (e_entry (header elf32 buf)) else e_entry (header elf64 buf))"

context chunk_provider
begin

lemma load_class_OK:
  fixes cls :: "'w::len word elf_class" and s :: "('a, 'o, 'z) machine_scheme"
  assumes w: "32 \<le> LENGTH('w)" "LENGTH('w) \<le> 64" and s: "invar (chunks s)" and ok: "class_ok valid cls buf"
    and l: "snd (ehdr_t cls) \<le> length buf" "length buf < 2 ^ 64"
  shows "\<exists>m. load_elf_class (mem_write c) cls buf s =
      Some (Inr ((file_symbols cls buf (header cls buf), ucast (e_entry (header cls buf))), s\<lparr>chunks := m\<rparr>))
    \<and> invar m \<and> mem m = class_mem cls buf (mem (chunks s))"
proof -
  let ?eh = "header cls buf"
  have h: "struct_at (ehdr_t cls) buf 0 = Inr ?eh" using l(1) by (simp add: struct_at_def bytes_at_def header_def)
  note ok = ok [unfolded class_ok_def Let_def]
  obtain m where m: "load_segments (mem_write c) cls buf ?eh s = Some (Inr ((), s\<lparr>chunks := m\<rparr>))" "invar m"
    "mem m = fold (segment_mem buf) (phdrs cls buf ?eh) (mem (chunks s))"
    using load_segments_OK [OF w(2) s _ l(2)] ok by blast
  have "read_symbols cls buf ?eh (s\<lparr>chunks := m\<rparr>) = Some (Inr (file_symbols cls buf ?eh, s\<lparr>chunks := m\<rparr>))"
    using ok by (intro read_symbols_OK [OF w(1) _ _ l(2)]) blast+
  then show ?thesis using m by (intro exI [of _ m]) (simp add: load_elf_class_def h monad_simps class_mem_def)
qed

theorem load_image_OK:
  fixes s :: "('a, 'o, 'z) machine_scheme"
  assumes s: "invar (chunks s)" and ok: "image_ok valid buf"
  shows "\<exists>m. load_image (mem_write c) buf s = Some (Inr ((image_symbols buf, image_entry buf), s\<lparr>chunks := m\<rparr>))
    \<and> invar m \<and> mem m = image_mem buf (mem (chunks s))"
proof (cases "is_elf32 buf")
  case True
  then have c: "class_ok valid elf32 buf" "64 \<le> length buf" "length buf < 2 ^ 64" using ok by (simp_all add: image_ok_def)
  then obtain m where "load_elf_class (mem_write c) elf32 buf s =
      Some (Inr ((file_symbols elf32 buf (header elf32 buf), ucast (e_entry (header elf32 buf))), s\<lparr>chunks := m\<rparr>))"
    "invar m" "mem m = class_mem elf32 buf (mem (chunks s))"
    using load_class_OK [of s elf32 buf] s by (auto simp: elf32_def)
  then show ?thesis using True c
    by (intro exI [of _ m]) (simp add: load_image_def monad_simps image_symbols_def image_entry_def image_mem_def)
next
  case False
  then have c: "class_ok valid elf64 buf" "is_elf64 buf" "64 \<le> length buf" "length buf < 2 ^ 64"
    using ok by (simp_all add: image_ok_def)
  then obtain m where "load_elf_class (mem_write c) elf64 buf s =
      Some (Inr ((file_symbols elf64 buf (header elf64 buf), ucast (e_entry (header elf64 buf))), s\<lparr>chunks := m\<rparr>))"
    "invar m" "mem m = class_mem elf64 buf (mem (chunks s))"
    using load_class_OK [of s elf64 buf] s by (auto simp: elf64_def)
  then show ?thesis using False c
    by (intro exI [of _ m]) (simp add: load_image_def monad_simps image_symbols_def image_entry_def image_mem_def)
qed

end

end
