(* ===== verification/Htif_facts.thy ===== *)
theory Htif_facts
  imports Htif Elf_facts
begin

text \<open>
  Facts about the host-target interface: the list of devices that registration builds, the
  words read and written by the main loop, the delivery of responses, the end of a run, and the
  loading of a program.
\<close>

section \<open>Registration\<close>

lemma register_device_OK:
  assumes "num_devices l < 255"
  shows "register_device dev l = Some (Inr ((), l\<lparr>num_devices := num_devices l + 1,
    devices := (devices l)[num_devices l := dev]\<rparr>))"
  using assms by (simp add: register_device_def monad_simps max_devices_def)

lemma register_device_full:
  assumes "255 \<le> num_devices l"
  shows "register_device dev l = Some (Inl (Assert_failed ''num_devices < command_t::MAX_DEVICES''))"
  using assms by (simp add: register_device_def monad_simps max_devices_def)

lemma on_device_list_Some [monad_simps]:
  "f (device_list s) = Some (Inr (a, l)) \<Longrightarrow> on_device_list f s = Some (Inr (a, s\<lparr>device_list := l\<rparr>))"
  by (simp add: on_device_list_def monad_simps)

lemma register_dynamic:
  assumes "num_devices (device_list s) + length is \<le> 255" "length (devices (device_list s)) = 256"
    "devices (device_list s) = ds @ replicate (256 - num_devices (device_list s)) Dev_null"
    "length ds = num_devices (device_list s)"
  shows "forM (\<lambda>i. on_device_list (register_device (Dev_dynamic i))) is s = Some (Inr ((),
    s\<lparr>device_list := (device_list s)\<lparr>num_devices := num_devices (device_list s) + length is,
      devices := ds @ map Dev_dynamic is @ replicate (256 - (num_devices (device_list s) + length is)) Dev_null\<rparr>\<rparr>))"
  using assms
proof (induction "is" arbitrary: s ds)
  case Nil
  then have "(device_list s)\<lparr>devices := ds @ replicate (256 - num_devices (device_list s)) Dev_null\<rparr> = device_list s"
    by simp
  then show ?case by (simp add: monad_simps)
next
  case (Cons i "is")
  let ?n = "num_devices (device_list s)"
  let ?s = "s\<lparr>device_list := (device_list s)\<lparr>num_devices := ?n + 1, devices := (devices (device_list s))[?n := Dev_dynamic i]\<rparr>\<rparr>"
  have "256 - ?n = Suc (255 - ?n)" using Cons.prems by simp
  then have "(devices (device_list s))[?n := Dev_dynamic i] = (ds @ [Dev_dynamic i]) @ replicate (256 - (?n + 1)) Dev_null"
    using Cons.prems(3,4) by (simp add: list_update_append)
  then have "forM (\<lambda>i. on_device_list (register_device (Dev_dynamic i))) is ?s = Some (Inr ((),
    ?s\<lparr>device_list := (device_list ?s)\<lparr>num_devices := num_devices (device_list ?s) + length is,
      devices := (ds @ [Dev_dynamic i]) @ map Dev_dynamic is
        @ replicate (256 - (num_devices (device_list ?s) + length is)) Dev_null\<rparr>\<rparr>))"
    using Cons.prems by (intro Cons.IH) auto
  moreover have "on_device_list (register_device (Dev_dynamic i)) s = Some (Inr ((), ?s))"
    using Cons.prems by (simp add: monad_simps register_device_OK)
  ultimately show ?case by (simp add: monad_simps)
qed

text \<open>The proxy is device 0, the character device is device 1, the others follow in order.\<close>

lemma register_devices_OK:
  assumes "num_devices (device_list s) = 0" "devices (device_list s) = replicate 256 Dev_null"
    "length (dynamic_devices s) \<le> 253"
  shows "\<exists>s'. register_devices s = Some (Inr ((), s')) \<and> num_devices (device_list s') = length (dynamic_devices s) + 2
    \<and> devices (device_list s') = Dev_syscall # Dev_bcd # map Dev_dynamic [0..<length (dynamic_devices s)]
        @ replicate (254 - length (dynamic_devices s)) Dev_null
    \<and> null_device (device_list s') = null_device (device_list s) \<and> machine.truncate s' = machine.truncate s
    \<and> syscall_proxy s' = syscall_proxy s \<and> bcd s' = bcd s \<and> dynamic_devices s' = dynamic_devices s"
proof -
  let ?n = "length (dynamic_devices s)"
  let ?l = "(device_list s)\<lparr>num_devices := 2, devices := [Dev_syscall, Dev_bcd] @ replicate 254 Dev_null\<rparr>"
  have e: "replicate 256 Dev_null = Dev_null # Dev_null # replicate 254 Dev_null"
    by (simp add: numeral_eq_Suc)
  have "register_devices s = forM (\<lambda>i. on_device_list (register_device (Dev_dynamic i))) [0..<?n] (s\<lparr>device_list := ?l\<rparr>)"
    using assms(1,2) e
    by (simp add: register_devices_def monad_simps register_device_OK numeral_2_eq_2)
  moreover have "\<dots> = Some (Inr ((), (s\<lparr>device_list := ?l\<rparr>)\<lparr>device_list := ?l\<lparr>num_devices := 2 + ?n,
      devices := [Dev_syscall, Dev_bcd] @ map Dev_dynamic [0..<?n] @ replicate (256 - (2 + ?n)) Dev_null\<rparr>\<rparr>))"
    using assms(3) register_dynamic [of "s\<lparr>device_list := ?l\<rparr>" "[0..<?n]" "[Dev_syscall, Dev_bcd]"] by simp
  ultimately show ?thesis by (simp add: machine.defs)
qed

section \<open>Words of the main loop\<close>

context chunk_provider
begin

lemma aligned_word:
  assumes "a AND 7 = (0 :: u64)"
  shows "a AND (of_nat (LENGTH(64) div 8) - 1) = 0"
  using assms by simp

lemma read_word_OK:
  fixes s :: "('a, 'o, 'z) htif_scheme"
  assumes "sub_chunks sub = c" "invar (chunks s)" "a AND 7 = 0" "\<forall>i<8. valid (a + of_nat i)"
  shows "\<exists>m. read_word sub a s = Some (Inr (le_word (load (mem (chunks s)) a 8), s\<lparr>chunks := m\<rparr>))
    \<and> invar m \<and> mem m = mem (chunks s)"
proof -
  obtain m where m: "memif_read c a 8 (chunks s) = Some (Inr (load (mem (chunks s)) a 8, m))" "invar m"
    "mem m = mem (chunks s)" using read_correct [of "chunks s" 8 a] assms by auto
  have "read_uint64 c a (chunks s) = Some (Inr (le_word (load (mem (chunks s)) a 8), m))"
    using assms(3) m(1) by (simp add: read_uint64_def memif_read_val_def monad_simps)
  then show ?thesis using m assms(1) by (intro exI [of _ m]) (simp add: read_word_def monad_simps)
qed

lemma write_word_OK:
  fixes s :: "('a, 'o, 'z) htif_scheme"
  assumes "sub_chunks sub = c" "invar (chunks s)" "a AND 7 = 0" "\<forall>i<8. valid (a + of_nat i)"
  shows "\<exists>m. write_word sub a x s = Some (Inr ((), s\<lparr>chunks := m\<rparr>)) \<and> invar m
    \<and> mem m = store (mem (chunks s)) a (le_bytes x)"
proof -
  obtain m where m: "memif_write c a (le_bytes x) (chunks s) = Some (Inr ((), m))" "invar m"
    "mem m = store (mem (chunks s)) a (le_bytes x)" using write_correct [of "chunks s" "le_bytes x" a] assms by auto
  have "write_uint64 c a x (chunks s) = Some (Inr ((), m))"
    using assms(3) m(1) by (simp add: write_uint64_def memif_write_val_def monad_simps)
  then show ?thesis using m assms(1) by (intro exI [of _ m]) (simp add: write_word_def monad_simps)
qed

text \<open>A response is delivered exactly when the target has cleared the word for it.\<close>

lemma deliver_OK:
  fixes s :: "('a, 'o, 'z) htif_scheme"
  assumes sub: "sub_chunks sub = c" and s: "invar (chunks s)"
    and f: "fromhost_addr s AND 7 = 0" "\<forall>i<8. valid (fromhost_addr s + of_nat i)"
  shows "\<exists>m q. deliver sub s = Some (Inr ((), s\<lparr>chunks := m, fromhost_queue := q\<rparr>)) \<and> invar m \<and>
    (if fromhost_queue s \<noteq> [] \<and> le_word (load (mem (chunks s)) (fromhost_addr s) 8) = (0 :: u64)
     then mem m = store (mem (chunks s)) (fromhost_addr s) (le_bytes (hd (fromhost_queue s))) \<and> q = tl (fromhost_queue s)
     else mem m = mem (chunks s) \<and> q = fromhost_queue s)"
proof (cases "fromhost_queue s")
  case Nil
  then show ?thesis using s by (intro exI [of _ "chunks s"] exI [of _ "[]"]) (simp add: deliver_def monad_simps)
next
  case (Cons r q)
  obtain m where m: "read_word sub (fromhost_addr s) s = Some (Inr (le_word (load (mem (chunks s)) (fromhost_addr s) 8),
      s\<lparr>chunks := m\<rparr>))" "invar m" "mem m = mem (chunks s)" using read_word_OK [OF sub s f] by blast
  show ?thesis
  proof (cases "le_word (load (mem (chunks s)) (fromhost_addr s) 8) = (0 :: u64)")
    case True
    obtain m' where "write_word sub (fromhost_addr s) r (s\<lparr>chunks := m\<rparr>) = Some (Inr ((), s\<lparr>chunks := m'\<rparr>))"
      "invar m'" "mem m' = store (mem (chunks s)) (fromhost_addr s) (le_bytes r)"
      using write_word_OK [OF sub, of "s\<lparr>chunks := m\<rparr>" "fromhost_addr s" r] m f by auto
    then show ?thesis using True Cons m(1)
      by (intro exI [of _ m'] exI [of _ q]) (simp add: deliver_def monad_simps)
  next
    case False
    then show ?thesis using Cons m
      by (intro exI [of _ m] exI [of _ "fromhost_queue s"]) (simp add: deliver_def monad_simps)
  qed
qed

end

section \<open>The end of a run\<close>

lemma run_loop_stop:
  assumes "exitcode s \<noteq> 0"
  shows "run_loop sub os s = Some (Inr ((), s\<lparr>host := snd (os_signal_exit os (host s))\<rparr>))"
  using assms by (subst run_loop.simps) (simp add: monad_simps)

lemma run_loop_again:
  assumes "exitcode s = 0" "os_signal_exit os (host s) = (False, h)"
    "run_step sub os (s\<lparr>host := h\<rparr>) = Some (Inr ((), s'))"
  shows "run_loop sub os s = run_loop sub os s'"
proof -
  have c: "call (os_signal_exit os) s = Some (Inr (False, s\<lparr>host := h\<rparr>))"
    using assms(2) by (simp add: call_Some)
  have "run_loop sub os s = bindM (run_step sub os) (\<lambda>_. run_loop sub os) (s\<lparr>host := h\<rparr>)"
    using assms(1) by (subst run_loop.simps, subst bindM_def) (simp add: c)
  then show ?thesis by (simp add: bindM_def [of "run_step sub os"] assms(3))
qed

lemma run_loop_signal:
  assumes "os_signal_exit os (host s) = (True, h)"
  shows "run_loop sub os s = Some (Inr ((), s\<lparr>host := h\<rparr>))"
  using assms by (subst run_loop.simps) (simp add: monad_simps)

text \<open>A tick of the proxy and the character device changes the host and the queue only.\<close>

lemma bcd_tick_fields:
  fixes s :: "('m, 'o, 'z) htif_scheme"
  shows "\<exists>b h q. bcd_tick os b0 s = Some (Inr (b, s\<lparr>host := h, fromhost_queue := q\<rparr>))"
proof (cases "pending_reads b0")
  case Nil
  then show ?thesis by (intro exI [of _ b0] exI [of _ "host s"] exI [of _ "fromhost_queue s"]) (simp add: bcd_tick_def monad_simps)
next
  case (Cons c cs)
  obtain ch h where t: "terminal_read os (host s) = (ch, h)" by fastforce
  show ?thesis
  proof (cases ch)
    case None
    then show ?thesis using Cons t
      by (intro exI [of _ b0] exI [of _ h] exI [of _ "fromhost_queue s"]) (simp add: bcd_tick_def monad_simps)
  next
    case (Some x)
    then show ?thesis using Cons t
      by (intro exI [of _ "b0\<lparr>pending_reads := cs\<rparr>"] exI [of _ h] exI [of _ "fromhost_queue s @ [response c (0x100 OR ucast x)]"])
        (simp add: bcd_tick_def monad_simps respond_def)
  qed
qed

lemma tick_two_devices:
  fixes s :: "('m, 'o, 'z) htif_scheme"
  assumes "num_devices (device_list s) = 2" "devices (device_list s) ! 0 = Dev_syscall"
    "devices (device_list s) ! 1 = Dev_bcd"
  shows "\<exists>b h q. tick_devices sub os s = Some (Inr ((), s\<lparr>host := h, fromhost_queue := q, bcd := b\<rparr>))"
proof -
  obtain b h q where "bcd_tick os (bcd s) s = Some (Inr (b, s\<lparr>host := h, fromhost_queue := q\<rparr>))"
    using bcd_tick_fields [of os "bcd s" s] by blast
  then show ?thesis using assms
    by (intro exI [of _ b] exI [of _ h] exI [of _ q])
      (simp add: tick_devices_def monad_simps numeral_2_eq_2 tick_device_def on_bcd_def)
qed

context chunk_provider
begin

text \<open>
  The target exits by storing an odd payload for device 0 and command 0 in the word \<open>tohost\<close>:
  the step that finds it records the payload, and the loop ends with it.
\<close>

lemma exit_step:
  fixes s :: "('a, 'o, 'z) htif_scheme"
  assumes sub: "sub_chunks sub = c" and s: "invar (chunks s)"
    and t: "tohost_addr s AND 7 = 0" "\<forall>i<8. valid (tohost_addr s + of_nat i)"
    and f: "fromhost_addr s AND 7 = 0" "\<forall>i<8. valid (fromhost_addr s + of_nat i)"
    and w: "le_word (load (mem (chunks s)) (tohost_addr s) 8) = w" "w \<noteq> 0"
      "cmd_device \<lparr>tohost = w\<rparr> = 0" "cmd_cmd \<lparr>tohost = w\<rparr> = 0" "cmd_payload \<lparr>tohost = w\<rparr> AND 1 \<noteq> 0"
    and devs: "num_devices (device_list s) = 2" "devices (device_list s) ! 0 = Dev_syscall"
      "devices (device_list s) ! 1 = Dev_bcd"
      "command_handlers (sc_device (syscall_proxy s)) ! 0 = Some Syscall_handle"
  shows "\<exists>s'. run_step sub os s = Some (Inr ((), s')) \<and> exitcode s' = ucast (cmd_payload \<lparr>tohost = w\<rparr>)"
proof -
  obtain m1 where m1: "read_word sub (tohost_addr s) s = Some (Inr (w, s\<lparr>chunks := m1\<rparr>))" "invar m1"
    using read_word_OK [OF sub s t] w(1) by auto
  obtain m2 where m2: "write_word sub (tohost_addr s) 0 (s\<lparr>chunks := m1\<rparr>) = Some (Inr ((), s\<lparr>chunks := m2\<rparr>))" "invar m2"
    using write_word_OK [OF sub, of "s\<lparr>chunks := m1\<rparr>" "tohost_addr s" 0] m1(2) t by auto
  obtain h where "handle_syscall (sub_chunks sub) os \<lparr>tohost = w\<rparr> (s\<lparr>chunks := m2\<rparr>) = Some (Inr ((),
      s\<lparr>chunks := m2, exitcode := ucast (cmd_payload \<lparr>tohost = w\<rparr>), host := h\<rparr>))"
    using handle_exit [OF w(5), of "sub_chunks sub" os "s\<lparr>chunks := m2\<rparr>"] by auto
  then have h: "handle_command sub os \<lparr>tohost = w\<rparr> (s\<lparr>chunks := m2\<rparr>) = Some (Inr ((),
      s\<lparr>chunks := m2, exitcode := ucast (cmd_payload \<lparr>tohost = w\<rparr>), host := h\<rparr>))"
    using w(3,4) devs by (simp add: handle_command_def monad_simps command_device_def device_handler_def run_handler_def)
  let ?s = "s\<lparr>chunks := m2, exitcode := ucast (cmd_payload \<lparr>tohost = w\<rparr>), host := h\<rparr>"
  obtain b h' q where k: "tick_devices sub os ?s = Some (Inr ((), ?s\<lparr>host := h', fromhost_queue := q, bcd := b\<rparr>))"
    using tick_two_devices [of ?s sub os] devs by auto
  let ?t = "?s\<lparr>host := h', fromhost_queue := q, bcd := b\<rparr>"
  obtain m3 q' where "deliver sub ?t = Some (Inr ((), ?t\<lparr>chunks := m3, fromhost_queue := q'\<rparr>))"
    using deliver_OK [OF sub, of ?t] m2(2) f by auto
  then have "run_step sub os s = Some (Inr ((), ?t\<lparr>chunks := m3, fromhost_queue := q'\<rparr>))"
    using m1(1) m2(1) h k w(2) by (simp add: run_step_def monad_simps)
  then show ?thesis by (intro exI) auto
qed

end

context chunk_provider
begin

text \<open>
  A \<^verbatim>\<open>write\<close> call in one iteration of the loop: the word \<open>tohost\<close> is cleared, the call is made, its
  result goes to the frame and the response to \<open>fromhost\<close>.
\<close>

lemma write_step:
  fixes s :: "('a, 'o, 'z) htif_scheme"
  assumes sub: "sub_chunks sub = c" and s: "invar (chunks s)"
    and t: "tohost_addr s AND 7 = 0" "\<forall>i<8. valid (tohost_addr s + of_nat i)"
    and f: "fromhost_addr s AND 7 = 0" "\<forall>i<8. valid (fromhost_addr s + of_nat i)"
    and w: "le_word (load (mem (chunks s)) (tohost_addr s) 8) = w" "w \<noteq> 0"
      "cmd_device \<lparr>tohost = w\<rparr> = 0" "cmd_cmd \<lparr>tohost = w\<rparr> = 0"
    and m: "m1 = store (mem (chunks s)) (tohost_addr s) (le_bytes (0 :: u64))"
      "m2 = store m1 mm (le_bytes r @ drop 8 (load m1 mm 64))" "le_word (load m2 (fromhost_addr s) 8) = (0 :: u64)"
    and frame: "mm = cmd_payload \<lparr>tohost = w\<rparr>" "mm AND 1 = 0" "\<forall>i<64. valid (mm + of_nat i)"
      "frame = dwords (load m1 mm 64)" "frame ! 0 = 64" "unat (frame ! 3) < 2 ^ 63"
      "\<forall>i<unat (frame ! 3). valid (frame ! 2 + of_nat i)"
    and os: "os_write os (fds_lookup (frame ! 1) (fds (syscall_proxy s))) (load m1 (frame ! 2) (unat (frame ! 3))) (host s)
      = (ret, h)" "r = (if ret = -1 then scast (- os_errno os h) else ret)"
    and devs: "num_devices (device_list s) = 2" "devices (device_list s) ! 0 = Dev_syscall"
      "devices (device_list s) ! 1 = Dev_bcd" "table (syscall_proxy s) = syscall_table"
      "command_handlers (sc_device (syscall_proxy s)) ! 0 = Some Syscall_handle"
    and idle: "pending_reads (bcd s) = []" "fromhost_queue s = []"
  shows "\<exists>m. run_step sub os s = Some (Inr ((), s\<lparr>chunks := m, host := h\<rparr>)) \<and> invar m
    \<and> mem m = store m2 (fromhost_addr s) (le_bytes (response \<lparr>tohost = w\<rparr> 1))"
proof -
  let ?c = "\<lparr>tohost = w\<rparr> :: command_t"
  obtain k1 where k1: "read_word sub (tohost_addr s) s = Some (Inr (w, s\<lparr>chunks := k1\<rparr>))" "invar k1"
    "mem k1 = mem (chunks s)" using read_word_OK [OF sub s t] w(1) by auto
  obtain k2 where k2: "write_word sub (tohost_addr s) 0 (s\<lparr>chunks := k1\<rparr>) = Some (Inr ((), s\<lparr>chunks := k2\<rparr>))"
    "invar k2" "mem k2 = m1"
    using write_word_OK [OF sub, of "s\<lparr>chunks := k1\<rparr>" "tohost_addr s" 0] k1(2,3) t m(1) by auto
  let ?s = "s\<lparr>chunks := k2\<rparr>"
  obtain k3 where k3: "handle_syscall c os ?c ?s = Some (Inr ((), ?s\<lparr>chunks := k3, host := h, fromhost_queue := [response ?c 1]\<rparr>))"
    "invar k3" "mem k3 = m2"
    using write_call [of ?s ?c os ret h r] k2 frame os devs(4) idle(2) m(2) by (auto simp: fun_upd_def)
  let ?t = "s\<lparr>chunks := k3, host := h, fromhost_queue := [response ?c 1]\<rparr>"
  have cmd: "handle_command sub os ?c ?s = Some (Inr ((), ?t))"
    using k3(1) w(3,4) devs sub by (simp add: handle_command_def monad_simps command_device_def device_handler_def run_handler_def)
  have "bcd_tick os (bcd s) ?t = Some (Inr (bcd s, ?t))" using idle(1) by (simp add: bcd_tick_def monad_simps)
  then have tick: "tick_devices sub os ?t = Some (Inr ((), ?t))" using devs
    by (simp add: tick_devices_def monad_simps numeral_2_eq_2 tick_device_def on_bcd_def)
  obtain k4 where k4: "deliver sub ?t = Some (Inr ((), ?t\<lparr>chunks := k4, fromhost_queue := []\<rparr>))" "invar k4"
    "mem k4 = store m2 (fromhost_addr s) (le_bytes (response ?c 1))"
    using deliver_OK [OF sub, of ?t] k3(2,3) f m(3) by auto
  have "run_step sub os s = Some (Inr ((), ?t\<lparr>chunks := k4, fromhost_queue := []\<rparr>))"
    using k1(1) k2(1) cmd tick k4(1) w(2) by (simp add: run_step_def monad_simps)
  then show ?thesis using k4(2,3) idle(2) by (intro exI [of _ k4]) simp
qed

end

section \<open>Loading the program\<close>

text \<open>The program is found at its own path; no range of memory is preloaded.\<close>

context chunk_provider
begin

lemma load_program_OK:
  fixes s :: "('a, 'o, 'z) htif_scheme"
  assumes c: "sub_chunks sub = c" and pre: "\<forall>a n. \<not> sub_preloaded sub a n" and s: "invar (chunks s)"
    and targ: "targs s = targ # rest" "targ \<noteq> []"
    and os: "os_access os targ (host s) = (0, h1)" "map_file os targ h1 = Some (Inr (buf, h2))"
    and buf: "image_ok valid buf"
    and sym: "image_symbols buf (str ''tohost'') = Some t" "image_symbols buf (str ''fromhost'') = Some f"
  shows "\<exists>m. load_program sub os pfx s = Some (Inr ((),
      let s' = s\<lparr>chunks := m, host := h2, entry := image_entry buf, tohost_addr := t, fromhost_addr := f\<rparr> in
      case (image_symbols buf (str ''begin_signature''), image_symbols buf (str ''end_signature'')) of
        (Some b, Some e) \<Rightarrow> s'\<lparr>sig_addr := b, sig_len := e - b\<rparr> | _ \<Rightarrow> s'))
    \<and> invar m \<and> mem m = image_mem buf (mem (chunks s))"
proof -
  have "invar (chunks (s\<lparr>host := h2\<rparr>))" using s by simp
  then obtain m where m: "load_image (mem_write c) buf (s\<lparr>host := h2\<rparr>) =
      Some (Inr ((image_symbols buf, image_entry buf), s\<lparr>host := h2, chunks := m\<rparr>))" "invar m"
      "mem m = image_mem buf (mem (chunks s))"
    using load_image_OK [of "s\<lparr>host := h2\<rparr>" buf] buf by auto
  have w: "preload_aware_write sub = mem_write c" using c pre by (simp add: preload_aware_write_def fun_eq_iff)
  have f: "find_program os pfx targ s = Some (Inr (targ, s\<lparr>host := h1\<rparr>))"
    using os(1) by (simp add: find_program_def call_def on_host_def zoom_def total_def monad_simps)
  have l: "load_elf os (mem_write c) targ (s\<lparr>host := h1\<rparr>) =
      Some (Inr ((image_symbols buf, image_entry buf), s\<lparr>host := h2, chunks := m\<rparr>))"
    using os(2) m(1) by (simp add: load_elf_def on_host_def zoom_def monad_simps)
  show ?thesis using m(2,3)
    by (intro exI [of _ m]) (simp add: load_program_def targ f w l sym monad_simps split: option.split)
qed

end

end
