(* ===== verification/Rfb_thread.thy ===== *)
theory Rfb_thread
  imports Rfb
begin

text \<open>
  The server thread of the frame buffer (\<^verbatim>\<open>rfb.cc\<close>, \<^verbatim>\<open>thread_main\<close>): it waits for a client, shakes
  hands, reads messages until the client goes away, and starts again. It runs beside the main
  thread, which copies frames and sends updates on the same connection; the mutex \<^verbatim>\<open>lock\<close> keeps the
  updates out of the handshake. The two threads are a step relation; a step of the server thread
  makes at most one access to what they share.
\<close>

section \<open>The thread\<close>

datatype thread_pc =
    Start | Open_port | Accept_client | Send_version | Check_version | Send_security | Client_init
  | Send_init | Unlock_client | Await_memif | Serving | Relock | Hang_up | Unlock_end

record rfb_thread =
  thread_pc :: thread_pc
  thread_locks :: bool
  sockfd :: i32

definition new_thread :: rfb_thread where
  "new_thread = \<lparr>thread_pc = Start, thread_locks = False, sockfd = -1\<rparr>"

definition rfb_version :: "u8 list" where
  "rfb_version = str ''RFB 003.003'' @ [0x0A]"

definition security_none :: "u8 list" where
  "security_none = be_bytes (1 :: u32)"

definition open_port :: "'o posix \<Rightarrow> int \<Rightarrow> ('o, i32) M" where
  "open_port os port =
     bindM (total (os_socket os)) (\<lambda>fd.
     if sint fd < 0 then throw (Runtime_error ''could not acquire tcp socket'') else
     bindM (total (os_bind os fd (word_of_int port))) (\<lambda>r.
     if sint r < 0 then throw (Runtime_error (''could not bind to port '' @ to_string (nat port))) else
     bindM (total (os_listen os fd 0)) (\<lambda>r.
     if sint r < 0 then throw (Runtime_error (''could not listen on port '' @ to_string (nat port))) else
     return fd)))"

text \<open>One message of the client; \<open>False\<close> ends the loop.\<close>

definition serve_message :: "'o posix \<Rightarrow> i32 \<Rightarrow> ('o, bool) M" where
  "serve_message os fd =
     bindM (rfb_read os fd) (\<lambda>s.
     if length s < 4 then return False
     else if s ! 0 = 0 then bindM (liftE (set_pixel_format s)) (\<lambda>_. return True)
     else if s ! 0 = 2 then bindM (set_encodings os fd s) (\<lambda>_. return True)
     else return True)"

text \<open>The next step of the thread on the shared object; at the end \<^verbatim>\<open>thread_main\<close> calls itself.\<close>

definition thread_step :: "'o posix \<Rightarrow> rfb_t \<Rightarrow> rfb_thread \<Rightarrow> ('o, rfb_t \<times> rfb_thread) M" where
  "thread_step os r t =
     (case thread_pc t of
        Start \<Rightarrow> return (r, t\<lparr>thread_pc := Open_port, thread_locks := True\<rparr>)
      | Open_port \<Rightarrow> bindM (open_port os (5900 + display r)) (\<lambda>fd.
          return (r, t\<lparr>thread_pc := Accept_client, sockfd := fd\<rparr>))
      | Accept_client \<Rightarrow> bindM (total (os_accept os (sockfd t))) (\<lambda>fd.
          if sint fd < 0 then throw (Runtime_error ''could not accept connection'')
          else return (r\<lparr>afd := fd\<rparr>, t\<lparr>thread_pc := Send_version\<rparr>))
      | Send_version \<Rightarrow> bindM (rfb_write os (afd r) rfb_version) (\<lambda>_. return (r, t\<lparr>thread_pc := Check_version\<rparr>))
      | Check_version \<Rightarrow> bindM (rfb_read os (afd r)) (\<lambda>s.
          if s \<noteq> rfb_version then throw (Runtime_error ''bad client version'')
          else return (r, t\<lparr>thread_pc := Send_security\<rparr>))
      | Send_security \<Rightarrow> bindM (rfb_write os (afd r) security_none) (\<lambda>_. return (r, t\<lparr>thread_pc := Client_init\<rparr>))
      | Client_init \<Rightarrow> bindM (rfb_read os (afd r)) (\<lambda>_. return (r, t\<lparr>thread_pc := Send_init\<rparr>))
      | Send_init \<Rightarrow> bindM (rfb_write os (afd r) (server_init r)) (\<lambda>_. return (r, t\<lparr>thread_pc := Unlock_client\<rparr>))
      | Unlock_client \<Rightarrow> return (r, t\<lparr>thread_pc := Await_memif, thread_locks := False\<rparr>)
      | Await_memif \<Rightarrow> return (r, if rfb_memif r then t\<lparr>thread_pc := Serving\<rparr> else t)
      | Serving \<Rightarrow>
          if \<not> rfb_memif r then return (r, t\<lparr>thread_pc := Relock\<rparr>)
          else bindM (serve_message os (afd r)) (\<lambda>go_on. return (r, if go_on then t else t\<lparr>thread_pc := Relock\<rparr>))
      | Relock \<Rightarrow> return (r, t\<lparr>thread_pc := Hang_up, thread_locks := True\<rparr>)
      | Hang_up \<Rightarrow> bindM (total (os_close os (afd r))) (\<lambda>_. bindM (total (os_close os (sockfd t))) (\<lambda>_.
          return (r\<lparr>afd := -1\<rparr>, t\<lparr>thread_pc := Unlock_end, sockfd := -1\<rparr>)))
      | Unlock_end \<Rightarrow> return (r, t\<lparr>thread_pc := Start, thread_locks := False\<rparr>))"

section \<open>Both threads\<close>

record ('m, 'o) rfb_system =
  sys_machine :: "('m, 'o) machine"
  sys_rfb :: rfb_t
  sys_thread :: "rfb_thread option"

text \<open>The main thread's \<^verbatim>\<open>pthread_mutex_trylock\<close> fails while the server thread has the mutex.\<close>

definition lock_taken :: "('m, 'o) rfb_system \<Rightarrow> bool" where
  "lock_taken y \<longleftrightarrow> (case sys_thread y of None \<Rightarrow> False | Some t \<Rightarrow> thread_locks t)"

definition EBUSY :: i32 where "EBUSY = 16"

definition locked_os :: "'o posix \<Rightarrow> bool \<Rightarrow> 'o posix" where
  "locked_os os b = os\<lparr>os_trylock := (\<lambda>h. (if b then EBUSY else 0, h))\<rparr>"

text \<open>
  The main thread holds the mutex only within a tick, which is one step here: the server thread
  could only wait for it meanwhile, or read. \<open>other\<close> is anything else that the main thread does;
  it does not write to the sockets of the frame buffer.
\<close>

inductive system_step :: "'m chunked_memif \<Rightarrow> 'o posix \<Rightarrow> ('m \<Rightarrow> bool) \<Rightarrow> ('o \<Rightarrow> i32 \<Rightarrow> u8 list) \<Rightarrow>
    ('m, 'o) rfb_system \<Rightarrow> ('m, 'o) rfb_system \<Rightarrow> bool"
  for ops os invar wire where
  server: "sys_thread y = Some t \<Longrightarrow>
     thread_step os (sys_rfb y) t (host (sys_machine y)) = Some (Inr ((r, t'), h)) \<Longrightarrow>
     system_step ops os invar wire y
       (y\<lparr>sys_rfb := r, sys_thread := Some t', sys_machine := (sys_machine y)\<lparr>host := h\<rparr>\<rparr>)"
| frame: "rfb_tick ops (locked_os os (lock_taken y)) (sys_rfb y) (sys_machine y) = Some (Inr (r, m)) \<Longrightarrow>
     system_step ops os invar wire y (y\<lparr>sys_rfb := r, sys_machine := m\<rparr>)"
| configure: "handle_configure os cmd (sys_rfb y) (sys_machine y) = Some (Inr (r, m)) \<Longrightarrow>
     system_step ops os invar wire y (y\<lparr>sys_rfb := r, sys_machine := m, sys_thread := Some new_thread\<rparr>)"
| set_address: "handle_set_address cmd (sys_rfb y) (sys_machine y) = Some (Inr (r, m)) \<Longrightarrow>
     system_step ops os invar wire y (y\<lparr>sys_rfb := r, sys_machine := m\<rparr>)"
| other: "invar (chunks m) \<Longrightarrow> wire (host m) = wire (host (sys_machine y)) \<Longrightarrow>
     system_step ops os invar wire y (y\<lparr>sys_machine := m\<rparr>)"

text \<open>\<open>wire h fd\<close> is what has been written to the connection \<open>fd\<close>; the host has these laws.\<close>

locale socket_host =
  fixes os :: "'o posix" and wire :: "'o \<Rightarrow> i32 \<Rightarrow> u8 list"
  assumes writes: "os_write os fd bs h = (n, h') \<Longrightarrow>
      wire h' = (if n = of_nat (length bs) \<and> 0 \<le> sint fd then (wire h)(fd := wire h fd @ bs) else wire h)"
    and accepts: "os_accept os fd h = (c, h') \<Longrightarrow> wire h' = (if 0 \<le> sint c then (wire h)(c := []) else wire h)"
    and reads: "os_read os fd buf h = (x, h') \<Longrightarrow> wire h' = wire h"
    and opens: "os_socket os h = (c, h') \<Longrightarrow> wire h' = wire h"
    and binds: "os_bind os fd port h = (r, h') \<Longrightarrow> wire h' = wire h"
    and listens: "os_listen os fd k h = (r, h') \<Longrightarrow> wire h' = wire h"
    and creates_thread: "os_pthread_create os h = (r, h') \<Longrightarrow> wire h' = wire h"

text \<open>What the client sees: the handshake, then whole updates.\<close>

definition greeting :: "rfb_t \<Rightarrow> u8 list" where
  "greeting r = rfb_version @ security_none @ server_init r"

definition is_update :: "rfb_t \<Rightarrow> u8 list \<Rightarrow> bool" where
  "is_update r u \<longleftrightarrow> (\<exists>frame. length frame = fb_bytes r \<and> u = update_message r frame)"

definition well_formed_stream :: "rfb_t \<Rightarrow> u8 list \<Rightarrow> bool" where
  "well_formed_stream r w \<longleftrightarrow> (\<exists>us. (\<forall>u\<in>set us. is_update r u) \<and> w = greeting r @ concat us)"

fun stream_at :: "rfb_t \<Rightarrow> thread_pc \<Rightarrow> u8 list \<Rightarrow> bool" where
  "stream_at r Send_version w \<longleftrightarrow> w = []"
| "stream_at r Check_version w \<longleftrightarrow> w = rfb_version"
| "stream_at r Send_security w \<longleftrightarrow> w = rfb_version"
| "stream_at r Client_init w \<longleftrightarrow> w = rfb_version @ security_none"
| "stream_at r Send_init w \<longleftrightarrow> w = rfb_version @ security_none"
| "stream_at r pc w \<longleftrightarrow> well_formed_stream r w"

fun has_client :: "thread_pc \<Rightarrow> bool" where
  "has_client Start = False"
| "has_client Open_port = False"
| "has_client Accept_client = False"
| "has_client Unlock_end = False"
| "has_client pc = True"

fun has_lock :: "thread_pc \<Rightarrow> bool" where
  "has_lock Start = False"
| "has_lock Await_memif = False"
| "has_lock Serving = False"
| "has_lock Relock = False"
| "has_lock pc = True"

definition system_inv :: "('o \<Rightarrow> i32 \<Rightarrow> u8 list) \<Rightarrow> ('m \<Rightarrow> bool) \<Rightarrow> ('m, 'o) rfb_system \<Rightarrow> bool" where
  "system_inv wire invar y \<longleftrightarrow> invar (chunks (sys_machine y)) \<and> rfb_invar (sys_rfb y) \<and>
     (case sys_thread y of
        None \<Rightarrow> afd (sys_rfb y) = -1 \<and> fb1 (sys_rfb y) = None
      | Some t \<Rightarrow> fb1 (sys_rfb y) \<noteq> None \<and> thread_locks t = has_lock (thread_pc t) \<and>
          (if has_client (thread_pc t) then 0 \<le> sint (afd (sys_rfb y)) \<and>
             stream_at (sys_rfb y) (thread_pc t) (wire (host (sys_machine y)) (afd (sys_rfb y)))
           else afd (sys_rfb y) = -1))"

inductive system_reached :: "'m chunked_memif \<Rightarrow> 'o posix \<Rightarrow> ('m \<Rightarrow> bool) \<Rightarrow> ('o \<Rightarrow> i32 \<Rightarrow> u8 list) \<Rightarrow>
    ('m, 'o) rfb_system \<Rightarrow> bool" for ops os invar wire where
  start: "rfb_new disp (sys_machine y) = Some (Inr (sys_rfb y, sys_machine y)) \<Longrightarrow> sys_thread y = None \<Longrightarrow>
     invar (chunks (sys_machine y)) \<Longrightarrow> system_reached ops os invar wire y"
| step: "system_reached ops os invar wire y \<Longrightarrow> system_step ops os invar wire y y' \<Longrightarrow>
     system_reached ops os invar wire y'"


section \<open>The invariant holds\<close>

lemma stream_cong:
  assumes "rfb_width r' = rfb_width r" "rfb_height r' = rfb_height r" "rfb_bpp r' = rfb_bpp r"
  shows "stream_at r' p w = stream_at r p w"
proof -
  have "fb_bytes r' = fb_bytes r" "update_message r' = update_message r" "server_init r' = server_init r"
    using assms by (simp_all add: fb_bytes_def update_message_def server_init_def fun_eq_iff)
  then have "well_formed_stream r' = well_formed_stream r"
    by (simp add: well_formed_stream_def is_update_def greeting_def fun_eq_iff)
  then show ?thesis by (cases p) simp_all
qed

context socket_host
begin

lemma rfb_write_wire:
  "rfb_write os fd bs h = Some (Inr ((), h')) \<Longrightarrow> 0 \<le> sint fd \<Longrightarrow> wire h' fd = wire h fd @ bs"
  using writes [of fd bs h] by (auto simp: rfb_write_def bindM_eq_OK total_def throw_def return_def split: if_splits)

lemma rfb_read_wire: "rfb_read os fd h = Some (Inr (s, h')) \<Longrightarrow> wire h' = wire h"
  using reads [of fd _ h]
  by (auto simp: rfb_read_def bindM_eq_OK total_def throw_def return_def split: if_splits)

lemma open_port_wire: "open_port os port h = Some (Inr (fd, h')) \<Longrightarrow> wire h' = wire h"
  by (auto simp: open_port_def bindM_eq_OK total_def throw_def return_def dest!: opens binds listens split: if_splits)

lemma skip_wire:
  assumes "skip_encodings os fd b limit h = Some (Inr ((), h'))"
  shows "wire h' = wire h"
proof -
  have "o' = os \<longrightarrow> (\<forall>h'. y = Inr ((), h') \<longrightarrow> wire h' = wire h)" if "skip_encodings o' fd b limit h = Some y" for o' y
  proof (rule skip_encodings.raw_induct [where P = "\<lambda>o' fd b limit h y. o' = os \<longrightarrow>
      (\<forall>h'. y = Inr ((), h') \<longrightarrow> wire h' = wire h)", OF _ that])
    fix rec o' fd b limit h y
    assume IH: "\<And>o' fd b limit h y. rec o' fd b limit h = Some y \<Longrightarrow>
        o' = os \<longrightarrow> (\<forall>h'. y = Inr ((), h') \<longrightarrow> wire h' = wire h)"
      and y: "(if b < limit then bindM (rfb_read o' fd) (\<lambda>s h. rec o' fd (b + length s) limit h) h
        else return () h) = Some y"
    show "o' = os \<longrightarrow> (\<forall>h'. y = Inr ((), h') \<longrightarrow> wire h' = wire h)"
      using y IH rfb_read_wire by (auto simp: bindM_eq_OK return_def split: if_splits)
  qed
  then show ?thesis using assms by blast
qed

lemma serve_wire: "serve_message os fd h = Some (Inr (go_on, h')) \<Longrightarrow> wire h' = wire h"
  by (auto simp: serve_message_def set_encodings_def Let_def bindM_eq_OK return_def liftE_def throw_def
      dest!: rfb_read_wire skip_wire split: if_splits sum.splits)

lemma server_keeps:
  assumes "thread_step os r t h = Some (Inr ((r', t'), h'))" "fb1 r \<noteq> None" "rfb_invar r"
    and "thread_locks t = has_lock (thread_pc t)"
    and "if has_client (thread_pc t) then 0 \<le> sint (afd r) \<and> stream_at r (thread_pc t) (wire h (afd r)) else afd r = -1"
  shows "rfb_invar r' \<and> fb1 r' \<noteq> None \<and> thread_locks t' = has_lock (thread_pc t') \<and>
    (if has_client (thread_pc t') then 0 \<le> sint (afd r') \<and> stream_at r' (thread_pc t') (wire h' (afd r')) else afd r' = -1)"
proof -
  have inv: "rfb_invar (r\<lparr>afd := fd\<rparr>)" for fd using assms(3) by (simp add: rfb_invar_def fb_bytes_def split: option.splits)
  show ?thesis
  proof (cases "thread_pc t")
    case Accept_client
    then show ?thesis using assms inv accepts [of "sockfd t" h]
      by (auto simp: thread_step_def bindM_eq_OK total_def throw_def return_def split: if_splits)
  next
    case Send_init
    then have w: "wire h (afd r) = rfb_version @ security_none" "0 \<le> sint (afd r)" using assms(5) by auto
    have "well_formed_stream r (greeting r)" by (auto simp: well_formed_stream_def intro!: exI [of _ "[]"])
    then show ?thesis using assms Send_init w
      by (auto simp: thread_step_def bindM_eq_OK return_def greeting_def dest!: rfb_write_wire)
  qed (use assms inv in \<open>auto simp: thread_step_def bindM_eq_OK return_def total_def throw_def
      dest!: rfb_write_wire rfb_read_wire open_port_wire serve_wire split: if_splits\<close>)
qed

end


text \<open>The ticks of the main thread: they always return, and write at most one whole update.\<close>

definition same_screen :: "rfb_t \<Rightarrow> rfb_t \<Rightarrow> bool" where
  "same_screen r r' \<longleftrightarrow> rfb_width r' = rfb_width r \<and> rfb_height r' = rfb_height r \<and> rfb_bpp r' = rfb_bpp r
     \<and> afd r' = afd r \<and> (fb1 r' = None \<longleftrightarrow> fb1 r = None)"

context chunk_provider
begin

lemma rfb_position:
  assumes "rfb_invar r" "fb_bytes r \<noteq> 0"
  obtains a b where "fb1 r = Some a" "fb2 r = Some b" "length a = fb_bytes r" "length b = fb_bytes r"
    "read_pos r + 256 \<le> fb_bytes r" "256 dvd fb_bytes r" "256 dvd read_pos r"
proof -
  obtain a b where ab: "fb1 r = Some a" "fb2 r = Some b" "length a = fb_bytes r" "length b = fb_bytes r"
    "256 dvd fb_bytes r" "256 dvd read_pos r" "read_pos r < fb_bytes r"
    using assms by (auto simp: rfb_invar_def fb_align_def split: option.splits)
  then have "read_pos r + 256 \<le> fb_bytes r" by (auto elim!: dvdE)
  with ab that show thesis by blast
qed

lemma tick_returns:
  fixes s :: "('a, 'o, 'z) machine_scheme"
  assumes "invar (chunks s)" "rfb_invar r" "\<And>x. valid x"
  shows "\<exists>r' s'. rfb_tick c os r s = Some (Inr (r', s')) \<and> rfb_invar r' \<and> same_screen r r' \<and> invar (chunks s')
    \<and> mem (chunks s') = mem (chunks s) \<and> fromhost_queue s' = fromhost_queue s
    \<and> (host s' = host s \<or> (\<exists>e h frame. os_trylock os (host s) = (e, h) \<and> length frame = fb_bytes r \<and>
        host s' = (if e = 0 then snd (os_write os (afd r) (update_message r frame) h) else h)))"
proof (cases "fb_bytes r = 0 \<or> \<not> rfb_memif r")
  case True
  then have "rfb_tick c os r s = Some (Inr (r, s))" by (simp add: rfb_tick_def monad_simps)
  then show ?thesis using assms by (auto simp: same_screen_def)
next
  case False
  then obtain a b where ab: "fb1 r = Some a" "fb2 r = Some b" "length a = fb_bytes r" "length b = fb_bytes r"
    "read_pos r + 256 \<le> fb_bytes r" "256 dvd fb_bytes r" "256 dvd read_pos r"
    using rfb_position [OF assms(2)] by blast
  let ?bs = "load (mem (chunks s)) (rfb_addr r + of_nat (read_pos r)) 256"
  define pos where "pos = (read_pos r + 256) mod fb_bytes r"
  define b' where "b' = take (read_pos r) b @ ?bs @ drop (read_pos r + 256) b"
  have b': "length b' = fb_bytes r" using ab by (simp add: b'_def)
  have pos: "256 dvd pos" "pos < fb_bytes r" using ab False by (simp_all add: pos_def dvd_mod)
  obtain m where m: "mem_read c (rfb_addr r + of_nat (read_pos r)) fb_align s = Some (Inr (?bs, s\<lparr>chunks := m\<rparr>))"
    "invar m" "mem m = mem (chunks s)"
    using mem_read_OK [OF assms(1), of 256 "rfb_addr r + of_nat (read_pos r)"] assms(3) by (auto simp: fb_align_def)
  have fbb: "fb_bytes (r\<lparr>fb2 := x, read_pos := p\<rparr>) = fb_bytes r" "fb_bytes (r\<lparr>fb1 := y, fb2 := x, read_pos := p\<rparr>) = fb_bytes r"
    for x y p by (simp_all add: fb_bytes_def)
  show ?thesis
  proof (cases "pos = 0")
    case np: False
    have "rfb_tick c os r s = Some (Inr (r\<lparr>fb2 := Some b', read_pos := pos\<rparr>, s\<lparr>chunks := m\<rparr>))"
      using False ab m(1) np by (simp add: rfb_tick_def monad_simps Let_def fb_align_def pos_def b'_def)
    moreover have "rfb_invar (r\<lparr>fb2 := Some b', read_pos := pos\<rparr>)"
      using ab b' pos by (simp add: rfb_invar_def fbb fb_align_def)
    ultimately show ?thesis using m by (auto simp: same_screen_def ab)
  next
    case True
    let ?r = "r\<lparr>fb1 := Some b', fb2 := Some a, read_pos := 0\<rparr>"
    obtain e h where e: "os_trylock os (host s) = (e, h)" by fastforce
    have "rfb_tick c os r s = Some (Inr (?r, s\<lparr>chunks := m,
        host := if e = 0 then snd (os_write os (afd r) (update_message r b') h) else h\<rparr>))"
      using False ab m(1) True e unfolding pos_def b'_def [symmetric]
      by (simp add: rfb_tick_def monad_simps Let_def fb_align_def fb_update_def b'_def [symmetric])
        (simp add: update_message_def fb_bytes_def)
    moreover have "rfb_invar ?r" using ab b' False by (simp add: rfb_invar_def fbb fb_align_def)
    ultimately show ?thesis using m e b' by (auto simp: same_screen_def ab)
  qed
qed

end


section \<open>Every reached state\<close>

lemma update_extends:
  assumes "well_formed_stream r w" "length frame = fb_bytes r"
  shows "well_formed_stream r (w @ update_message r frame)"
proof -
  obtain us where us: "\<forall>u\<in>set us. is_update r u" "w = greeting r @ concat us"
    using assms(1) by (auto simp: well_formed_stream_def)
  have "is_update r (update_message r frame)" using assms(2) by (auto simp: is_update_def)
  with us show ?thesis unfolding well_formed_stream_def by (intro exI [of _ "us @ [update_message r frame]"]) auto
qed

text \<open>While the thread is in the handshake it holds the mutex.\<close>

lemma unlocked_stream: "\<not> has_lock pc \<Longrightarrow> has_client pc \<Longrightarrow> stream_at r pc w \<longleftrightarrow> well_formed_stream r w"
  by (cases pc) simp_all

lemma frame_keeps:
  fixes y :: "('m, 'o) rfb_system"
  assumes "socket_host os wire" "chunk_provider ops mem invar (\<lambda>_. True) k mx" "system_inv wire invar y"
    and tick: "rfb_tick ops (locked_os os (lock_taken y)) (sys_rfb y) (sys_machine y) = Some (Inr (r, m))"
  shows "system_inv wire invar (y\<lparr>sys_rfb := r, sys_machine := m\<rparr>)"
proof -
  have inv: "invar (chunks (sys_machine y))" "rfb_invar (sys_rfb y)" using assms(3) by (simp_all add: system_inv_def)
  have res: "rfb_invar r" "same_screen (sys_rfb y) r" "invar (chunks m)"
    and h: "host m = host (sys_machine y) \<or> (\<exists>e h frame. os_trylock (locked_os os (lock_taken y)) (host (sys_machine y)) = (e, h) \<and>
        length frame = fb_bytes (sys_rfb y) \<and>
        host m = (if e = 0 then snd (os_write (locked_os os (lock_taken y)) (afd (sys_rfb y)) (update_message (sys_rfb y) frame) h) else h))"
    using chunk_provider.tick_returns [OF assms(2), of "sys_machine y" "sys_rfb y" "locked_os os (lock_taken y)"] inv tick
    by auto
  have cases: "wire (host m) = wire (host (sys_machine y)) \<or> \<not> lock_taken y \<and> 0 \<le> sint (afd (sys_rfb y)) \<and>
      (\<exists>frame. length frame = fb_bytes (sys_rfb y) \<and> wire (host m) = (wire (host (sys_machine y)))
        (afd (sys_rfb y) := wire (host (sys_machine y)) (afd (sys_rfb y)) @ update_message (sys_rfb y) frame))"
  proof -
    have w: "wire (snd (os_write os fd bs hh)) = wire hh \<or> 0 \<le> sint fd \<and> wire (snd (os_write os fd bs hh)) = (wire hh)(fd := wire hh fd @ bs)"
      for fd bs hh
      using socket_host.writes [OF assms(1), of fd bs hh "fst (os_write os fd bs hh)" "snd (os_write os fd bs hh)"]
      by (auto split: if_splits)
    from h consider "host m = host (sys_machine y)"
      | frame where "\<not> lock_taken y" "length frame = fb_bytes (sys_rfb y)"
        "host m = snd (os_write os (afd (sys_rfb y)) (update_message (sys_rfb y) frame) (host (sys_machine y)))"
      by (auto simp: locked_os_def EBUSY_def split: if_splits)
    then show ?thesis
    proof cases
      case 2
      then show ?thesis using w [of "afd (sys_rfb y)" "update_message (sys_rfb y) frame" "host (sys_machine y)"] by auto
    qed simp
  qed
  have same: "stream_at r pc w = stream_at (sys_rfb y) pc w" for pc w
    using stream_cong [of r "sys_rfb y"] res(2) by (simp add: same_screen_def)
  show ?thesis
  proof (cases "sys_thread y")
    case None
    then show ?thesis using assms(3) res by (auto simp: system_inv_def same_screen_def)
  next
    case (Some t)
    let ?t = "thread_pc t" and ?r = "sys_rfb y"
    have old: "fb1 ?r \<noteq> None" "thread_locks t = has_lock ?t" using assms(3) Some by (simp_all add: system_inv_def)
    have new: "fb1 r \<noteq> None" "afd r = afd ?r" using old res(2) by (simp_all add: same_screen_def)
    have "if has_client ?t then 0 \<le> sint (afd ?r) \<and> stream_at r ?t (wire (host m) (afd ?r)) else afd ?r = -1"
    proof (cases "has_client ?t")
      case True
      then have c: "0 \<le> sint (afd ?r)" "stream_at ?r ?t (wire (host (sys_machine y)) (afd ?r))"
        using assms(3) Some by (simp_all add: system_inv_def)
      show ?thesis using cases
      proof (elim disjE conjE exE)
        fix frame
        assume f: "\<not> lock_taken y" "length frame = fb_bytes ?r" and w: "wire (host m) = (wire (host (sys_machine y)))
          (afd ?r := wire (host (sys_machine y)) (afd ?r) @ update_message ?r frame)"
        have "\<not> has_lock ?t" using f(1) Some old(2) by (simp add: lock_taken_def)
        then show ?thesis using update_extends [of ?r _ frame] c True f(2) w by (simp add: same unlocked_stream)
      qed (use c True same in simp)
    next
      case False
      then show ?thesis using assms(3) Some by (simp add: system_inv_def)
    qed
    then show ?thesis using Some new old res by (simp add: system_inv_def)
  qed
qed

lemma configure_fields:
  "handle_configure os cmd r s = Some (Inr (r', s')) \<Longrightarrow>
     fb1 r = None \<and> fb1 r' \<noteq> None \<and> afd r' = afd r \<and> chunks s' = chunks s"
  by (auto simp: handle_configure_def Let_def monad_simps bindM_eq_OK respond_def
      on_host_def zoom_def return_def total_def throw_def modifyM_def split: if_splits option.splits prod.splits)

lemma set_address_fields:
  "handle_set_address cmd r s = Some (Inr (r', s')) \<Longrightarrow>
     same_screen r r' \<and> chunks s' = chunks s \<and> host s' = host s"
  by (auto simp: handle_set_address_def Let_def monad_simps respond_def same_screen_def
      return_def throw_def modifyM_def bindM_eq_OK split: if_splits)

lemma system_step_keeps:
  assumes host: "socket_host os wire" and mem: "chunk_provider ops mem invar (\<lambda>_. True) k mx"
    and step: "system_step ops os invar wire y y'" and inv: "system_inv wire invar y"
  shows "system_inv wire invar y'"
  using step
proof cases
  case (server t r t' h)
  have "rfb_invar r \<and> fb1 r \<noteq> None \<and> thread_locks t' = has_lock (thread_pc t') \<and>
    (if has_client (thread_pc t') then 0 \<le> sint (afd r) \<and> stream_at r (thread_pc t') (wire h (afd r)) else afd r = -1)"
    by (rule socket_host.server_keeps [OF host server(3)]) (use inv server(2) in \<open>simp_all add: system_inv_def\<close>)
  then show ?thesis using inv server(1) by (simp add: system_inv_def)
next
  case (frame r m)
  then show ?thesis using frame_keeps [OF host mem inv frame(2)] by simp
next
  case (configure cmd r m)
  have "fb1 (sys_rfb y) = None" "fb1 r \<noteq> None" "afd r = afd (sys_rfb y)" "chunks m = chunks (sys_machine y)"
    using configure_fields [OF configure(2)] by auto
  moreover have "rfb_invar r" using configure_invar [OF _ configure(2)] inv by (simp add: system_inv_def)
  ultimately show ?thesis using inv configure(1) by (simp add: system_inv_def new_thread_def split: option.splits)
next
  case (set_address cmd r m)
  have f: "same_screen (sys_rfb y) r" "chunks m = chunks (sys_machine y)" "host m = host (sys_machine y)"
    using set_address_fields [OF set_address(2)] by auto
  moreover have "rfb_invar r" using set_address_invar [OF _ set_address(2)] inv by (simp add: system_inv_def)
  moreover have "stream_at r pc w = stream_at (sys_rfb y) pc w" for pc w
    using stream_cong [of r "sys_rfb y"] f(1) by (simp add: same_screen_def)
  ultimately show ?thesis using inv set_address(1) by (simp add: system_inv_def same_screen_def split: option.splits)
next
  case (other m)
  then show ?thesis using inv by (simp add: system_inv_def split: option.splits)
qed


lemma new_system_inv:
  assumes "rfb_new disp s = Some (Inr (r, s))"
  shows "rfb_invar r \<and> afd r = -1 \<and> fb1 r = None"
proof -
  have "rfb_invar r" using rfb_new_invar [of disp s] assms by auto
  moreover have "afd r = -1 \<and> fb1 r = None" using assms by (auto simp: rfb_new_def bindM_eq_OK return_def)
  ultimately show ?thesis by simp
qed

lemma system_reached_inv:
  assumes "socket_host os wire" "chunk_provider ops mem invar (\<lambda>_. True) k mx"
    and "system_reached ops os invar wire y"
  shows "system_inv wire invar y"
  using assms(3)
proof (induction rule: system_reached.induct)
  case (start disp y)
  then show ?case using new_system_inv by (fastforce simp: system_inv_def)
next
  case (step y y')
  then show ?case using system_step_keeps [OF assms(1,2)] by blast
qed

text \<open>A client that closes the connection within a list of encodings leaves the thread in an endless loop.\<close>

lemma skip_at_end:
  assumes eof: "\<And>h. fst (fst (os_read os fd (replicate 2048 0) h)) = 0" and "b < limit"
  shows "skip_encodings os fd b limit h = None"
proof (rule ccontr)
  assume "skip_encodings os fd b limit h \<noteq> None"
  then obtain y where y: "skip_encodings os fd b limit h = Some y" by blast
  have "o' = os \<and> f' = fd \<longrightarrow> b < limit \<longrightarrow> False" if "skip_encodings o' f' b limit h = Some y" for o' f'
  proof (rule skip_encodings.raw_induct [where P = "\<lambda>o' f' b limit h y. o' = os \<and> f' = fd \<longrightarrow> b < limit \<longrightarrow> False", OF _ that])
    fix rec o' f' b limit h y
    assume IH: "\<And>o' f' b limit h y. rec o' f' b limit h = Some y \<Longrightarrow> o' = os \<and> f' = fd \<longrightarrow> b < limit \<longrightarrow> False"
      and y: "(if b < limit then bindM (rfb_read o' f') (\<lambda>s h. rec o' f' (b + length s) limit h) h
        else return () h) = Some y"
    show "o' = os \<and> f' = fd \<longrightarrow> b < limit \<longrightarrow> False"
    proof (intro impI)
      assume o: "o' = os \<and> f' = fd" and b: "b < limit"
      obtain n buf h' where r: "os_read os fd (replicate 2048 0) h = ((n, buf), h')" by (metis surj_pair)
      then have "n = 0" using eof [of h] by simp
      then have "rfb_read os fd h = Some (Inr ([], h'))" using r by (simp add: rfb_read_def monad_simps)
      then have "rec os fd (b + 0) limit h' = Some y" using y o b by (simp add: monad_simps)
      then show False using IH b by fastforce
    qed
  qed
  then show False using y assms(2) by blast
qed


section \<open>A run\<close>

text \<open>The server thread alone makes \<open>n\<close> steps.\<close>

fun server_run :: "'o posix \<Rightarrow> nat \<Rightarrow> ('m, 'o) rfb_system \<Rightarrow> ('m, 'o) rfb_system option" where
  "server_run os 0 y = Some y"
| "server_run os (Suc n) y = (case sys_thread y of None \<Rightarrow> None
   | Some t \<Rightarrow> (case thread_step os (sys_rfb y) t (host (sys_machine y)) of
        Some (Inr ((r, t'), h)) \<Rightarrow> server_run os n
          (y\<lparr>sys_rfb := r, sys_thread := Some t', sys_machine := (sys_machine y)\<lparr>host := h\<rparr>\<rparr>)
      | _ \<Rightarrow> None))"

lemma server_run_reached:
  "server_run os n y = Some y' \<Longrightarrow> system_reached ops os invar wire y \<Longrightarrow> system_reached ops os invar wire y'"
proof (induction n arbitrary: y)
  case (Suc n)
  then obtain t r t' h where "sys_thread y = Some t"
    "thread_step os (sys_rfb y) t (host (sys_machine y)) = Some (Inr ((r, t'), h))"
    "server_run os n (y\<lparr>sys_rfb := r, sys_thread := Some t', sys_machine := (sys_machine y)\<lparr>host := h\<rparr>\<rparr>) = Some y'"
    by (auto split: option.splits sum.splits prod.splits)
  then show ?case using Suc.IH system_reached.step [OF Suc.prems(2) server] by blast
qed simp

end
