(* ===== verification/Instances.thy ===== *)
theory Instances
  imports Tsi Htif_facts Rfb_thread
begin

text \<open>
  Concrete instances of what the model leaves open: a target that follows the serial protocol
  over a memory of zeros, and a host that answers its calls with fixed results. The
  witnesses of the properties use them.
\<close>

section \<open>A target\<close>

abbreviation ref_ops :: "memory tsi_t chunked_memif" where
  "ref_ops \<equiv> tsi_ops ref_target"

abbreviation ref_mem :: "memory tsi_t \<Rightarrow> memory" where
  "ref_mem \<equiv> tsi_mem (\<lambda>m ws. fst (serve m ws))"

abbreviation ref_invar :: "memory tsi_t \<Rightarrow> bool" where
  "ref_invar \<equiv> tsi_invar (\<lambda>m ws. boundary ws) (\<lambda>m ws. snd (serve m ws))"

definition tsi_with :: "memory \<Rightarrow> memory tsi_t" where
  "tsi_with m = tsi_new m"

lemma tsi_with_invar [simp]: "ref_invar (tsi_with m)"
  by (simp add: tsi_with_def tsi_new_def tsi_invar_def tsi_settled_def tsi_owes_def)

lemma tsi_with_mem [simp]: "ref_mem (tsi_with m) = m"
  by (simp add: tsi_with_def tsi_new_def tsi_mem_def)

lemma ref_provider: "chunk_provider ref_ops ref_mem ref_invar (\<lambda>_. True) 2 1024"
  by (rule ref.chunk_provider_axioms)

lemma ref_rw: "chunk_rw ref_ops ref_mem ref_invar (\<lambda>_. True) 2 1024"
  by (rule ref.chunk_rw_axioms)

lemma ref_sai: "sai_target ref_target (\<lambda>m ws. snd (serve m ws)) (\<lambda>m ws. fst (serve m ws)) (\<lambda>m ws. boundary ws) (\<lambda>_. 0)"
  by (rule ref.sai_target_axioms)

section \<open>A host\<close>

definition demo_stat :: stat where
  "demo_stat = \<lparr>st_dev = 1, st_ino = 2, st_mode = 0x8000, st_nlink = 1, st_uid = 0, st_gid = 0, st_rdev = 0,
     st_size = 42, st_blksize = 512, st_blocks = 1, st_atime = 0, st_mtime = 0, st_ctime = 0\<rparr>"

text \<open>Every call succeeds, except on the descriptor -1.\<close>

definition demo_os :: "'o posix" where
  "demo_os = \<lparr>os_errno = (\<lambda>_. 9), os_signal_exit = (\<lambda>h. (False, h)),
     os_poll_stdin = (\<lambda>h. ((0, False), h)),
     os_read = (\<lambda>fd buf h. ((2, [0x68, 0x69] @ drop 2 buf), h)),
     os_pread = (\<lambda>fd buf off h. ((of_nat (length buf), buf), h)),
     os_write = (\<lambda>fd buf h. (of_nat (length buf), h)),
     os_pwrite = (\<lambda>fd buf off h. (of_nat (length buf), h)),
     os_dup = (\<lambda>fd h. (fd + 3, h)), os_close = (\<lambda>fd h. (if fd = -1 then -1 else 0, h)),
     os_lseek = (\<lambda>fd off dir h. (off, h)),
     os_fstat = (\<lambda>fd h. ((if fd = -1 then -1 else 0, demo_stat), h)),
     os_lstat = (\<lambda>p h. ((0, demo_stat), h)), os_fstatat = (\<lambda>fd p f h. ((0, demo_stat), h)),
     os_fcntl = (\<lambda>fd c a h. (0, h)), os_ftruncate = (\<lambda>fd n h. (0, h)),
     os_openat = (\<lambda>fd p f m h. (7, h)), os_faccessat = (\<lambda>fd p m f h. (0, h)),
     os_renameat = (\<lambda>a p b q h. (0, h)), os_linkat = (\<lambda>a p b q f h. (0, h)),
     os_unlinkat = (\<lambda>a p f h. (0, h)), os_mkdirat = (\<lambda>a p m h. (0, h)),
     os_getcwd = (\<lambda>buf h. ((True, slash # 0 # drop 2 buf), h)), os_chdir = (\<lambda>p h. (0, h)),
     os_open = (\<lambda>p f h. (5, h)), os_access = (\<lambda>p h. (0, h)),
     os_mmap = (\<lambda>fd n h. (Some (replicate (unat n) 0), h)), os_write_file = (\<lambda>p t h. (True, h)),
     os_stdout = (\<lambda>t h. h), os_stderr = (\<lambda>t h. h), os_trylock = (\<lambda>h. (0, h)),
     os_pthread_create = (\<lambda>h. (0, h)), os_pthread_join = (\<lambda>h. (0, h)),
     os_socket = (\<lambda>h. (8, h)), os_bind = (\<lambda>fd port h. (0, h)), os_listen = (\<lambda>fd n h. (0, h)),
     os_accept = (\<lambda>fd h. (9, h)),
     os_tcgetattr = (\<lambda>fd h. ((0, \<lparr>c_lflag = 0xA, c_rest = []\<rparr>), h)), os_tcsetattr = (\<lambda>fd a h. (0, h))\<rparr>"

lemma demo_os_simps [simp]:
  "os_errno demo_os h = 9" "os_signal_exit demo_os h = (False, h)"
  "os_read demo_os fd buf h = ((2, [0x68, 0x69] @ drop 2 buf), h)"
  "os_write demo_os fd buf h = (of_nat (length buf), h)"
  "os_close demo_os fd h = (if fd = -1 then -1 else 0, h)"
  "os_fstat demo_os fd h = ((if fd = -1 then -1 else 0, demo_stat), h)"
  "os_openat demo_os fd p f m h = (7, h)" "os_chdir demo_os p h = (0, h)"
  "os_pread demo_os fd buf off h = ((of_nat (length buf), buf), h)"
  "os_trylock demo_os h = (0, h)"
  by (simp_all add: demo_os_def)

section \<open>A proxy and an interface\<close>

definition demo_syscall :: syscall_t where
  "demo_syscall = \<lparr>sc_device = raw_device\<lparr>command_handlers := replicate 256 (Some Syscall_handle)\<rparr>,
     table = syscall_table, fds = [3, 4, -1, 5], chroot = []\<rparr>"

definition demo_proxy :: "memory \<Rightarrow> (memory tsi_t, unit) proxy" where
  "demo_proxy m = \<lparr>chunks = tsi_with m, host = (), fromhost_queue = [], exitcode = 0,
     targs = [[0x61], [0x62, 0x63]], syscall_proxy = demo_syscall\<rparr>"

definition demo_htif :: "memory \<Rightarrow> (memory tsi_t, unit) htif" where
  "demo_htif m = \<lparr>chunks = tsi_with m, host = (), fromhost_queue = [0x1234], exitcode = 0,
     targs = [[0x61]], syscall_proxy = demo_syscall, entry = dram_base, sig_file = [], sig_addr = 0,
     sig_len = 0, tohost_addr = 0x1000, fromhost_addr = 0x1008, stopped = False,
     device_list = \<lparr>devices = Dev_syscall # Dev_bcd # replicate 254 Dev_null, null_device = raw_device, num_devices = 2\<rparr>,
     bcd = raw_bcd, dynamic_devices = []\<rparr>"

definition demo_sub :: "memory tsi_t sub_htif" where
  "demo_sub = \<lparr>sub_chunks = ref_ops, sub_reset = (\<lambda>_. tsi_reset), sub_idle = switch_to_target ref_target,
     sub_preloaded = (\<lambda>_ _. False)\<rparr>"


section \<open>A host with connections\<close>

text \<open>Its state is what was written to each descriptor; the client knows the version.\<close>

definition wire_os :: "(i32 \<Rightarrow> u8 list) posix" where
  "wire_os = demo_os\<lparr>os_write := (\<lambda>fd bs h. (of_nat (length bs), if 0 \<le> sint fd then h(fd := h fd @ bs) else h)),
     os_accept := (\<lambda>fd h. (9, h(9 := []))),
     os_read := (\<lambda>fd buf h. ((12, rfb_version @ drop 12 buf), h))\<rparr>"

lemma wire_os_simps [simp]:
  "os_write wire_os fd bs h = (of_nat (length bs), if 0 \<le> sint fd then h(fd := h fd @ bs) else h)"
  "os_accept wire_os fd h = (9, h(9 := []))" "os_read wire_os fd buf h = ((12, rfb_version @ drop 12 buf), h)"
  "os_socket wire_os h = (8, h)" "os_bind wire_os fd port h = (0, h)" "os_listen wire_os fd n h = (0, h)"
  "os_pthread_create wire_os h = (0, h)"
  by (simp_all add: wire_os_def demo_os_def)

interpretation wires: socket_host wire_os "\<lambda>h. h"
  by unfold_locales auto

lemma demo_handshake:
  fixes r :: rfb_t and s :: "('m, i32 \<Rightarrow> u8 list) machine"
  shows "server_run wire_os 9 \<lparr>sys_machine = s, sys_rfb = r, sys_thread = Some new_thread\<rparr> =
    Some \<lparr>sys_machine = s\<lparr>host := (host s)(9 := greeting r)\<rparr>, sys_rfb = r\<lparr>afd := 9\<rparr>,
      sys_thread = Some \<lparr>thread_pc = Await_memif, thread_locks = False, sockfd = 8\<rparr>\<rparr>"
proof -
  have "rfb_read wire_os fd h = Some (Inr (rfb_version, h))" for fd h
    by (simp add: rfb_read_def monad_simps rfb_version_def)
  moreover have "server_init (r\<lparr>afd := x\<rparr>) = server_init r" for x by (simp add: server_init_def)
  ultimately show ?thesis
    by (simp add: numeral_eq_Suc new_thread_def thread_step_def open_port_def rfb_write_def monad_simps greeting_def)
qed

end
