(* ===== verification/Demo_elf.thy ===== *)
theory Demo_elf
  imports Instances
begin

text \<open>
  A small ELF file of the 32-bit class, with one segment and a symbol table, what it says, and a
  host that has it: the input at which the properties of the loader are applied.
\<close>

definition demo_elf :: "u8 list" where
  "demo_elf = [
     127, 69, 76, 70, 1, 0, 0, 0, 0, 0, 0, 0, 0, 0, 0, 0, 2, 0, 243, 0, 1, 0, 0, 0, 0, 0, 0, 128, 52, 0,
     0, 0, 84, 0, 0, 0, 0, 0, 0, 0, 52, 0, 32, 0, 1, 0, 40, 0, 4, 0, 1, 0, 1, 0, 0, 0, 64, 1, 0, 0, 0,
     0, 0, 0, 0, 0, 0, 128, 4, 0, 0, 0, 8, 0, 0, 0, 0, 0, 0, 0, 0, 0, 0, 0, 0, 0, 0, 0, 0, 0, 0, 0, 0,
     0, 0, 0, 0, 0, 0, 0, 0, 0, 0, 0, 0, 0, 0, 0, 0, 0, 0, 0, 0, 0, 0, 0, 0, 0, 0, 0, 0, 0, 0, 0, 1, 0,
     0, 0, 3, 0, 0, 0, 0, 0, 0, 0, 0, 0, 0, 0, 244, 0, 0, 0, 27, 0, 0, 0, 0, 0, 0, 0, 0, 0, 0, 0, 0, 0,
     0, 0, 0, 0, 0, 0, 11, 0, 0, 0, 3, 0, 0, 0, 0, 0, 0, 0, 0, 0, 0, 0, 15, 1, 0, 0, 17, 0, 0, 0, 0, 0,
     0, 0, 0, 0, 0, 0, 0, 0, 0, 0, 0, 0, 0, 0, 19, 0, 0, 0, 2, 0, 0, 0, 0, 0, 0, 0, 0, 0, 0, 0, 32, 1,
     0, 0, 32, 0, 0, 0, 0, 0, 0, 0, 0, 0, 0, 0, 0, 0, 0, 0, 0, 0, 0, 0, 0, 46, 115, 104, 115, 116, 114,
     116, 97, 98, 0, 46, 115, 116, 114, 116, 97, 98, 0, 46, 115, 121, 109, 116, 97, 98, 0, 0, 116, 111,
     104, 111, 115, 116, 0, 102, 114, 111, 109, 104, 111, 115, 116, 0, 1, 0, 0, 0, 0, 16, 0, 128, 0, 0,
     0, 0, 0, 0, 0, 0, 8, 0, 0, 0, 8, 16, 0, 128, 0, 0, 0, 0, 0, 0, 0, 0, 19, 0, 0, 0]"

lemma demo_header: "header elf32 demo_elf = \<lparr>e_ident = [127, 69, 76, 70, 1, 0, 0, 0, 0, 0, 0, 0, 0, 0, 0, 0], e_type = 2, e_machine = 243, e_version = 1,
  e_entry = 0x80000000, e_phoff = 52, e_shoff = 84, e_flags = 0, e_ehsize = 52, e_phentsize = 32, e_phnum = 1,
  e_shentsize = 40, e_shnum = 4, e_shstrndx = 1\<rparr>"
  by code_simp

lemma demo_phdrs: "phdrs elf32 demo_elf (header elf32 demo_elf) = [\<lparr>p_type = 1, p_flags = 0, p_offset = 320, p_vaddr = 0,
  p_paddr = 0x80000000, p_filesz = 4, p_memsz = 8, p_align = 0\<rparr>]"
  by code_simp

definition demo_shdr :: "u32 \<Rightarrow> u32 \<Rightarrow> 32 word \<Rightarrow> 32 word \<Rightarrow> 32 word shdr" where
  "demo_shdr nm ty off sz = \<lparr>sh_name = nm, sh_type = ty, sh_flags = 0, sh_addr = 0, sh_offset = off, sh_size = sz,
     sh_link = 0, sh_info = 0, sh_addralign = 0, sh_entsize = 0\<rparr>"

lemma demo_shdrs: "shdrs elf32 demo_elf (header elf32 demo_elf) =
  [demo_shdr 0 0 0 0, demo_shdr 1 3 244 27, demo_shdr 11 3 271 17, demo_shdr 19 2 288 32]"
  unfolding demo_header by code_simp

lemma demo_names: 
  "name_in demo_elf (demo_shdr 1 3 244 27) 0 = []"
  "name_in demo_elf (demo_shdr 1 3 244 27) 1 = [46, 115, 104, 115, 116, 114, 116, 97, 98]"
  "name_in demo_elf (demo_shdr 1 3 244 27) 11 = [46, 115, 116, 114, 116, 97, 98]"
  "name_in demo_elf (demo_shdr 1 3 244 27) 19 = [46, 115, 121, 109, 116, 97, 98]"
  "name_in demo_elf (demo_shdr 11 3 271 17) 1 = [116, 111, 104, 111, 115, 116]"
  "name_in demo_elf (demo_shdr 11 3 271 17) 8 = [102, 114, 111, 109, 104, 111, 115, 116]"
   by code_simp+

lemma demo_names_ok: 
  "name_ok demo_elf (demo_shdr 1 3 244 27) 0"
  "name_ok demo_elf (demo_shdr 1 3 244 27) 1"
  "name_ok demo_elf (demo_shdr 1 3 244 27) 11"
  "name_ok demo_elf (demo_shdr 1 3 244 27) 19"
  "name_ok demo_elf (demo_shdr 11 3 271 17) 1"
  "name_ok demo_elf (demo_shdr 11 3 271 17) 8"
   by code_simp+

lemma demo_strs: "str ''.strtab'' = [46, 115, 116, 114, 116, 97, 98]" "str ''.symtab'' = [46, 115, 121, 109, 116, 97, 98]"
  "str ''tohost'' = [116, 111, 104, 111, 115, 116]" "str ''fromhost'' = [102, 114, 111, 109, 104, 111, 115, 116]"
  "str ''begin_signature'' = [98, 101, 103, 105, 110, 95, 115, 105, 103, 110, 97, 116, 117, 114, 101]"
  by (simp_all add: str_def)

lemma demo_strs_of: "strs_of elf32 demo_elf (header elf32 demo_elf) = demo_shdr 1 3 244 27"
  by (simp add: strs_of_def demo_shdrs) (simp add: demo_header)

lemma demo_index:
  "section_named elf32 demo_elf (header elf32 demo_elf) (str ''.strtab'') = 2"
  "section_named elf32 demo_elf (header elf32 demo_elf) (str ''.symtab'') = 3"
proof -
  have t: "demo_elf \<noteq> []" "sh_name (demo_shdr n ty off sz) = n" "sh_type (demo_shdr n ty off sz) = ty" for n ty off sz
    by (simp_all add: demo_shdr_def demo_elf_def)
  have l: "[0..<4] = [0, 1, 2, 3]" by code_simp
  show "section_named elf32 demo_elf (header elf32 demo_elf) (str ''.strtab'') = 2"
    "section_named elf32 demo_elf (header elf32 demo_elf) (str ''.symtab'') = 3"
    by (simp_all add: section_named_def section_index_def demo_shdrs demo_strs_of l has_name_def t sht_nobits_def
        demo_names demo_strs)
qed

lemma demo_syms: "syms elf32 demo_elf (demo_shdr 19 2 288 32) =
   [\<lparr>st_name = 1, st_info = 0, st_other = 0, st_shndx = 0, st_value = 0x80001000, st_size = 0\<rparr>,
    \<lparr>st_name = 8, st_info = 0, st_other = 0, st_shndx = 0, st_value = 0x80001008, st_size = 0\<rparr>]"
  by code_simp

lemma demo_file_symbols:
  "file_symbols elf32 demo_elf (header elf32 demo_elf) = [str ''tohost'' \<mapsto> 0x80001000, str ''fromhost'' \<mapsto> 0x80001008]"
proof -
  have "file_symbols elf32 demo_elf (header elf32 demo_elf) = symbol_map demo_elf (demo_shdr 11 3 271 17)
      (syms elf32 demo_elf (demo_shdr 19 2 288 32))"
    by (simp add: file_symbols_def demo_index demo_shdrs)
  also have "\<dots> = [str ''tohost'' \<mapsto> 0x80001000, str ''fromhost'' \<mapsto> 0x80001008]"
    by (auto simp: symbol_map_def demo_syms demo_names demo_strs fun_eq_iff)
  finally show ?thesis .
qed

lemma demo_image_ok: "image_ok (\<lambda>_. True) demo_elf"
proof -
  have l: "length demo_elf = 324" "is_elf32 demo_elf" by code_simp+
  have z: "snd (shdr_t elf32) = 40" "snd (phdr_t elf32) = 32" by (simp_all add: elf32_def)
  have r: "region_ok demo_elf (demo_shdr 0 0 0 0)" "region_ok demo_elf (demo_shdr 1 3 244 27)"
    "region_ok demo_elf (demo_shdr 11 3 271 17)" "region_ok demo_elf (demo_shdr 19 2 288 32)"
    by (simp_all add: region_ok_def demo_shdr_def l)
  have t: "sh_name (demo_shdr n ty off sz) = n" "sh_size (demo_shdr n ty off sz) = sz" for n ty off sz
    by (simp_all add: demo_shdr_def)
  have "sections_ok elf32 demo_elf (header elf32 demo_elf)"
    unfolding sections_ok_def demo_strs_of Let_def
    by (simp add: demo_shdrs r t demo_names_ok) (simp add: demo_header l z)
  moreover have "symbols_ok elf32 demo_elf (header elf32 demo_elf)"
    by (simp add: symbols_ok_def demo_index demo_shdrs demo_syms demo_names_ok t)
  moreover have "segment_ok demo_elf (hd (phdrs elf32 demo_elf (header elf32 demo_elf)))"
    by (simp add: demo_phdrs segment_ok_def l)
  ultimately show ?thesis
    using demo_phdrs by (simp add: image_ok_def l class_ok_def demo_phdrs) (simp add: demo_header z l)
qed

lemma demo_image:
  "image_symbols demo_elf = [str ''tohost'' \<mapsto> 0x80001000, str ''fromhost'' \<mapsto> 0x80001008]"
  "image_entry demo_elf = 0x80000000" "image_mem demo_elf m = store m 0x80000000 [0x13, 0, 0, 0, 0, 0, 0, 0]"
proof -
  have e: "is_elf32 demo_elf" by code_simp
  have b: "take 4 (drop 320 demo_elf) = [0x13, 0, 0, 0]" by code_simp
  show "image_symbols demo_elf = [str ''tohost'' \<mapsto> 0x80001000, str ''fromhost'' \<mapsto> 0x80001008]"
    using e by (simp add: image_symbols_def demo_file_symbols)
  show "image_entry demo_elf = 0x80000000" using e by (simp add: image_entry_def demo_header)
  have "replicate 4 (0 :: u8) = [0, 0, 0, 0]" by (simp add: numeral_eq_Suc)
  then show "image_mem demo_elf m = store m 0x80000000 [0x13, 0, 0, 0, 0, 0, 0, 0]"
    using e b by (simp add: image_mem_def class_mem_def demo_phdrs segment_mem_def loads_def pt_load_def segment_bytes_def)
qed

text \<open>A host on which every file is that file.\<close>

definition elf_os :: "'o posix" where
  "elf_os = demo_os\<lparr>os_mmap := (\<lambda>fd n h. (Some demo_elf, h))\<rparr>"

lemma elf_os_calls: "os_access elf_os p h = (0, h)" "map_file elf_os p h = Some (Inr (demo_elf, h))"
  by (simp_all add: elf_os_def demo_os_def map_file_def monad_simps total_def)

end
