(* ===== verification/Dtm.thy ===== *)
theory Dtm
  imports Memif
begin

text \<open>
  The debug transport module (\<^verbatim>\<open>dtm.h\<close>, \<^verbatim>\<open>dtm.cc\<close>): a chunk provider that drives a RISC-V debug
  module through reads and writes of its registers. It halts a hart, makes it execute small
  programs placed in the program buffer, and resumes it. The constants are those of
  \<^verbatim>\<open>debug_defines.h\<close> and \<^verbatim>\<open>encoding.h\<close>.

  The debug module is hardware, a parameter \<open>dmi\<close>: what it answers to one request, and its next
  state. It is reached when the host context switches to the target and the target switches
  back with a response (\<open>tick\<close>, \<open>return_resp\<close>).
\<close>

section \<open>Register fields\<close>

definition DMI_DMSTATUS :: u32 where "DMI_DMSTATUS = 0x11"
definition DMI_DMSTATUS_ALLRESUMEACK :: u32 where "DMI_DMSTATUS_ALLRESUMEACK = push_bit 17 0x1"
definition DMI_DMSTATUS_ANYNONEXISTENT :: u32 where "DMI_DMSTATUS_ANYNONEXISTENT = push_bit 14 0x1"
definition DMI_DMSTATUS_ALLHALTED :: u32 where "DMI_DMSTATUS_ALLHALTED = push_bit 9 0x1"
definition DMI_DMCONTROL :: u32 where "DMI_DMCONTROL = 0x10"
definition DMI_DMCONTROL_HALTREQ :: u32 where "DMI_DMCONTROL_HALTREQ = push_bit 31 0x1"
definition DMI_DMCONTROL_RESUMEREQ :: u32 where "DMI_DMCONTROL_RESUMEREQ = push_bit 30 0x1"
definition DMI_DMCONTROL_HARTSEL_LENGTH :: nat where "DMI_DMCONTROL_HARTSEL_LENGTH = 10"
definition DMI_DMCONTROL_HARTSEL :: u32 where "DMI_DMCONTROL_HARTSEL = push_bit 16 0x3ff"
definition DMI_DMCONTROL_DMACTIVE :: u32 where "DMI_DMCONTROL_DMACTIVE = push_bit 0 0x1"
definition DMI_HARTINFO :: u32 where "DMI_HARTINFO = 0x12"
definition DMI_HARTINFO_NSCRATCH :: u32 where "DMI_HARTINFO_NSCRATCH = push_bit 20 0xf"
definition DMI_HARTINFO_DATAACCESS :: u32 where "DMI_HARTINFO_DATAACCESS = push_bit 16 0x1"
definition DMI_HARTINFO_DATAADDR :: u32 where "DMI_HARTINFO_DATAADDR = push_bit 0 0xfff"
definition DMI_ABSTRACTCS :: u32 where "DMI_ABSTRACTCS = 0x16"
definition DMI_ABSTRACTCS_PROGSIZE :: u32 where "DMI_ABSTRACTCS_PROGSIZE = push_bit 24 0x1f"
definition DMI_ABSTRACTCS_BUSY :: u32 where "DMI_ABSTRACTCS_BUSY = push_bit 12 0x1"
definition DMI_ABSTRACTCS_CMDERR :: u32 where "DMI_ABSTRACTCS_CMDERR = push_bit 8 0x7"
definition DMI_ABSTRACTCS_DATACOUNT :: u32 where "DMI_ABSTRACTCS_DATACOUNT = push_bit 0 0x1f"
definition DMI_COMMAND :: u32 where "DMI_COMMAND = 0x17"
definition DMI_ABSTRACTAUTO :: u32 where "DMI_ABSTRACTAUTO = 0x18"
definition DMI_ABSTRACTAUTO_AUTOEXECDATA_OFFSET :: nat where "DMI_ABSTRACTAUTO_AUTOEXECDATA_OFFSET = 0"
definition DMI_DATA0 :: u32 where "DMI_DATA0 = 0x04"
definition DMI_PROGBUF0 :: u32 where "DMI_PROGBUF0 = 0x20"
definition AC_ACCESS_REGISTER_SIZE_OFFSET :: nat where "AC_ACCESS_REGISTER_SIZE_OFFSET = 20"
definition AC_ACCESS_REGISTER_POSTEXEC :: u32 where "AC_ACCESS_REGISTER_POSTEXEC = push_bit 18 0x1"
definition AC_ACCESS_REGISTER_TRANSFER :: u32 where "AC_ACCESS_REGISTER_TRANSFER = push_bit 17 0x1"
definition AC_ACCESS_REGISTER_WRITE :: u32 where "AC_ACCESS_REGISTER_WRITE = push_bit 16 0x1"
definition AC_ACCESS_REGISTER_REGNO_OFFSET :: nat where "AC_ACCESS_REGISTER_REGNO_OFFSET = 0"
definition CSR_DSCRATCH :: u32 where "CSR_DSCRATCH = 0x7b2"

text \<open>The divisor is the lowest bit of the mask. Both macros are used on 32-bit values only.\<close>

definition get_field :: "u32 \<Rightarrow> u32 \<Rightarrow> u32" where
  "get_field reg msk = (reg AND msk) div (msk AND NOT (push_bit 1 msk))"

definition set_field :: "u32 \<Rightarrow> u32 \<Rightarrow> u32 \<Rightarrow> u32" where
  "set_field reg msk val = (reg AND NOT msk) OR ((val * (msk AND NOT (push_bit 1 msk))) AND msk)"

section \<open>Instructions\<close>

text \<open>
  The fields taken end below bit 21, so the shift of a negative offset needs no sign.
\<close>

definition rv_x :: "u32 \<Rightarrow> nat \<Rightarrow> nat \<Rightarrow> u32" where
  "rv_x x s n = drop_bit s x AND (push_bit n 1 - 1)"

definition encode_itype_imm :: "u32 \<Rightarrow> u32" where
  "encode_itype_imm x = push_bit 20 (rv_x x 0 12)"

definition encode_stype_imm :: "u32 \<Rightarrow> u32" where
  "encode_stype_imm x = push_bit 7 (rv_x x 0 5) OR push_bit 25 (rv_x x 5 7)"

definition encode_sbtype_imm :: "u32 \<Rightarrow> u32" where
  "encode_sbtype_imm x = push_bit 8 (rv_x x 1 4) OR push_bit 25 (rv_x x 5 6) OR push_bit 7 (rv_x x 11 1)
     OR push_bit 31 (rv_x x 12 1)"

definition encode_utype_imm :: "u32 \<Rightarrow> u32" where
  "encode_utype_imm x = push_bit 12 (rv_x x 12 20)"

definition encode_ujtype_imm :: "u32 \<Rightarrow> u32" where
  "encode_ujtype_imm x = push_bit 21 (rv_x x 1 10) OR push_bit 20 (rv_x x 11 1) OR push_bit 12 (rv_x x 12 8)
     OR push_bit 31 (rv_x x 20 1)"

definition LOAD :: "nat \<Rightarrow> u32 \<Rightarrow> u32 \<Rightarrow> u32 \<Rightarrow> u32" where
  "LOAD xlen dst base imm = (if xlen = 64 then 0x00003003 else 0x00002003)
     OR push_bit 7 dst OR push_bit 15 base OR encode_itype_imm imm"

definition STORE :: "nat \<Rightarrow> u32 \<Rightarrow> u32 \<Rightarrow> u32 \<Rightarrow> u32" where
  "STORE xlen src base imm = (if xlen = 64 then 0x00003023 else 0x00002023)
     OR push_bit 20 src OR push_bit 15 base OR encode_stype_imm imm"

definition JUMP :: "u32 \<Rightarrow> u32 \<Rightarrow> u32" where
  "JUMP there here = 0x6f OR encode_ujtype_imm (there - here)"

definition BNE :: "u32 \<Rightarrow> u32 \<Rightarrow> u32 \<Rightarrow> u32 \<Rightarrow> u32" where
  "BNE r1 r2 there here = 0x1063 OR push_bit 15 r1 OR push_bit 20 r2 OR encode_sbtype_imm (there - here)"

definition ADDI :: "u32 \<Rightarrow> u32 \<Rightarrow> u32 \<Rightarrow> u32" where
  "ADDI dst src imm = 0x13 OR push_bit 7 dst OR push_bit 15 src OR encode_itype_imm imm"

definition SRL :: "u32 \<Rightarrow> u32 \<Rightarrow> u32 \<Rightarrow> u32" where
  "SRL dst src sh = 0x5033 OR push_bit 7 dst OR push_bit 15 src OR push_bit 20 sh"

definition FENCE_I :: u32 where "FENCE_I = 0x100f"
definition EBREAK :: u32 where "EBREAK = 0x00100073"
definition X0 :: u32 where "X0 = 0"
definition S0 :: u32 where "S0 = 8"
definition S1 :: u32 where "S1 = 9"

definition AC_AR_REGNO :: "u32 \<Rightarrow> u32" where
  "AC_AR_REGNO x = push_bit AC_ACCESS_REGISTER_REGNO_OFFSET (0x1000 OR x)"

definition AC_AR_SIZE :: "nat \<Rightarrow> u32" where
  "AC_AR_SIZE x = push_bit AC_ACCESS_REGISTER_SIZE_OFFSET (if x = 128 then 4 else if x = 64 then 3 else 2)"

definition csr_write :: u32 where "csr_write = 1"
definition csr_set :: u32 where "csr_set = 2"
definition csr_clear :: u32 where "csr_clear = 3"

definition CSRRx :: "u32 \<Rightarrow> u32 \<Rightarrow> u32 \<Rightarrow> u32 \<Rightarrow> u32" where
  "CSRRx type dst csr src = 0x73 OR push_bit 12 type OR push_bit 7 dst OR push_bit 15 src OR push_bit 20 csr"

section \<open>State and requests\<close>

record req =
  req_addr :: u32
  req_op :: u32
  req_data :: u32

record resp =
  resp_resp :: u32
  resp_data :: u32

text \<open>\<open>target\<close> is the state of the debug module, \<open>printed\<close> what \<^verbatim>\<open>die\<close> has printed.\<close>

record 't dtm =
  req_buf :: req
  resp_buf :: resp
  running :: bool
  req_wait :: bool
  resp_wait :: bool
  data_base :: u32
  xlen :: nat
  ram_words :: nat
  data_words :: nat
  num_harts :: nat
  current_hart :: nat
  target :: 't
  printed :: "string list"

type_synonym 't dmi = "req \<Rightarrow> 't \<Rightarrow> resp \<times> 't"

definition do_command :: "'t dmi \<Rightarrow> req \<Rightarrow> ('t dtm, u32) M" where
  "do_command dmi r =
     bindM (modifyM (\<lambda>s. s\<lparr>req_buf := r\<rparr>)) (\<lambda>_.
     bindM (modifyM (\<lambda>s. case dmi (req_buf s) (target s) of (p, t) \<Rightarrow> s\<lparr>resp_buf := p, target := t\<rparr>)) (\<lambda>_.
     bindM (getM resp_buf) (\<lambda>p.
     bindM (assertM (resp_resp p = 0) ''resp_buf.resp == 0'') (\<lambda>_.
     return (resp_data p)))))"

definition dmi_read :: "'t dmi \<Rightarrow> u32 \<Rightarrow> ('t dtm, u32) M" where
  "dmi_read dmi addr = do_command dmi \<lparr>req_addr = addr, req_op = 1, req_data = 0\<rparr>"

definition dmi_write :: "'t dmi \<Rightarrow> u32 \<Rightarrow> u32 \<Rightarrow> ('t dtm, u32) M" where
  "dmi_write dmi addr data = do_command dmi \<lparr>req_addr = addr, req_op = 2, req_data = data\<rparr>"

definition nop :: "'t dmi \<Rightarrow> ('t dtm, unit) M" where
  "nop dmi = bindM (do_command dmi \<lparr>req_addr = 0, req_op = 0, req_data = 0\<rparr>) (\<lambda>_. return ())"

section \<open>Harts\<close>

definition select_hart :: "'t dmi \<Rightarrow> nat \<Rightarrow> ('t dtm, unit) M" where
  "select_hart dmi hartsel =
     bindM (dmi_read dmi DMI_DMCONTROL) (\<lambda>dmcontrol.
     bindM (dmi_write dmi DMI_DMCONTROL (set_field dmcontrol DMI_DMCONTROL_HARTSEL (of_nat hartsel))) (\<lambda>_.
     modifyM (\<lambda>s. s\<lparr>current_hart := hartsel\<rparr>)))"

function enumerate_loop :: "'t dmi \<Rightarrow> nat \<Rightarrow> nat \<Rightarrow> ('t dtm, nat) M" where
  "enumerate_loop dmi max_hart hartsel =
     (if hartsel \<le> max_hart then
        bindM (select_hart dmi hartsel) (\<lambda>_.
        bindM (dmi_read dmi DMI_DMSTATUS) (\<lambda>dmstatus.
        if get_field dmstatus DMI_DMSTATUS_ANYNONEXISTENT \<noteq> 0 then return hartsel
        else enumerate_loop dmi max_hart (hartsel + 1)))
      else return hartsel)"
  by pat_completeness auto
termination by (relation "measure (\<lambda>(dmi, max_hart, hartsel). Suc max_hart - hartsel)") auto

declare enumerate_loop.simps [simp del]

definition enumerate_harts :: "'t dmi \<Rightarrow> ('t dtm, nat) M" where
  "enumerate_harts dmi =
     (let max_hart = (push_bit DMI_DMCONTROL_HARTSEL_LENGTH 1 - 1 :: u32) in
      bindM (dmi_read dmi DMI_DMCONTROL) (\<lambda>dmcontrol.
      bindM (dmi_write dmi DMI_DMCONTROL (set_field dmcontrol DMI_DMCONTROL_HARTSEL max_hart)) (\<lambda>_.
      bindM (dmi_read dmi DMI_DMSTATUS) (\<lambda>_.
      bindM (dmi_read dmi DMI_DMCONTROL) (\<lambda>dmcontrol.
      enumerate_loop dmi (unat (get_field dmcontrol DMI_DMCONTROL_HARTSEL)) 0)))))"

definition halt :: "'t dmi \<Rightarrow> nat \<Rightarrow> ('t dtm, unit) M" where
  "halt dmi hartsel =
     bindM (getM running) (\<lambda>running.
     bindM (if running then
         bindM (dmi_write dmi DMI_DMCONTROL DMI_DMCONTROL_DMACTIVE) (\<lambda>_. dmi_read dmi DMI_DMSTATUS)
       else return 0) (\<lambda>_.
     let dmcontrol = set_field (DMI_DMCONTROL_HALTREQ OR DMI_DMCONTROL_DMACTIVE) DMI_DMCONTROL_HARTSEL (of_nat hartsel) in
     bindM (dmi_write dmi DMI_DMCONTROL dmcontrol) (\<lambda>_.
     bindM (do_while (dmi_read dmi DMI_DMSTATUS) (\<lambda>dmstatus. get_field dmstatus DMI_DMSTATUS_ALLHALTED = 0)) (\<lambda>_.
     bindM (dmi_write dmi DMI_DMCONTROL (dmcontrol AND NOT DMI_DMCONTROL_HALTREQ)) (\<lambda>_.
     bindM (dmi_read dmi DMI_DMSTATUS) (\<lambda>_.
     modifyM (\<lambda>s. s\<lparr>current_hart := hartsel\<rparr>)))))))"

definition resume :: "'t dmi \<Rightarrow> nat \<Rightarrow> ('t dtm, unit) M" where
  "resume dmi hartsel =
     (let dmcontrol = set_field (DMI_DMCONTROL_RESUMEREQ OR DMI_DMCONTROL_DMACTIVE) DMI_DMCONTROL_HARTSEL (of_nat hartsel) in
     bindM (dmi_write dmi DMI_DMCONTROL dmcontrol) (\<lambda>_.
     bindM (do_while (dmi_read dmi DMI_DMSTATUS) (\<lambda>dmstatus. get_field dmstatus DMI_DMSTATUS_ALLRESUMEACK = 0)) (\<lambda>_.
     bindM (dmi_write dmi DMI_DMCONTROL (dmcontrol AND NOT DMI_DMCONTROL_RESUMEREQ)) (\<lambda>_.
     bindM (dmi_read dmi DMI_DMSTATUS) (\<lambda>_.
     bindM (modifyM (\<lambda>s. s\<lparr>current_hart := hartsel\<rparr>)) (\<lambda>_.
     bindM (getM running) (\<lambda>running.
     if running then
       bindM (dmi_write dmi DMI_DMCONTROL 0) (\<lambda>_. bindM (dmi_read dmi DMI_DMSTATUS) (\<lambda>_. return ()))
     else return ())))))))"

section \<open>Abstract commands\<close>

text \<open>Arrays of words on the stack: accesses beyond their length are errors.\<close>

definition get_word :: "u32 list \<Rightarrow> nat \<Rightarrow> error + u32" where
  "get_word xs i = (if i < length xs then Inr (xs ! i) else Inl Out_of_bounds)"

definition put_word :: "nat \<Rightarrow> u32 \<Rightarrow> u32 list \<Rightarrow> error + u32 list" where
  "put_word i x xs = (if i < length xs then Inr (xs[i := x]) else Inl Out_of_bounds)"

definition put_words :: "(nat \<times> u32) list \<Rightarrow> u32 list \<Rightarrow> error + u32 list" where
  "put_words ixs xs = fold (\<lambda>(i, x) r. case r of Inl e \<Rightarrow> Inl e | Inr xs \<Rightarrow> put_word i x xs) ixs (Inr xs)"

fun read_data :: "'t dmi \<Rightarrow> nat list \<Rightarrow> u32 list \<Rightarrow> ('t dtm, u32 list) M" where
  "read_data dmi [] data = return data"
| "read_data dmi (i # is) data =
     bindM (dmi_read dmi (DMI_DATA0 + of_nat i)) (\<lambda>w.
     bindM (liftE (put_word i w data)) (\<lambda>data.
     read_data dmi is data))"

definition run_abstract_command ::
  "'t dmi \<Rightarrow> u32 \<Rightarrow> u32 list \<Rightarrow> nat \<Rightarrow> u32 list \<Rightarrow> nat \<Rightarrow> ('t dtm, u32 \<times> u32 list) M" where
  "run_abstract_command dmi command program program_n data data_n =
     bindM (getM ram_words) (\<lambda>ram_words.
     bindM (assertM (program_n \<le> ram_words) ''program_n <= ram_words'') (\<lambda>_.
     bindM (getM data_words) (\<lambda>data_words.
     bindM (assertM (data_n \<le> data_words) ''data_n <= data_words'') (\<lambda>_.
     bindM (forM (\<lambda>i. bindM (liftE (get_word program i)) (\<lambda>w.
         bindM (dmi_write dmi (DMI_PROGBUF0 + of_nat i) w) (\<lambda>_. return ()))) [0..<program_n]) (\<lambda>_.
     bindM (if get_field command AC_ACCESS_REGISTER_WRITE \<noteq> 0 \<and> get_field command AC_ACCESS_REGISTER_TRANSFER \<noteq> 0 then
         forM (\<lambda>i. bindM (liftE (get_word data i)) (\<lambda>w.
           bindM (dmi_write dmi (DMI_DATA0 + of_nat i) w) (\<lambda>_. return ()))) [0..<data_n]
       else return ()) (\<lambda>_.
     bindM (dmi_write dmi DMI_COMMAND command) (\<lambda>_.
     bindM (do_while (dmi_read dmi DMI_ABSTRACTCS) (\<lambda>abstractcs. abstractcs AND DMI_ABSTRACTCS_BUSY \<noteq> 0)) (\<lambda>abstractcs.
     bindM (if get_field command AC_ACCESS_REGISTER_WRITE = 0 \<and> get_field command AC_ACCESS_REGISTER_TRANSFER \<noteq> 0 then
         read_data dmi [0..<data_n] data
       else return data) (\<lambda>data.
     return (get_field abstractcs DMI_ABSTRACTCS_CMDERR, data))))))))))"

definition codes :: "string list" where
  "codes = [''OK'', ''BUSY'', ''NOT_SUPPORTED'', ''EXCEPTION'', ''HALT/RESUME'']"

text \<open>The messages are recorded without the position in the source that they print.\<close>

definition die :: "'t dmi \<Rightarrow> u32 \<Rightarrow> ('t dtm, unit) M" where
  "die dmi cmderr =
     (let msg = (if unat cmderr < length codes then codes ! unat cmderr else ''OTHER'') in
      bindM (modifyM (\<lambda>s. s\<lparr>printed := printed s @ [msg]\<rparr>)) (\<lambda>_.
      bindM (dmi_write dmi DMI_ABSTRACTCS DMI_ABSTRACTCS_CMDERR) (\<lambda>_. return ())))"

definition run_ac_or_die ::
  "'t dmi \<Rightarrow> u32 \<Rightarrow> u32 list \<Rightarrow> nat \<Rightarrow> u32 list \<Rightarrow> nat \<Rightarrow> ('t dtm, u32 list) M" where
  "run_ac_or_die dmi command program program_n data data_n =
     bindM (run_abstract_command dmi command program program_n data data_n) (\<lambda>(cmderr, data).
     bindM (if cmderr \<noteq> 0 then die dmi cmderr else return ()) (\<lambda>_.
     return data))"

definition save_reg :: "'t dmi \<Rightarrow> u32 \<Rightarrow> ('t dtm, u64) M" where
  "save_reg dmi regno =
     bindM (getM xlen) (\<lambda>xlen.
     let data = replicate (xlen div (8 * 4)) 0;
         command = AC_ACCESS_REGISTER_TRANSFER OR AC_AR_SIZE xlen OR AC_AR_REGNO regno in
     bindM (run_ac_or_die dmi command [] 0 data (xlen div (8 * 4))) (\<lambda>data.
     bindM (liftE (get_word data 0)) (\<lambda>d0.
     if 32 < xlen then
       bindM (liftE (get_word data 1)) (\<lambda>d1. return (ucast d0 OR push_bit 32 (ucast d1)))
     else return (ucast d0))))"

text \<open>The words of a value that fill the first entries of a data array.\<close>

definition value_words :: "nat \<Rightarrow> u64 \<Rightarrow> (nat \<times> u32) list" where
  "value_words xl val = (0, ucast val) # (if 32 < xl then [(1, ucast (drop_bit 32 val))] else [])"

definition restore_reg :: "'t dmi \<Rightarrow> u32 \<Rightarrow> u64 \<Rightarrow> ('t dtm, unit) M" where
  "restore_reg dmi regno val =
     bindM (getM xlen) (\<lambda>xlen.
     bindM (liftE (put_words (value_words xlen val) (replicate (xlen div (8 * 4)) 0))) (\<lambda>data.
     let command = AC_ACCESS_REGISTER_TRANSFER OR AC_ACCESS_REGISTER_WRITE OR AC_AR_SIZE xlen OR AC_AR_REGNO regno in
     bindM (run_ac_or_die dmi command [] 0 data (xlen div (8 * 4))) (\<lambda>_. return ())))"

section \<open>Chunks\<close>

definition dtm_chunk_align :: "'t dtm \<Rightarrow> nat" where
  "dtm_chunk_align s = xlen s div 8"

definition dtm_chunk_max_size :: "'t dtm \<Rightarrow> nat" where
  "dtm_chunk_max_size s = 4096"

text \<open>\<^verbatim>\<open>memcpy\<close> between an array of words and bytes.\<close>

definition words_to_bytes :: "u32 list \<Rightarrow> nat \<Rightarrow> error + u8 list" where
  "words_to_bytes data n = (let bs = concat (map le_bytes data) in
     if n \<le> length bs then Inr (take n bs) else Inl Out_of_bounds)"

definition bytes_to_words :: "u8 list \<Rightarrow> nat \<Rightarrow> nat \<Rightarrow> u32 list \<Rightarrow> error + u32 list" where
  "bytes_to_words src off n data =
     (if off + n \<le> length src \<and> n \<le> 4 * length data then
        put_words (map (\<lambda>i. (i, le_word (take 4 (drop (off + 4 * i) src)))) [0..<n div 4]) data
      else Inl Out_of_bounds)"

fun read_words :: "'t dmi \<Rightarrow> nat \<Rightarrow> u32 list \<Rightarrow> nat list \<Rightarrow> ('t dtm, u8 list) M" where
  "read_words dmi n data [] = return []"
| "read_words dmi n data (i # is) =
     bindM (getM xlen) (\<lambda>xlen.
     let command = AC_ACCESS_REGISTER_TRANSFER OR AC_AR_SIZE xlen OR AC_AR_REGNO S1;
         command = (if i + 1 < n then command OR AC_ACCESS_REGISTER_POSTEXEC else command) in
     bindM (run_ac_or_die dmi command [] 0 data (xlen div (4 * 8))) (\<lambda>data.
     bindM (liftE (words_to_bytes data (xlen div 8))) (\<lambda>curr.
     bindM (read_words dmi n data is) (\<lambda>rest. return (curr @ rest)))))"

definition dtm_read_chunk :: "'t dmi \<Rightarrow> u64 \<Rightarrow> nat \<Rightarrow> ('t dtm, u8 list) M" where
  "dtm_read_chunk dmi taddr len =
     bindM (getM (\<lambda>s. (xlen s, ram_words s, data_words s, current_hart s))) (\<lambda>(xlen, ram, words, hart).
     bindM (halt dmi hart) (\<lambda>_.
     bindM (save_reg dmi S0) (\<lambda>s0.
     bindM (save_reg dmi S1) (\<lambda>s1.
     bindM (liftE (put_words [(0, LOAD xlen S1 S0 0), (1, ADDI S0 S0 (of_nat (xlen div 8))), (2, EBREAK)]
       (replicate ram 0))) (\<lambda>prog.
     bindM (liftE (put_words (value_words xlen taddr) (replicate words 0))) (\<lambda>data.
     let command = AC_ACCESS_REGISTER_TRANSFER OR AC_ACCESS_REGISTER_WRITE OR AC_ACCESS_REGISTER_POSTEXEC
           OR AC_AR_SIZE xlen OR AC_AR_REGNO S0 in
     bindM (run_ac_or_die dmi command prog 3 data (xlen div (4 * 8))) (\<lambda>data.
     bindM (read_words dmi (len * 8 div xlen) data [0..<len * 8 div xlen]) (\<lambda>dst.
     bindM (restore_reg dmi S0 s0) (\<lambda>_.
     bindM (restore_reg dmi S1 s1) (\<lambda>_.
     bindM (getM current_hart) (\<lambda>hart.
     bindM (resume dmi hart) (\<lambda>_. return dst))))))))))))"

fun write_words :: "'t dmi \<Rightarrow> u8 list \<Rightarrow> u32 list \<Rightarrow> nat list \<Rightarrow> ('t dtm, unit) M" where
  "write_words dmi src data [] = return ()"
| "write_words dmi src data (i # is) =
     bindM (getM xlen) (\<lambda>xlen.
     bindM (if i = 1 then
         bindM (dmi_write dmi DMI_ABSTRACTAUTO (push_bit DMI_ABSTRACTAUTO_AUTOEXECDATA_OFFSET 1)) (\<lambda>_. return ())
       else return ()) (\<lambda>_.
     bindM (liftE (bytes_to_words src (i * (xlen div 8)) (xlen div 8) data)) (\<lambda>data.
     bindM (if xlen = 64 then
         bindM (liftE (get_word data 1)) (\<lambda>w. bindM (dmi_write dmi (DMI_DATA0 + 1) w) (\<lambda>_. return ()))
       else return ()) (\<lambda>_.
     bindM (liftE (get_word data 0)) (\<lambda>w.
     bindM (dmi_write dmi DMI_DATA0 w) (\<lambda>_.
     bindM (do_while (dmi_read dmi DMI_ABSTRACTCS) (\<lambda>abstractcs. abstractcs AND DMI_ABSTRACTCS_BUSY \<noteq> 0)) (\<lambda>abstractcs.
     bindM (if get_field abstractcs DMI_ABSTRACTCS_CMDERR \<noteq> 0
         then die dmi (get_field abstractcs DMI_ABSTRACTCS_CMDERR) else return ()) (\<lambda>_.
     write_words dmi src data is))))))))"

definition dtm_write_chunk :: "'t dmi \<Rightarrow> u64 \<Rightarrow> u8 list \<Rightarrow> ('t dtm, unit) M" where
  "dtm_write_chunk dmi taddr src =
     bindM (getM (\<lambda>s. (xlen s, ram_words s, data_words s, current_hart s))) (\<lambda>(xlen, ram, words, hart).
     bindM (halt dmi hart) (\<lambda>_.
     bindM (save_reg dmi S0) (\<lambda>s0.
     bindM (save_reg dmi S1) (\<lambda>s1.
     bindM (liftE (put_words [(0, STORE xlen S1 S0 0), (1, ADDI S0 S0 (of_nat (xlen div 8))), (2, EBREAK)]
       (replicate ram 0))) (\<lambda>prog.
     bindM (liftE (put_words (value_words xlen taddr) (replicate words 0))) (\<lambda>data.
     let command = AC_ACCESS_REGISTER_TRANSFER OR AC_ACCESS_REGISTER_WRITE OR AC_AR_SIZE xlen OR AC_AR_REGNO S0 in
     bindM (run_ac_or_die dmi command prog 3 data (xlen div (4 * 8))) (\<lambda>data.
     bindM (liftE (bytes_to_words src 0 (xlen div 8) data)) (\<lambda>data.
     let command = AC_ACCESS_REGISTER_TRANSFER OR AC_ACCESS_REGISTER_POSTEXEC OR AC_ACCESS_REGISTER_WRITE
           OR AC_AR_SIZE xlen OR AC_AR_REGNO S1 in
     bindM (run_ac_or_die dmi command [] 0 data (xlen div (4 * 8))) (\<lambda>data.
     bindM (write_words dmi src data [1..<length src * 8 div xlen]) (\<lambda>_.
     bindM (if 1 < length src * 8 div xlen then
         bindM (dmi_write dmi DMI_ABSTRACTAUTO 0) (\<lambda>_. return ()) else return ()) (\<lambda>_.
     bindM (restore_reg dmi S0 s0) (\<lambda>_.
     bindM (restore_reg dmi S1 s1) (\<lambda>_.
     bindM (getM current_hart) (\<lambda>hart.
     resume dmi hart))))))))))))))"

definition dtm_clear_chunk :: "'t dmi \<Rightarrow> u64 \<Rightarrow> nat \<Rightarrow> ('t dtm, unit) M" where
  "dtm_clear_chunk dmi taddr len =
     bindM (getM (\<lambda>s. (xlen s, ram_words s, data_words s, current_hart s))) (\<lambda>(xlen, ram, words, hart).
     bindM (halt dmi hart) (\<lambda>_.
     bindM (save_reg dmi S0) (\<lambda>s0.
     bindM (save_reg dmi S1) (\<lambda>s1.
     bindM (liftE (put_words [(0, ucast taddr), (1, ucast (drop_bit 32 taddr))] (replicate words 0))) (\<lambda>data.
     let command = AC_ACCESS_REGISTER_TRANSFER OR AC_ACCESS_REGISTER_WRITE OR AC_AR_SIZE xlen OR AC_AR_REGNO S0 in
     bindM (run_ac_or_die dmi command [] 0 data (xlen div (4 * 8))) (\<lambda>data.
     bindM (liftE (put_words [(0, STORE xlen X0 S0 0), (1, ADDI S0 S0 (of_nat (xlen div 8))),
       (2, BNE S0 S1 (0 * 4) (2 * 4)), (3, EBREAK)] (replicate ram 0))) (\<lambda>prog.
     let end_addr = taddr + of_nat len in
     bindM (liftE (put_words [(0, ucast end_addr), (1, ucast (drop_bit 32 end_addr))] data)) (\<lambda>data.
     let command = AC_ACCESS_REGISTER_TRANSFER OR AC_ACCESS_REGISTER_WRITE OR AC_AR_SIZE xlen OR AC_AR_REGNO S1
           OR AC_ACCESS_REGISTER_POSTEXEC in
     bindM (run_ac_or_die dmi command prog 4 data (xlen div (4 * 8))) (\<lambda>_.
     bindM (restore_reg dmi S0 s0) (\<lambda>_.
     bindM (restore_reg dmi S1 s1) (\<lambda>_.
     bindM (getM current_hart) (\<lambda>hart.
     resume dmi hart))))))))))))"

definition dtm_ops :: "'t dmi \<Rightarrow> 't dtm chunked_memif" where
  "dtm_ops dmi = \<lparr>read_chunk = dtm_read_chunk dmi, write_chunk = dtm_write_chunk dmi,
     clear_chunk = dtm_clear_chunk dmi, chunk_align = dtm_chunk_align, chunk_max_size = dtm_chunk_max_size\<rparr>"

section \<open>Control and status registers\<close>

definition modify_csr :: "'t dmi \<Rightarrow> u32 \<Rightarrow> u64 \<Rightarrow> u32 \<Rightarrow> ('t dtm, u64) M" where
  "modify_csr dmi which data type =
     bindM (getM (\<lambda>s. (xlen s, data_base s, current_hart s))) (\<lambda>(xlen, data_base, hart).
     bindM (halt dmi hart) (\<lambda>_.
     let prog = [CSRRx csr_write S0 CSR_DSCRATCH S0, LOAD xlen S0 X0 data_base, CSRRx type S0 which S0,
           STORE xlen S0 X0 data_base, CSRRx csr_write S0 CSR_DSCRATCH S0, EBREAK];
         adata = [ucast data, ucast (drop_bit 32 data)];
         command = AC_ACCESS_REGISTER_POSTEXEC OR AC_ACCESS_REGISTER_TRANSFER OR AC_ACCESS_REGISTER_WRITE
           OR AC_AR_SIZE xlen OR AC_AR_REGNO X0 in
     bindM (run_ac_or_die dmi command prog 6 adata (xlen div (4 * 8))) (\<lambda>_.
     bindM (dmi_read dmi DMI_DATA0) (\<lambda>lo.
     bindM (if xlen = 64 then
         bindM (dmi_read dmi (DMI_DATA0 + 1)) (\<lambda>hi. return (ucast lo OR ucast hi))
       else return (ucast lo)) (\<lambda>res.
     bindM (getM current_hart) (\<lambda>hart.
     bindM (resume dmi hart) (\<lambda>_. return res)))))))"

definition write_csr :: "'t dmi \<Rightarrow> u32 \<Rightarrow> u64 \<Rightarrow> ('t dtm, u64) M" where
  "write_csr dmi which data = modify_csr dmi which data csr_write"

definition set_csr :: "'t dmi \<Rightarrow> u32 \<Rightarrow> u64 \<Rightarrow> ('t dtm, u64) M" where
  "set_csr dmi which data = modify_csr dmi which data csr_set"

definition clear_csr :: "'t dmi \<Rightarrow> u32 \<Rightarrow> u64 \<Rightarrow> ('t dtm, u64) M" where
  "clear_csr dmi which data = modify_csr dmi which data csr_clear"

definition read_csr :: "'t dmi \<Rightarrow> u32 \<Rightarrow> ('t dtm, u64) M" where
  "read_csr dmi which = set_csr dmi which 0"

section \<open>Start and idle\<close>

definition get_xlen :: "'t dmi \<Rightarrow> ('t dtm, nat) M" where
  "get_xlen dmi =
     (let command = AC_ACCESS_REGISTER_TRANSFER OR AC_AR_REGNO S0 in
      bindM (run_abstract_command dmi (command OR AC_AR_SIZE 128) [] 0 [] 0) (\<lambda>(cmderr, _).
      if cmderr = 0 then throw (Runtime_error ''FESVR DTM Does not support 128-bit'') else
      bindM (dmi_write dmi DMI_ABSTRACTCS DMI_ABSTRACTCS_CMDERR) (\<lambda>_.
      bindM (run_abstract_command dmi (command OR AC_AR_SIZE 64) [] 0 [] 0) (\<lambda>(cmderr, _).
      if cmderr = 0 then return 64 else
      bindM (dmi_write dmi DMI_ABSTRACTCS DMI_ABSTRACTCS_CMDERR) (\<lambda>_.
      bindM (run_abstract_command dmi (command OR AC_AR_SIZE 32) [] 0 [] 0) (\<lambda>(cmderr, _).
      if cmderr = 0 then return 32
      else throw (Runtime_error ''FESVR DTM can't determine XLEN. Aborting'')))))))"

definition fence_i :: "'t dmi \<Rightarrow> ('t dtm, unit) M" where
  "fence_i dmi =
     bindM (getM (\<lambda>s. (xlen s, current_hart s))) (\<lambda>(xlen, hart).
     bindM (halt dmi hart) (\<lambda>_.
     let command = AC_ACCESS_REGISTER_POSTEXEC OR AC_ACCESS_REGISTER_TRANSFER OR AC_ACCESS_REGISTER_WRITE
           OR AC_AR_SIZE xlen OR AC_AR_REGNO X0 in
     bindM (run_ac_or_die dmi command [FENCE_I, EBREAK] 2 [] 0) (\<lambda>_.
     bindM (getM current_hart) (\<lambda>hart.
     resume dmi hart))))"

definition dtm_reset :: "'t dmi \<Rightarrow> u64 \<Rightarrow> ('t dtm, unit) M" where
  "dtm_reset dmi entry =
     bindM (getM num_harts) (\<lambda>n.
     bindM (forM (\<lambda>hartsel.
         bindM (select_hart dmi hartsel) (\<lambda>_.
         bindM (fence_i dmi) (\<lambda>_.
         bindM (write_csr dmi 0x7b1 entry) (\<lambda>_. return ())))) [0..<n]) (\<lambda>_.
     bindM (select_hart dmi 0) (\<lambda>_.
     bindM (dmi_read dmi DMI_DMSTATUS) (\<lambda>_. return ()))))"

definition max_idle_cycles :: nat where "max_idle_cycles = 10000"

definition dtm_idle :: "'t dmi \<Rightarrow> ('t dtm, unit) M" where
  "dtm_idle dmi = forM (\<lambda>_. nop dmi) [0..<max_idle_cycles]"

text \<open>\<open>producer_thread\<close> is the host thread: \<open>run\<close> is \<^verbatim>\<open>htif_t::run\<close>. It never returns.\<close>

definition learn :: "'t dmi \<Rightarrow> ('t dtm, unit) M" where
  "learn dmi =
     bindM (dmi_read dmi DMI_ABSTRACTCS) (\<lambda>abstractcs.
     bindM (modifyM (\<lambda>s. s\<lparr>ram_words := unat (get_field abstractcs DMI_ABSTRACTCS_PROGSIZE),
       data_words := unat (get_field abstractcs DMI_ABSTRACTCS_DATACOUNT)\<rparr>)) (\<lambda>_.
     bindM (dmi_read dmi DMI_HARTINFO) (\<lambda>hartinfo.
     bindM (assertM (0 < get_field hartinfo DMI_HARTINFO_NSCRATCH)
       ''get_field(hartinfo, DMI_HARTINFO_NSCRATCH) > 0'') (\<lambda>_.
     bindM (assertM (get_field hartinfo DMI_HARTINFO_DATAACCESS \<noteq> 0)
       ''get_field(hartinfo, DMI_HARTINFO_DATAACCESS)'') (\<lambda>_.
     bindM (modifyM (\<lambda>s. s\<lparr>data_base := get_field hartinfo DMI_HARTINFO_DATAADDR\<rparr>)) (\<lambda>_.
     bindM (dmi_write dmi DMI_DMCONTROL DMI_DMCONTROL_DMACTIVE) (\<lambda>_.
     bindM (enumerate_harts dmi) (\<lambda>n.
     bindM (modifyM (\<lambda>s. s\<lparr>num_harts := n\<rparr>)) (\<lambda>_.
     bindM (halt dmi 0) (\<lambda>_.
     bindM (get_xlen dmi) (\<lambda>x.
     bindM (modifyM (\<lambda>s. s\<lparr>xlen := x\<rparr>)) (\<lambda>_.
     bindM (resume dmi 0) (\<lambda>_.
     modifyM (\<lambda>s. s\<lparr>running := True\<rparr>))))))))))))))"

definition producer_thread :: "'t dmi \<Rightarrow> ('t dtm, int) M \<Rightarrow> ('t dtm, unit) M" where
  "producer_thread dmi run =
     bindM (learn dmi) (\<lambda>_.
     bindM run (\<lambda>_.
     while_loop (\<lambda>_. True) (nop dmi)))"

section \<open>The side of the simulator\<close>

definition start_host_thread :: "'t dtm \<Rightarrow> 't dtm" where
  "start_host_thread s = s\<lparr>req_wait := False, resp_wait := False\<rparr>"

text \<open>The result says whether the tick switches to the host thread.\<close>

definition tick :: "bool \<Rightarrow> bool \<Rightarrow> resp \<Rightarrow> ('t dtm, bool) M" where
  "tick req_ready resp_valid resp_bits =
     bindM (modifyM (\<lambda>s.
       if \<not> resp_wait s then
         if \<not> req_wait s then s\<lparr>req_wait := True\<rparr>
         else if req_ready then s\<lparr>req_wait := False, resp_wait := True\<rparr>
         else s
       else s)) (\<lambda>_.
     if resp_valid then
       bindM (getM resp_wait) (\<lambda>w.
       bindM (assertM w ''resp_wait'') (\<lambda>_.
       bindM (modifyM (\<lambda>s. s\<lparr>resp_wait := False, resp_buf := resp_bits\<rparr>)) (\<lambda>_.
       return True)))
     else return False)"

definition return_resp :: "resp \<Rightarrow> ('t dtm, bool) M" where
  "return_resp resp_bits = bindM (modifyM (\<lambda>s. s\<lparr>resp_buf := resp_bits\<rparr>)) (\<lambda>_. return True)"

definition req_valid :: "'t dtm \<Rightarrow> bool" where
  "req_valid s = req_wait s"

definition req_bits :: "'t dtm \<Rightarrow> req" where
  "req_bits s = req_buf s"

definition resp_ready :: bool where "resp_ready = True"

end
