(* ===== verification/Dtm_facts.thy ===== *)
theory Dtm_facts
  imports Dtm
begin

text \<open>
  Facts about the debug transport module: the register-field macros, the instruction encodings,
  the traffic of an abstract command and the handshake with the simulator.
\<close>

section \<open>Fields\<close>

text \<open>The masks of \<^verbatim>\<open>debug_defines.h\<close>: \<open>n\<close> ones at offset \<open>k\<close>.\<close>

definition field_mask :: "nat \<Rightarrow> nat \<Rightarrow> u32" where
  "field_mask k n = push_bit k (mask n)"

lemma bit_field_mask: "bit (field_mask k n) i \<longleftrightarrow> k \<le> i \<and> i < k + n \<and> i < 32"
  unfolding field_mask_def by (auto simp: bit_simps)

lemma low_bit:
  assumes "0 < n" "k + n \<le> 32"
  shows "field_mask k n AND NOT (push_bit 1 (field_mask k n)) = push_bit k 1"
proof (rule bit_word_eqI)
  fix i assume i: "i < LENGTH(32)"
  have "bit (push_bit 1 (field_mask k n)) i \<longleftrightarrow> 1 \<le> i \<and> k \<le> i - 1 \<and> i - 1 < k + n"
    using i by (simp only: bit_push_bit_iff bit_field_mask) auto
  then show "bit (field_mask k n AND NOT (push_bit 1 (field_mask k n))) i = bit (push_bit k 1 :: u32) i"
    using i assms by (simp only: bit_and_iff bit_not_iff bit_field_mask bit_push_bit_iff bit_1_iff) auto
qed

lemma div_push_bit: "k < 32 \<Longrightarrow> x div push_bit k 1 = drop_bit k (x :: u32)"
  by (simp add: push_bit_eq_mult drop_bit_eq_div)

lemma mult_push_bit: "x * push_bit k 1 = push_bit k (x :: u32)"
  by (simp add: push_bit_eq_mult)

lemma get_field_eq:
  assumes "0 < n" "k + n \<le> 32"
  shows "get_field reg (field_mask k n) = take_bit n (drop_bit k reg)"
proof -
  have "k < 32" using assms by simp
  then have "get_field reg (field_mask k n) = drop_bit k (reg AND field_mask k n)"
    unfolding get_field_def low_bit [OF assms] by (rule div_push_bit)
  also have "\<dots> = take_bit n (drop_bit k reg)"
    by (rule bit_word_eqI) (auto simp: bit_simps bit_field_mask dest: bit_imp_le_length)
  finally show ?thesis .
qed

lemma set_field_eq:
  assumes "0 < n" "k + n \<le> 32"
  shows "set_field reg (field_mask k n) v = (reg AND NOT (field_mask k n)) OR push_bit k (take_bit n v)"
proof -
  have "push_bit k v AND field_mask k n = push_bit k (take_bit n v)"
    by (rule bit_word_eqI) (auto simp: bit_simps bit_field_mask)
  then show ?thesis unfolding set_field_def low_bit [OF assms] mult_push_bit by simp
qed

lemma get_set_field:
  assumes "0 < n" "k + n \<le> 32"
  shows "get_field (set_field reg (field_mask k n) v) (field_mask k n) = take_bit n v"
  unfolding get_field_eq [OF assms] set_field_eq [OF assms] using assms
  by (intro bit_word_eqI) (auto simp: bit_simps bit_field_mask)

lemma get_set_other:
  assumes "0 < n" "k + n \<le> 32" "0 < n'" "k' + n' \<le> 32" "k + n \<le> k' \<or> k' + n' \<le> k"
  shows "get_field (set_field reg (field_mask k n) v) (field_mask k' n') = get_field reg (field_mask k' n')"
  unfolding get_field_eq [OF assms(3,4)] set_field_eq [OF assms(1,2)] using assms
  by (intro bit_word_eqI) (auto simp: bit_simps bit_field_mask)

lemma mask_literals:
  "DMI_DMCONTROL_HARTSEL = field_mask 16 10" "DMI_DMCONTROL_HALTREQ = field_mask 31 1"
  "DMI_DMCONTROL_RESUMEREQ = field_mask 30 1" "DMI_DMCONTROL_DMACTIVE = field_mask 0 1"
  "DMI_DMSTATUS_ANYNONEXISTENT = field_mask 14 1" "DMI_DMSTATUS_ALLHALTED = field_mask 9 1"
  "DMI_DMSTATUS_ALLRESUMEACK = field_mask 17 1" "DMI_ABSTRACTCS_PROGSIZE = field_mask 24 5"
  "DMI_ABSTRACTCS_DATACOUNT = field_mask 0 5" "DMI_ABSTRACTCS_CMDERR = field_mask 8 3"
  "DMI_ABSTRACTCS_BUSY = field_mask 12 1" "DMI_HARTINFO_DATAADDR = field_mask 0 12"
  "DMI_HARTINFO_NSCRATCH = field_mask 20 4" "DMI_HARTINFO_DATAACCESS = field_mask 16 1"
  "AC_ACCESS_REGISTER_WRITE = field_mask 16 1" "AC_ACCESS_REGISTER_TRANSFER = field_mask 17 1"
  by (simp_all add: DMI_DMCONTROL_HARTSEL_def DMI_DMCONTROL_HALTREQ_def DMI_DMCONTROL_RESUMEREQ_def
      DMI_DMCONTROL_DMACTIVE_def DMI_DMSTATUS_ANYNONEXISTENT_def DMI_DMSTATUS_ALLHALTED_def
      DMI_DMSTATUS_ALLRESUMEACK_def DMI_ABSTRACTCS_PROGSIZE_def DMI_ABSTRACTCS_DATACOUNT_def
      DMI_ABSTRACTCS_CMDERR_def DMI_ABSTRACTCS_BUSY_def DMI_HARTINFO_DATAADDR_def
      DMI_HARTINFO_NSCRATCH_def DMI_HARTINFO_DATAACCESS_def AC_ACCESS_REGISTER_WRITE_def
      AC_ACCESS_REGISTER_TRANSFER_def field_mask_def mask_eq_exp_minus_1)

text \<open>The word that selects and halts a hart.\<close>

lemma halt_word:
  fixes w :: u32
  assumes "hart < 1024"
    and "w = set_field (DMI_DMCONTROL_HALTREQ OR DMI_DMCONTROL_DMACTIVE) DMI_DMCONTROL_HARTSEL (of_nat hart)"
  shows "get_field w DMI_DMCONTROL_HARTSEL = of_nat hart" "get_field w DMI_DMCONTROL_HALTREQ = 1"
    "get_field w DMI_DMCONTROL_RESUMEREQ = 0" "get_field w DMI_DMCONTROL_DMACTIVE = 1"
proof -
  have "take_bit 10 (of_nat hart :: u32) = of_nat (take_bit 10 hart)" by (simp add: take_bit_of_nat)
  also have "take_bit 10 hart = hart" using assms(1) by (simp add: take_bit_nat_eq_self)
  finally have t: "take_bit 10 (of_nat hart :: u32) = of_nat hart" .
  show "get_field w DMI_DMCONTROL_HARTSEL = of_nat hart"
    unfolding assms(2) mask_literals by (subst get_set_field) (simp_all add: t)
  show "get_field w DMI_DMCONTROL_HALTREQ = 1" "get_field w DMI_DMCONTROL_RESUMEREQ = 0"
    "get_field w DMI_DMCONTROL_DMACTIVE = 1"
    unfolding assms(2) mask_literals
    by (subst get_set_other; (simp_all add: get_field_eq)?; code_simp)+
qed

section \<open>Instruction encodings\<close>

text \<open>The fields of a 32-bit instruction, from the instruction-set manual.\<close>

definition opcode_of :: "u32 \<Rightarrow> 7 word" where "opcode_of i = ucast i"
definition rd_of :: "u32 \<Rightarrow> 5 word" where "rd_of i = ucast (drop_bit 7 i)"
definition funct3_of :: "u32 \<Rightarrow> 3 word" where "funct3_of i = ucast (drop_bit 12 i)"
definition rs1_of :: "u32 \<Rightarrow> 5 word" where "rs1_of i = ucast (drop_bit 15 i)"
definition rs2_of :: "u32 \<Rightarrow> 5 word" where "rs2_of i = ucast (drop_bit 20 i)"
definition imm_i_of :: "u32 \<Rightarrow> 12 word" where "imm_i_of i = ucast (drop_bit 20 i)"

definition imm_s_of :: "u32 \<Rightarrow> 12 word" where
  "imm_s_of i = ucast (take_bit 5 (drop_bit 7 i)) OR push_bit 5 (ucast (drop_bit 25 i))"

definition imm_b_of :: "u32 \<Rightarrow> 13 word" where
  "imm_b_of i = push_bit 1 (ucast (rv_x i 8 4)) OR push_bit 5 (ucast (rv_x i 25 6))
     OR push_bit 11 (ucast (rv_x i 7 1)) OR push_bit 12 (ucast (rv_x i 31 1))"

text \<open>A shift that the simplifier leaves as it is.\<close>

definition shl :: "nat \<Rightarrow> 'a::len word \<Rightarrow> 'a word" where
  "shl k x = push_bit k x"

lemma bit_shl: "bit (shl k (x :: 'a::len word)) i \<longleftrightarrow> k \<le> i \<and> i < LENGTH('a) \<and> bit x (i - k)"
  by (auto simp: shl_def bit_simps)

lemmas instr_fields = opcode_of_def rd_of_def funct3_of_def rs1_of_def rs2_of_def imm_i_of_def
  imm_s_of_def [folded shl_def] imm_b_of_def [folded shl_def]

lemmas encodings = LOAD_def [folded shl_def] STORE_def [folded shl_def] BNE_def [folded shl_def]
  ADDI_def [folded shl_def] CSRRx_def [folded shl_def] encode_itype_imm_def [folded shl_def]
  encode_stype_imm_def [folded shl_def] encode_sbtype_imm_def [folded shl_def]

lemma bit_rv_x: "bit (rv_x x s n) i \<longleftrightarrow> i < n \<and> bit x (s + i)"
proof -
  have "push_bit n 1 - 1 = (mask n :: u32)" by (simp add: mask_eq_exp_minus_1)
  then show ?thesis by (auto simp: rv_x_def bit_simps dest: bit_imp_le_length)
qed

lemma word_eq_bits: "(x :: 'a::len word) = y \<longleftrightarrow> (\<forall>n < LENGTH('a). bit x n = bit y n)"
  by (auto intro: bit_word_eqI)

lemma reg_bits: "\<not> bit (d :: 5 word) (Suc (Suc (Suc (Suc (Suc n)))))"
  using bit_imp_le_length [of d] by fastforce

lemma type_bits: "\<not> bit (t :: 2 word) (Suc (Suc n))"
  using bit_imp_le_length [of t] by fastforce

lemmas decode_simps = word_eq_bits instr_fields encodings numeral_eq_Suc All_less_Suc bit_simps bit_rv_x
  bit_shl reg_bits type_bits

lemma load_fields:
  fixes d b :: "5 word"
  shows "opcode_of (LOAD xl (ucast d) (ucast b) imm) = 0x03" "rd_of (LOAD xl (ucast d) (ucast b) imm) = d"
    "rs1_of (LOAD xl (ucast d) (ucast b) imm) = b" "imm_i_of (LOAD xl (ucast d) (ucast b) imm) = ucast imm"
    "funct3_of (LOAD xl (ucast d) (ucast b) imm) = (if xl = 64 then 3 else 2)"
  by (simp_all add: decode_simps)

lemma store_fields:
  fixes d b :: "5 word"
  shows "opcode_of (STORE xl (ucast d) (ucast b) imm) = 0x23" "rs2_of (STORE xl (ucast d) (ucast b) imm) = d"
    "rs1_of (STORE xl (ucast d) (ucast b) imm) = b" "imm_s_of (STORE xl (ucast d) (ucast b) imm) = ucast imm"
    "funct3_of (STORE xl (ucast d) (ucast b) imm) = (if xl = 64 then 3 else 2)"
  by (simp_all add: decode_simps)

lemma addi_fields:
  fixes d b :: "5 word"
  shows "opcode_of (ADDI (ucast d) (ucast b) imm) = 0x13" "rd_of (ADDI (ucast d) (ucast b) imm) = d"
    "rs1_of (ADDI (ucast d) (ucast b) imm) = b" "imm_i_of (ADDI (ucast d) (ucast b) imm) = ucast imm"
    "funct3_of (ADDI (ucast d) (ucast b) imm) = 0"
  by (simp_all add: decode_simps)

text \<open>The branch offset loses its lowest bit, which is zero between instructions.\<close>

lemma bne_fields:
  fixes d b :: "5 word"
  assumes "\<not> bit (there - here) 0"
  shows "opcode_of (BNE (ucast d) (ucast b) there here) = 0x63" "rs1_of (BNE (ucast d) (ucast b) there here) = d"
    "rs2_of (BNE (ucast d) (ucast b) there here) = b" "funct3_of (BNE (ucast d) (ucast b) there here) = 1"
    "imm_b_of (BNE (ucast d) (ucast b) there here) = ucast (there - here)"
  using assms by (simp_all add: decode_simps del: bit_0)

lemma csr_fields:
  fixes d b :: "5 word" and csr :: "12 word" and type :: "2 word"
  shows "opcode_of (CSRRx (ucast type) (ucast d) (ucast csr) (ucast b)) = 0x73"
    "rd_of (CSRRx (ucast type) (ucast d) (ucast csr) (ucast b)) = d"
    "rs1_of (CSRRx (ucast type) (ucast d) (ucast csr) (ucast b)) = b"
    "funct3_of (CSRRx (ucast type) (ucast d) (ucast csr) (ucast b)) = ucast type"
    "imm_i_of (CSRRx (ucast type) (ucast d) (ucast csr) (ucast b)) = csr"
  by (simp_all add: decode_simps)

section \<open>The traffic of an abstract command\<close>

text \<open>A debug module together with the requests it has received.\<close>

definition logged :: "'t dmi \<Rightarrow> ('t \<times> req list) dmi" where
  "logged dmi r h = (case dmi r (fst h) of (p, t) \<Rightarrow> (p, (t, snd h @ [r])))"

definition log :: "('t \<times> req list) dtm \<Rightarrow> req list" where
  "log s = snd (target s)"

definition config :: "'t dtm \<Rightarrow> nat \<times> nat \<times> nat \<times> bool \<times> u32 \<times> nat \<times> nat" where
  "config s = (ram_words s, data_words s, xlen s, running s, data_base s, num_harts s, current_hart s)"

text \<open>\<open>sends s rs s'\<close>: between the two states exactly the requests \<open>rs\<close> were sent.\<close>

definition sends :: "('t \<times> req list) dtm \<Rightarrow> req list \<Rightarrow> ('t \<times> req list) dtm \<Rightarrow> bool" where
  "sends s rs s' \<longleftrightarrow> log s' = log s @ rs \<and> config s' = config s"

lemma sends_refl: "sends s [] s"
  by (simp add: sends_def)

lemma sends_trans: "sends s rs s' \<Longrightarrow> sends s' rs' s'' \<Longrightarrow> sends s (rs @ rs') s''"
  by (simp add: sends_def)

definition rd :: "u32 \<Rightarrow> req" where
  "rd a = \<lparr>req_addr = a, req_op = 1, req_data = 0\<rparr>"

definition wr :: "u32 \<Rightarrow> u32 \<Rightarrow> req" where
  "wr a d = \<lparr>req_addr = a, req_op = 2, req_data = d\<rparr>"

lemma do_command_sends:
  "do_command (logged dmi) r s = Some (Inr (w, s')) \<Longrightarrow> sends s [r] s'"
  by (auto simp: do_command_def monad_simps logged_def sends_def log_def config_def assertM_def
      bindM_eq_OK return_def throw_def split: prod.splits if_splits)

lemma read_sends: "dmi_read (logged dmi) a s = Some (Inr (w, s')) \<Longrightarrow> sends s [rd a] s'"
  unfolding dmi_read_def rd_def by (rule do_command_sends)

lemma write_sends: "dmi_write (logged dmi) a d s = Some (Inr (w, s')) \<Longrightarrow> sends s [wr a d] s'"
  unfolding dmi_write_def wr_def by (rule do_command_sends)

text \<open>A polling loop reads its register again and again, the last time with the awaited value.\<close>

lemma poll_sends:
  assumes "do_while (dmi_read (logged dmi) a) c s = Some (Inr (v, s'))"
  shows "\<not> c v \<and> (\<exists>n. sends s (replicate (Suc n) (rd a)) s')"
  using assms
proof (rule do_while_OK)
  fix s v s'
  assume "dmi_read (logged dmi) a s = Some (Inr (v, s'))" "\<not> c v"
  then have "sends s (replicate (Suc 0) (rd a)) s'" using read_sends by fastforce
  with \<open>\<not> c v\<close> show "\<not> c v \<and> (\<exists>n. sends s (replicate (Suc n) (rd a)) s')" by blast
next
  fix s v s' w t
  assume "dmi_read (logged dmi) a s = Some (Inr (v, s'))" "c v"
    and "\<not> c w \<and> (\<exists>n. sends s' (replicate (Suc n) (rd a)) t)"
  then obtain n where "sends s [rd a] s'" "sends s' (replicate (Suc n) (rd a)) t" "\<not> c w"
    using read_sends by blast
  then have "sends s (replicate (Suc (Suc n)) (rd a)) t" using sends_trans by fastforce
  with \<open>\<not> c w\<close> show "\<not> c w \<and> (\<exists>n. sends s (replicate (Suc n) (rd a)) t)" by blast
qed

lemma forM_sends:
  assumes "\<And>i s s'. i \<in> set is \<Longrightarrow> f i s = Some (Inr ((), s')) \<Longrightarrow> sends s [g i] s'"
  shows "forM f is s = Some (Inr ((), s')) \<Longrightarrow> sends s (map g is) s'"
  using assms
proof (induction "is" arbitrary: s)
  case Nil
  then show ?case by (simp add: monad_simps sends_refl)
next
  case (Cons i "is")
  then obtain s1 where "f i s = Some (Inr ((), s1))" "forM f is s1 = Some (Inr ((), s'))"
    by (auto simp: bindM_eq_OK)
  then have "sends s [g i] s1" "sends s1 (map g is) s'" using Cons by auto
  then show ?case using sends_trans by fastforce
qed

lemma put_loop_sends:
  assumes "forM (\<lambda>i. bindM (liftE (get_word xs i)) (\<lambda>w.
      bindM (dmi_write (logged dmi) (a + of_nat i) w) (\<lambda>_. return ()))) [0..<n] s = Some (Inr ((), s'))"
  shows "sends s (map (\<lambda>i. wr (a + of_nat i) (xs ! i)) [0..<n]) s'"
  using assms
proof (rule forM_sends [rotated])
  fix i s s'
  assume "bindM (liftE (get_word xs i)) (\<lambda>w.
      bindM (dmi_write (logged dmi) (a + of_nat i) w) (\<lambda>_. return ())) s = Some (Inr ((), s'))"
  then show "sends s [wr (a + of_nat i) (xs ! i)] s'"
    by (auto simp: bindM_eq_OK get_word_def monad_simps return_def throw_def split: if_splits
        intro: write_sends)
qed

lemma read_data_sends:
  "read_data (logged dmi) is data s = Some (Inr (data', s')) \<Longrightarrow>
   sends s (map (\<lambda>i. rd (DMI_DATA0 + of_nat i)) is) s'"
proof (induction "is" arbitrary: data s)
  case Nil
  then show ?case by (simp add: monad_simps sends_refl)
next
  case (Cons i "is")
  then obtain w s1 d where "dmi_read (logged dmi) (DMI_DATA0 + of_nat i) s = Some (Inr (w, s1))"
    "read_data (logged dmi) is d s1 = Some (Inr (data', s'))"
    by (auto simp: bindM_eq_OK put_word_def monad_simps throw_def split: if_splits)
  then have "sends s [rd (DMI_DATA0 + of_nat i)] s1" "sends s1 (map (\<lambda>i. rd (DMI_DATA0 + of_nat i)) is) s'"
    using read_sends Cons.IH by auto
  then show ?case using sends_trans by fastforce
qed

definition writes :: "u32 \<Rightarrow> bool" where
  "writes command \<longleftrightarrow> get_field command AC_ACCESS_REGISTER_WRITE \<noteq> 0"

definition transfers :: "u32 \<Rightarrow> bool" where
  "transfers command \<longleftrightarrow> get_field command AC_ACCESS_REGISTER_TRANSFER \<noteq> 0"

lemma abstract_command_sends:
  assumes "run_abstract_command (logged dmi) command program pn data dn s = Some (Inr ((cmderr, data'), s'))"
  shows "pn \<le> ram_words s \<and> dn \<le> data_words s \<and> (\<exists>n. sends s
     (map (\<lambda>i. wr (DMI_PROGBUF0 + of_nat i) (program ! i)) [0..<pn]
      @ (if writes command \<and> transfers command then map (\<lambda>i. wr (DMI_DATA0 + of_nat i) (data ! i)) [0..<dn] else [])
      @ [wr DMI_COMMAND command] @ replicate (Suc n) (rd DMI_ABSTRACTCS)
      @ (if \<not> writes command \<and> transfers command then map (\<lambda>i. rd (DMI_DATA0 + of_nat i)) [0..<dn] else [])) s')"
proof -
  let ?p = "map (\<lambda>i. wr (DMI_PROGBUF0 + of_nat i) (program ! i)) [0..<pn]"
  let ?w = "if writes command \<and> transfers command then map (\<lambda>i. wr (DMI_DATA0 + of_nat i) (data ! i)) [0..<dn] else []"
  let ?r = "if \<not> writes command \<and> transfers command then map (\<lambda>i. rd (DMI_DATA0 + of_nat i)) [0..<dn] else []"
  obtain s1 s2 s3 s4 a w where 1: "pn \<le> ram_words s" "dn \<le> data_words s"
    "forM (\<lambda>i. bindM (liftE (get_word program i)) (\<lambda>w.
         bindM (dmi_write (logged dmi) (DMI_PROGBUF0 + of_nat i) w) (\<lambda>_. return ()))) [0..<pn] s = Some (Inr ((), s1))"
    and 2: "(if writes command \<and> transfers command then
         forM (\<lambda>i. bindM (liftE (get_word data i)) (\<lambda>w.
           bindM (dmi_write (logged dmi) (DMI_DATA0 + of_nat i) w) (\<lambda>_. return ()))) [0..<dn]
       else return ()) s1 = Some (Inr ((), s2))"
    and 3: "dmi_write (logged dmi) DMI_COMMAND command s2 = Some (Inr (w, s3))"
    and 4: "do_while (dmi_read (logged dmi) DMI_ABSTRACTCS) (\<lambda>abstractcs. abstractcs AND DMI_ABSTRACTCS_BUSY \<noteq> 0) s3
      = Some (Inr (a, s4))"
    and 5: "(if \<not> writes command \<and> transfers command then
         read_data (logged dmi) [0..<dn] data else return data) s4 = Some (Inr (data', s'))"
    using assms unfolding run_abstract_command_def writes_def transfers_def
    by (auto simp: bindM_eq_OK assertM_eq_OK getM_def return_def)
  have "sends s ?p s1" using put_loop_sends [OF 1(3)] .
  moreover have "sends s1 ?w s2"
    using 2 put_loop_sends [of data dmi DMI_DATA0 dn s1 s2] by (auto simp: monad_simps sends_refl split: if_splits)
  moreover have "sends s2 [wr DMI_COMMAND command] s3" using write_sends [OF 3] .
  moreover obtain n where "sends s3 (replicate (Suc n) (rd DMI_ABSTRACTCS)) s4" using poll_sends [OF 4] by blast
  moreover have "sends s4 ?r s'"
    using 5 read_data_sends [of dmi "[0..<dn]" data s4 data' s'] by (auto simp: monad_simps sends_refl split: if_splits)
  ultimately have "sends s (?p @ ?w @ [wr DMI_COMMAND command] @ replicate (Suc n) (rd DMI_ABSTRACTCS) @ ?r) s'"
    by (blast intro: sends_trans)
  with 1(1,2) show ?thesis by blast
qed

section \<open>The handshake\<close>

text \<open>
  Runs of ticks, counting the requests that the target accepts and the switches to the host.
\<close>

definition accepts :: "bool \<Rightarrow> 't dtm \<Rightarrow> bool" where
  "accepts req_ready s \<longleftrightarrow> \<not> resp_wait s \<and> req_wait s \<and> req_ready"

inductive ticks :: "'t dtm \<Rightarrow> nat \<Rightarrow> nat \<Rightarrow> 't dtm \<Rightarrow> bool" where
  no_tick: "ticks s 0 0 s"
| one_tick: "ticks s a r s1 \<Longrightarrow> tick req_ready resp_valid resp_bits s1 = Some (Inr (b, s2)) \<Longrightarrow>
    ticks s (a + of_bool (accepts req_ready s1)) (r + of_bool b) s2"

inductive_cases ticksE: "ticks s a r s'"

lemma tick_cases:
  "tick req_ready resp_valid resp_bits s = Some (Inr (b, s')) \<Longrightarrow>
    b = resp_valid \<and> (b \<longrightarrow> resp_buf s' = resp_bits \<and> (resp_wait s \<or> accepts req_ready s) \<and> \<not> resp_wait s')
    \<and> (\<not> b \<longrightarrow> (resp_wait s' \<longleftrightarrow> resp_wait s \<or> accepts req_ready s))
    \<and> (req_wait s' \<longleftrightarrow> (if resp_wait s then req_wait s else \<not> accepts req_ready s))"
  by (auto simp: tick_def accepts_def bindM_eq_OK monad_simps modifyM_def return_def throw_def assertM_def
      split: if_splits)

lemma ticks_answered:
  assumes "ticks s0 a r s" "\<not> req_wait s0" "\<not> resp_wait s0"
  shows "a = r + of_bool (resp_wait s) \<and> \<not> (req_wait s \<and> resp_wait s)"
  using assms
proof (induction rule: ticks.induct)
  case (one_tick s a r s1 req_ready resp_valid resp_bits b s2)
  then show ?case using tick_cases [OF one_tick.hyps(2)]
    by (auto simp: accepts_def split: if_splits)
qed simp

text \<open>The assertion of \<open>tick\<close> holds whenever the target answers an accepted request only.\<close>

lemma tick_asserts:
  assumes "resp_valid \<Longrightarrow> resp_wait s \<or> accepts req_ready s"
  shows "\<exists>s'. tick req_ready resp_valid resp_bits s = Some (Inr (resp_valid, s'))"
  using assms by (auto simp: tick_def accepts_def monad_simps)

section \<open>Enumeration, registers and clearing\<close>

lemma enumerate_loop_bound:
  "enumerate_loop dmi mh h s = Some (Inr (n, s')) \<Longrightarrow> h \<le> Suc mh \<Longrightarrow> n \<le> Suc mh"
proof (induction dmi mh h arbitrary: s rule: enumerate_loop.induct)
  case (1 dmi mh h)
  note loop = "1.prems"(1) [unfolded enumerate_loop.simps [of dmi mh h]]
  show ?case
  proof (cases "h \<le> mh")
    case True
    with loop obtain st s1 where "(if get_field st DMI_DMSTATUS_ANYNONEXISTENT \<noteq> 0 then return h
        else enumerate_loop dmi mh (h + 1)) s1 = Some (Inr (n, s'))"
      by (auto simp: bindM_eq_OK)
    with True "1.IH" [of st s1] show ?thesis by (auto simp: return_def split: if_splits)
  next
    case False
    with loop "1.prems"(2) show ?thesis by (simp add: return_def)
  qed
qed

lemma enumerate_harts_bound:
  assumes "enumerate_harts dmi s = Some (Inr (n, s'))"
  shows "n \<le> 1024"
proof -
  obtain d s1 where *: "enumerate_loop dmi (unat (get_field d DMI_DMCONTROL_HARTSEL)) 0 s1 = Some (Inr (n, s'))"
    using assms by (auto simp: enumerate_harts_def Let_def bindM_eq_OK)
  have "unat (get_field d DMI_DMCONTROL_HARTSEL) = take_bit 10 (unat (drop_bit 16 d))"
    unfolding mask_literals by (subst get_field_eq) (simp_all add: unsigned_take_bit_eq)
  then have "unat (get_field d DMI_DMCONTROL_HARTSEL) < 1024"
    using take_bit_nat_less_exp [of 10 "unat (drop_bit 16 d)"] by simp
  with enumerate_loop_bound [OF *] show ?thesis by simp
qed

text \<open>The two words of a 64-bit register are combined without a shift.\<close>

lemma modify_csr_value:
  assumes "modify_csr dmi which data type s = Some (Inr (res, s'))" "xlen s = 64"
  shows "\<exists>lo hi. res = ucast (lo OR hi :: u32)"
proof -
  have "ucast (lo :: u32) OR ucast (hi :: u32) = (ucast (lo OR hi) :: u64)" for lo hi
    by (rule bit_word_eqI) (auto simp: bit_simps)
  then show ?thesis
    using assms by (auto simp: modify_csr_def Let_def bindM_eq_OK getM_def return_def)
qed

text \<open>Clearing always fills two data words, whatever their number.\<close>

lemma put_two: "put_words [(0, x), (1, y)] (replicate (Suc 0) 0) = Inl Out_of_bounds"
  by (simp add: put_words_def put_word_def)

lemma clear_needs_two_words:
  assumes "data_words s = 1"
  shows "dtm_clear_chunk dmi taddr len s \<noteq> Some (Inr r)"
  using assms put_two
  by (auto simp: dtm_clear_chunk_def Let_def bindM_eq_OK getM_def return_def monad_simps)

section \<open>A debug module that is always ready\<close>

text \<open>Harts halt and resume at once, every other register reads 0: the simplest module.\<close>

definition ready_dmi :: "'t dmi" where
  "ready_dmi r t = (\<lparr>resp_resp = 0, resp_data = (if req_addr r = DMI_DMSTATUS then 0x20200 else 0)\<rparr>, t)"

definition idle_dtm :: "nat \<Rightarrow> 't \<Rightarrow> 't dtm" where
  "idle_dtm dw t = \<lparr>req_buf = \<lparr>req_addr = 0, req_op = 0, req_data = 0\<rparr>, resp_buf = \<lparr>resp_resp = 0, resp_data = 0\<rparr>,
     running = False, req_wait = False, resp_wait = False, data_base = 0x380, xlen = 64, ram_words = 16,
     data_words = dw, num_harts = 1, current_hart = 0, target = t, printed = []\<rparr>"

end
