(* ===== verification/Htif_pthread.thy ===== *)
theory Htif_pthread
  imports Prelude
begin

text \<open>
  The byte-stream interface \<^verbatim>\<open>htif_pthread_t\<close> (\<^verbatim>\<open>htif_pthread.h\<close>, \<^verbatim>\<open>htif_pthread.cc\<close>): two queues of
  bytes between a host context and a target context that switch to each other. What the other
  side does from one switch to the switch back is a parameter, a function on the state.
\<close>

section \<open>State and operations\<close>

record 'e pthread_t =
  th_data :: "u8 list"
  ht_data :: "u8 list"
  other :: 'e

definition pthread_new :: "'e \<Rightarrow> 'e pthread_t" where
  "pthread_new e = \<lparr>th_data = [], ht_data = [], other = e\<rparr>"

text \<open>The host side. \<open>tgt\<close> is what the target does while the host waits.\<close>

definition host_read :: "('e pthread_t \<Rightarrow> 'e pthread_t) \<Rightarrow> nat \<Rightarrow> ('e pthread_t, u8 list) M" where
  "host_read tgt max_size =
     bindM (while_loop (\<lambda>s. length (th_data s) = 0) (modifyM tgt)) (\<lambda>_.
     bindM (getM (\<lambda>s. min max_size (length (th_data s)))) (\<lambda>n.
     bindM (getM (\<lambda>s. take n (th_data s))) (\<lambda>buf.
     bindM (modifyM (\<lambda>s. s\<lparr>th_data := drop n (th_data s)\<rparr>)) (\<lambda>_.
     return buf))))"

definition host_write :: "u8 list \<Rightarrow> ('e pthread_t, nat) M" where
  "host_write buf = bindM (modifyM (\<lambda>s. s\<lparr>ht_data := ht_data s @ buf\<rparr>)) (\<lambda>_. return (length buf))"

text \<open>The target side. \<open>hst\<close> is what the host does while the target waits.\<close>

definition target_send :: "u8 list \<Rightarrow> ('e pthread_t, unit) M" where
  "target_send buf = modifyM (\<lambda>s. s\<lparr>th_data := th_data s @ buf\<rparr>)"

definition recv_nonblocking :: "('e pthread_t \<Rightarrow> 'e pthread_t) \<Rightarrow> nat \<Rightarrow> ('e pthread_t, u8 list option) M" where
  "recv_nonblocking hst n =
     bindM (getM (\<lambda>s. length (ht_data s))) (\<lambda>avail.
     if avail < n then bindM (modifyM hst) (\<lambda>_. return None)
     else
       bindM (getM (\<lambda>s. take n (ht_data s))) (\<lambda>buf.
       bindM (modifyM (\<lambda>s. s\<lparr>ht_data := drop n (ht_data s)\<rparr>)) (\<lambda>_.
       return (Some buf))))"

definition target_recv :: "('e pthread_t \<Rightarrow> 'e pthread_t) \<Rightarrow> nat \<Rightarrow> ('e pthread_t, u8 list) M" where
  "target_recv hst n =
     bindM (do_while (recv_nonblocking hst n) (\<lambda>r. r = None)) (\<lambda>r.
     return (the r))"

definition pthread_chunk_align :: nat where "pthread_chunk_align = 64"
definition pthread_chunk_max_size :: nat where "pthread_chunk_max_size = 1024"

text \<open>The host context: the main loop, then switches to the target for ever.\<close>

definition thread_main :: "('e pthread_t, int) M \<Rightarrow> ('e pthread_t \<Rightarrow> 'e pthread_t) \<Rightarrow> ('e pthread_t, unit) M" where
  "thread_main run tgt = bindM run (\<lambda>_. while_loop (\<lambda>_. True) (modifyM tgt))"

section \<open>The queues keep the order\<close>

lemma host_read_ready:
  assumes "th_data s \<noteq> []"
  shows "host_read tgt k s = Some (Inr (take k (th_data s), s\<lparr>th_data := drop k (th_data s)\<rparr>))"
proof -
  have "while_loop (\<lambda>s. length (th_data s) = 0) (modifyM tgt) s = Some (Inr ((), s))"
    using assms by (intro while_loop_stop) simp
  then show ?thesis
    by (simp add: host_read_def bindM_def getM_def modifyM_def return_def min_def)
qed

text \<open>
  A target that keeps what it has sent and sends something after finitely many switches:
  a blocked read then returns, with bytes in the order they were sent.
\<close>

lemma host_read_blocked:
  fixes work :: "'e pthread_t \<Rightarrow> nat"
  assumes step: "\<And>t. I t \<Longrightarrow> th_data t = [] \<Longrightarrow> I (tgt t) \<and> (th_data (tgt t) \<noteq> [] \<or> work (tgt t) < work t)"
    and "I s"
  shows "\<exists>t. I t \<and> th_data t \<noteq> [] \<and>
    host_read tgt k s = Some (Inr (take k (th_data t), t\<lparr>th_data := drop k (th_data t)\<rparr>))"
proof -
  have "\<exists>t. while_loop (\<lambda>s. length (th_data s) = 0) (modifyM tgt) s = Some (Inr ((), t)) \<and> I t
      \<and> \<not> length (th_data t) = 0"
  proof (rule while_loop_total [where m = "\<lambda>t. if th_data t = [] then Suc (work t) else 0"])
    fix t assume "I t" "length (th_data t) = 0"
    then show "\<exists>t'. modifyM tgt t = Some (Inr ((), t')) \<and> I t' \<and>
        (if th_data t' = [] then Suc (work t') else 0) < (if th_data t = [] then Suc (work t) else 0)"
      using step [of t] by (auto simp: monad_simps)
  qed (rule assms(2))
  then obtain t where t: "while_loop (\<lambda>s. length (th_data s) = 0) (modifyM tgt) s = Some (Inr ((), t))"
    "I t" "th_data t \<noteq> []" by auto
  then show ?thesis
    by (intro exI [of _ t]) (simp add: host_read_def bindM_def getM_def modifyM_def return_def min_def)
qed

lemma recv_ready:
  assumes "n \<le> length (ht_data s)"
  shows "target_recv hst n s = Some (Inr (take n (ht_data s), s\<lparr>ht_data := drop n (ht_data s)\<rparr>))"
proof -
  have "recv_nonblocking hst n s = Some (Inr (Some (take n (ht_data s)), s\<lparr>ht_data := drop n (ht_data s)\<rparr>))"
    using assms by (simp add: recv_nonblocking_def monad_simps)
  then have "do_while (recv_nonblocking hst n) (\<lambda>r. r = None) s
    = Some (Inr (Some (take n (ht_data s)), s\<lparr>ht_data := drop n (ht_data s)\<rparr>))"
    by (rule do_while_stop) simp
  then show ?thesis by (simp add: target_recv_def bindM_def return_def)
qed

text \<open>
  A finished receive got exactly \<open>n\<close> bytes from the front of the queue, which no switch has
  reordered when every run of the host only appends.
\<close>

lemma recv_finished:
  assumes append: "\<And>t. \<exists>bs. ht_data (hst t) = ht_data t @ bs"
    and "target_recv hst n s = Some (Inr (buf, s'))"
  shows "length buf = n \<and> (\<exists>bs. ht_data s @ bs = buf @ ht_data s')"
proof -
  have finished: "do_while (recv_nonblocking hst n) (\<lambda>r. r = None) s = Some (Inr (r, s')) \<Longrightarrow>
    \<exists>b. r = Some b \<and> length b = n \<and> (\<exists>bs. ht_data s @ bs = b @ ht_data s')" for r
  proof (erule do_while_OK)
    fix t a t'
    assume "recv_nonblocking hst n t = Some (Inr (a, t'))" "\<not> a = None"
    then show "\<exists>b. a = Some b \<and> length b = n \<and> (\<exists>bs. ht_data t @ bs = b @ ht_data t')"
      by (auto simp: recv_nonblocking_def monad_simps bindM_eq_OK getM_def modifyM_def return_def
          split: if_splits)
  next
    fix t a t' b u
    assume r: "recv_nonblocking hst n t = Some (Inr (a, t'))" "a = None"
      and IH: "\<exists>d. b = Some d \<and> length d = n \<and> (\<exists>bs. ht_data t' @ bs = d @ ht_data u)"
    have "t' = hst t"
      using r by (auto simp: recv_nonblocking_def bindM_eq_OK getM_def modifyM_def return_def split: if_splits)
    with append [of t] IH show "\<exists>d. b = Some d \<and> length d = n \<and> (\<exists>bs. ht_data t @ bs = d @ ht_data u)"
      by (metis append.assoc)
  qed
  obtain r where "do_while (recv_nonblocking hst n) (\<lambda>r. r = None) s = Some (Inr (r, s'))" "buf = the r"
    using assms(2) by (auto simp: target_recv_def bindM_eq_OK return_def)
  with finished show ?thesis by (metis option.sel)
qed

end
