(* ===== verification/Option_parser.thy ===== *)
theory Option_parser
  imports Host_os
begin

text \<open>
  The option parser (\<^verbatim>\<open>option_parser.h\<close>, \<^verbatim>\<open>option_parser.cc\<close>) that simulators use for their own
  command line. The actions are functions on a state \<open>'s\<close> of the caller's. An error prints a
  message, shows the help if there is one and leaves the process with status 1.
\<close>

record 's option_t =
  opt_chr :: u8
  opt_str :: "cstring option"
  opt_arg :: bool
  opt_func :: "cstring option \<Rightarrow> ('s, unit) M"

record 's option_parser =
  opts :: "'s option_t list"
  helpmsg :: "('s, unit) M option"

definition add_option ::
  "u8 \<Rightarrow> cstring option \<Rightarrow> bool \<Rightarrow> (cstring option \<Rightarrow> ('s, unit) M) \<Rightarrow> 's option_parser \<Rightarrow> 's option_parser" where
  "add_option c s arg action p = p\<lparr>opts := opts p @ [\<lparr>opt_chr = c, opt_str = s, opt_arg = arg, opt_func = action\<rparr>]\<rparr>"

definition set_help :: "('s, unit) M \<Rightarrow> 's option_parser \<Rightarrow> 's option_parser" where
  "set_help h p = p\<lparr>helpmsg := Some h\<rparr>"

definition dash :: u8 where "dash = 0x2D"
definition equals :: u8 where "equals = 0x3D"

definition slen :: "'s option_t \<Rightarrow> nat" where
  "slen it = (case opt_str it of None \<Rightarrow> 0 | Some s \<Rightarrow> length s)"

definition chr_match :: "cstring \<Rightarrow> 's option_t \<Rightarrow> bool" where
  "chr_match arg it \<longleftrightarrow> char_at arg 1 \<noteq> dash \<and> opt_chr it \<noteq> 0 \<and> char_at arg 1 = opt_chr it"

definition str_match :: "cstring \<Rightarrow> 's option_t \<Rightarrow> bool" where
  "str_match arg it \<longleftrightarrow> char_at arg 1 = dash \<and> slen it \<noteq> 0
     \<and> take (slen it) (drop 2 arg) = the (opt_str it)"

definition option_match :: "cstring \<Rightarrow> 's option_t \<Rightarrow> bool" where
  "option_match arg it \<longleftrightarrow> chr_match arg it \<or>
     (str_match arg it \<and> (char_at arg (2 + slen it) = equals \<or> char_at arg (2 + slen it) = 0))"

text \<open>\<^verbatim>\<open>error\<close>. Printing is an action on the caller's state.\<close>

definition parse_error ::
  "(string \<Rightarrow> ('s, unit) M) \<Rightarrow> 's option_parser \<Rightarrow> string \<Rightarrow> cstring \<Rightarrow> cstring \<Rightarrow> ('s, 'a) M" where
  "parse_error print p msg argv0 arg =
     bindM (print (unstr argv0 @ '': '' @ msg @ '' '' @ unstr arg @ newline)) (\<lambda>_.
     bindM (case helpmsg p of Some h \<Rightarrow> h | None \<Rightarrow> return ()) (\<lambda>_.
     throw (Exit_process 1)))"

text \<open>
  The argument of a matching option and the arguments left: behind the letter, behind the equals
  sign, or the next argument, which may be missing.
\<close>

definition option_argument :: "cstring \<Rightarrow> 's option_t \<Rightarrow> cstring list \<Rightarrow> cstring option \<times> cstring list" where
  "option_argument arg it rest =
     (if chr_match arg it then (if char_at arg 2 \<noteq> 0 then Some (drop 2 arg) else None, rest)
      else if char_at arg (2 + slen it) \<noteq> 0 then (Some (drop (3 + slen it) arg), rest)
      else if opt_arg it then (case rest of [] \<Rightarrow> (None, []) | a # rest \<Rightarrow> (Some a, rest))
      else (None, rest))"

function parse :: "(string \<Rightarrow> ('s, unit) M) \<Rightarrow> 's option_parser \<Rightarrow> cstring \<Rightarrow> cstring list \<Rightarrow> ('s, cstring list) M" where
  "parse print p argv0 argv =
     (case argv of
        [] \<Rightarrow> return []
      | arg # rest \<Rightarrow>
          if arg = [] \<or> hd arg \<noteq> dash then return argv
          else case find (option_match arg) (opts p) of
            None \<Rightarrow> parse_error print p ''unrecognized option'' argv0 arg
          | Some it \<Rightarrow>
              (let (optarg, rest') = option_argument arg it rest in
               if optarg \<noteq> None \<and> \<not> opt_arg it then
                 parse_error print p ''no argument allowed for option'' argv0 arg
               else if optarg = None \<and> opt_arg it then
                 parse_error print p ''argument required for option'' argv0 arg
               else bindM (opt_func it optarg) (\<lambda>_. parse print p argv0 rest')))"
  by pat_completeness auto
termination
  by (relation "measure (\<lambda>(_, _, _, argv). length argv)")
    (auto simp: option_argument_def split: if_splits list.splits)

declare parse.simps [simp del]

section \<open>What is left is no option\<close>

lemma parse_stops:
  "parse print p argv0 argv s = Some (Inr (rest, s')) \<Longrightarrow>
   (rest = [] \<or> hd rest = [] \<or> hd (hd rest) \<noteq> dash) \<and> (\<exists>used. argv = used @ rest)"
proof (induction print p argv0 argv arbitrary: s rule: parse.induct)
  case (1 print p argv0 argv)
  have err: "parse_error print p msg a0 a t \<noteq> Some (Inr (rest, s'))" for msg a0 a t
    by (auto simp: parse_error_def bindM_eq_OK throw_def)
  show ?case
  proof (cases argv)
    case Nil
    with "1.prems" show ?thesis by (subst (asm) parse.simps) (simp add: return_def)
  next
    case (Cons arg more)
    note eq = "1.prems" [unfolded Cons parse.simps [of print p argv0 "arg # more"] list.case]
    show ?thesis
    proof (cases "arg = [] \<or> hd arg \<noteq> dash")
      case True
      with eq Cons show ?thesis by (auto simp: return_def)
    next
      case False
      with eq err obtain it where it: "find (option_match arg) (opts p) = Some it"
        by (auto split: option.splits)
      obtain oa rest' where oa: "option_argument arg it more = (oa, rest')" by fastforce
      have ok: "\<not> (oa \<noteq> None \<and> \<not> opt_arg it)" "\<not> (oa = None \<and> opt_arg it)"
        using eq False it oa err by (auto split: if_splits)
      then obtain s1 where "parse print p argv0 rest' s1 = Some (Inr (rest, s'))"
        using eq False it oa by (auto simp: bindM_eq_OK split: if_splits)
      then have "(rest = [] \<or> hd rest = [] \<or> hd (hd rest) \<noteq> dash) \<and> (\<exists>used. rest' = used @ rest)"
        using "1.IH" [OF Cons False it oa [symmetric] refl ok] by blast
      moreover have "\<exists>skip. more = skip @ rest'"
        using oa by (auto simp: option_argument_def split: if_splits list.splits)
      ultimately show ?thesis using Cons by (metis append.assoc append_Cons)
    qed
  qed
qed

end
