(* ===== verification/Debug_module.thy ===== *)
theory Debug_module
  imports Dtm_facts
begin

text \<open>
  What the debug transport module relies on: the debug module and the hart behind it, as the
  RISC-V external debug support specification (version 0.13) describes them. This is hardware,
  not code of the repository: \<open>access\<close> is an abstract specification, and the locale
  \<open>debug_module\<close> states that a concrete module \<open>dmi\<close> implements it, up to the time it takes.

  Only what \<^verbatim>\<open>dtm.cc\<close> uses is specified: 64-bit harts, the abstract command that transfers a
  general register, and the instructions that are put into the program buffer.
\<close>

section \<open>The hart in the program buffer\<close>

type_synonym gprs = "5 word \<Rightarrow> u64"

definition rx :: "gprs \<Rightarrow> 5 word \<Rightarrow> u64" where
  "rx x r = (if r = 0 then 0 else x r)"

datatype flow = Stop | Trap | Next | Goto int

definition exec_instr :: "u32 \<Rightarrow> gprs \<times> memory \<Rightarrow> flow \<times> gprs \<times> memory" where
  "exec_instr i xm = (case xm of (x, m) \<Rightarrow>
     if i = EBREAK then (Stop, x, m)
     else if opcode_of i = 0x03 \<and> funct3_of i = 3 then
       (Next, x(rd_of i := le_word (load m (rx x (rs1_of i) + scast (imm_i_of i)) 8)), m)
     else if opcode_of i = 0x23 \<and> funct3_of i = 3 then
       (Next, x, store m (rx x (rs1_of i) + scast (imm_s_of i)) (le_bytes (rx x (rs2_of i))))
     else if opcode_of i = 0x13 \<and> funct3_of i = 0 then
       (Next, x(rd_of i := rx x (rs1_of i) + scast (imm_i_of i)), m)
     else if opcode_of i = 0x63 \<and> funct3_of i = 1 then
       (if rx x (rs1_of i) \<noteq> rx x (rs2_of i) then Goto (sint (imm_b_of i)) else Next, x, m)
     else (Trap, x, m))"

text \<open>
  Execution from byte offset \<open>pc\<close> until \<^verbatim>\<open>ebreak\<close> (\<open>True\<close>) or an exception (\<open>False\<close>); a program
  may also loop for ever.
\<close>

partial_function (option) exec_prog ::
  "u32 list \<Rightarrow> int \<Rightarrow> gprs \<times> memory \<Rightarrow> (bool \<times> gprs \<times> memory) option" where
  "exec_prog p pc xm =
     (if pc < 0 \<or> pc mod 4 \<noteq> 0 \<or> length p \<le> nat (pc div 4) then Some (False, xm)
      else case fst (exec_instr (p ! nat (pc div 4)) xm) of
        Stop \<Rightarrow> Some (True, snd (exec_instr (p ! nat (pc div 4)) xm))
      | Trap \<Rightarrow> Some (False, snd (exec_instr (p ! nat (pc div 4)) xm))
      | Next \<Rightarrow> exec_prog p (pc + 4) (snd (exec_instr (p ! nat (pc div 4)) xm))
      | Goto off \<Rightarrow> exec_prog p (pc + off) (snd (exec_instr (p ! nat (pc div 4)) xm)))"

declare exec_prog.simps [code]

lemma reg_casts: "S0 = ucast (8 :: 5 word)" "S1 = ucast (9 :: 5 word)" "X0 = ucast (0 :: 5 word)"
  by (simp_all add: S0_def S1_def X0_def)

lemma not_ebreak:
  "opcode_of i \<noteq> 0x73 \<Longrightarrow> i \<noteq> EBREAK"
proof
  have "opcode_of EBREAK = 0x73" unfolding opcode_of_def EBREAK_def by code_simp
  moreover assume "opcode_of i \<noteq> 0x73" "i = EBREAK"
  ultimately show False by simp
qed

lemma exec_ebreak: "exec_instr EBREAK xm = (Stop, xm)"
  by (simp add: exec_instr_def split: prod.split)

lemma exec_load: "exec_instr (LOAD 64 S1 S0 0) (x, m) = (Next, x(9 := le_word (load m (x 8) 8)), m)"
  unfolding exec_instr_def
  by (simp add: not_ebreak rx_def load_fields [where d = 9 and b = 8, folded reg_casts])

lemma exec_store:
  "exec_instr (STORE 64 S1 S0 0) (x, m) = (Next, x, store m (x 8) (le_bytes (x 9)))"
  "exec_instr (STORE 64 X0 S0 0) (x, m) = (Next, x, store m (x 8) (le_bytes (0 :: u64)))"
  unfolding exec_instr_def
  by (simp_all add: not_ebreak rx_def store_fields [where d = 9 and b = 8, folded reg_casts]
      store_fields [where d = 0 and b = 8, folded reg_casts])

lemma exec_addi: "exec_instr (ADDI S0 S0 8) (x, m) = (Next, x(8 := x 8 + 8), m)"
  unfolding exec_instr_def
  by (simp add: not_ebreak rx_def addi_fields [where d = 8 and b = 8, folded reg_casts])

lemma exec_bne: "exec_instr (BNE S0 S1 0 8) (x, m) = (if x 8 \<noteq> x 9 then Goto (- 8) else Next, x, m)"
proof -
  have e: "\<not> bit (0 - 8 :: u32) 0" by code_simp
  have i: "sint (ucast (0 - 8 :: u32) :: 13 word) = - 8" by code_simp
  show ?thesis unfolding exec_instr_def
    by (simp add: not_ebreak rx_def bne_fields [OF e, where d = 8 and b = 9, folded reg_casts]
      i [simplified] del: bit_0)
qed

lemmas exec_simps = exec_ebreak exec_load exec_store exec_addi exec_bne

text \<open>The three programs of the transfers.\<close>

definition starts_with :: "u32 list \<Rightarrow> u32 list \<Rightarrow> bool" where
  "starts_with p is \<longleftrightarrow> (\<exists>p'. p = is @ p')"

lemma exec_prog_read:
  assumes "starts_with p [LOAD 64 S1 S0 0, ADDI S0 S0 8, EBREAK]"
  shows "exec_prog p 0 (x, m) = Some (True, x(9 := le_word (load m (x 8) 8), 8 := x 8 + 8), m)"
  using assms by (auto simp: starts_with_def exec_prog.simps exec_simps)

lemma exec_prog_write:
  assumes "starts_with p [STORE 64 S1 S0 0, ADDI S0 S0 8, EBREAK]"
  shows "exec_prog p 0 (x, m) = Some (True, x(8 := x 8 + 8), store m (x 8) (le_bytes (x 9)))"
  using assms by (auto simp: starts_with_def exec_prog.simps exec_simps)

lemma le_bytes_zero: "le_bytes (0 :: u64) = replicate 8 0"
  by (rule nth_equalityI) (simp_all add: le_bytes_def)

lemma exec_prog_clear:
  assumes "starts_with p [STORE 64 X0 S0 0, ADDI S0 S0 8, BNE S0 S1 0 8, EBREAK]"
    and "0 < n" "8 * n \<le> 2 ^ 64" "x 9 = x 8 + of_nat (8 * n)"
  shows "exec_prog p 0 (x, m) = Some (True, x(8 := x 9), store m (x 8) (replicate (8 * n) 0))"
  using assms(2-4)
proof (induction n arbitrary: x m)
  case (Suc n)
  let ?x = "x(8 := x 8 + 8)" and ?m = "store m (x 8) (le_bytes (0 :: u64))"
  obtain p' where p: "p = [STORE 64 X0 S0 0, ADDI S0 S0 8, BNE S0 S1 0 8, EBREAK] @ p'"
    using assms(1) by (auto simp: starts_with_def)
  have "exec_prog p 0 (x, m) = exec_prog p 4 (x, ?m)"
    by (subst exec_prog.simps) (simp add: p exec_simps)
  also have "\<dots> = exec_prog p 8 (?x, ?m)" by (subst exec_prog.simps) (simp add: p exec_simps)
  also have "\<dots> = (if x 8 + 8 \<noteq> x 9 then exec_prog p 0 (?x, ?m) else exec_prog p 12 (?x, ?m))"
    by (subst exec_prog.simps) (simp add: p exec_simps)
  also have "exec_prog p 12 (?x, ?m) = Some (True, ?x, ?m)"
    by (subst exec_prog.simps) (simp add: p exec_simps)
  finally have body: "exec_prog p 0 (x, m) = (if x 8 + 8 \<noteq> x 9 then exec_prog p 0 (?x, ?m)
      else Some (True, ?x, ?m))" .
  have step: "x 9 = x 8 + 8 + of_nat (8 * n)" using Suc.prems(3) by (simp add: algebra_simps)
  show ?case
  proof (cases "n = 0")
    case True
    then show ?thesis using body step by (auto simp: le_bytes_zero)
  next
    case False
    have "8 * n < 2 ^ 64" using Suc.prems(2) by simp
    then have "unat (of_nat (8 * n) :: u64) = 8 * n" by (subst unsigned_of_nat) (simp add: take_bit_nat_eq_self)
    then have "of_nat (8 * n) \<noteq> (0 :: u64)" using False by (metis mult_is_0 unat_0 zero_neq_numeral)
    then have "x 8 + 8 \<noteq> x 9" unfolding step by simp
    then have "exec_prog p 0 (x, m) = exec_prog p 0 (x(8 := x 8 + 8), store m (x 8) (le_bytes (0 :: u64)))"
      using body by simp
    also have "\<dots> = Some (True, x(8 := x 9),
        store (store m (x 8) (replicate 8 0)) (x 8 + 8) (replicate (8 * n) 0))"
    proof (subst Suc.IH)
      show "0 < n" "8 * n \<le> 2 ^ 64" using False Suc.prems(2) by simp_all
      show "(x(8 := x 8 + 8)) 9 = (x(8 := x 8 + 8)) 8 + of_nat (8 * n)" using step by simp
    qed (simp add: le_bytes_zero)
    also have "store (store m (x 8) (replicate 8 0)) (x 8 + 8) (replicate (8 * n) 0)
        = store m (x 8) (replicate (8 * Suc n) 0)"
      using store_append [of "replicate 8 0" "replicate (8 * n) 0" m "x 8"] Suc.prems(2)
      by (simp add: replicate_add [symmetric])
    finally show ?thesis .
  qed
qed simp

section \<open>The registers of the debug module\<close>

record hart =
  hart_regs :: gprs
  hart_halted :: bool

record dm =
  dm_active :: bool
  dm_sel :: u32
  dm_harts :: "u32 \<Rightarrow> hart"
  dm_mem :: memory
  dm_prog :: "u32 list"
  dm_data :: "u32 list"
  dm_auto :: u32
  dm_last :: u32
  dm_err :: u32

definition sel_hart :: "dm \<Rightarrow> hart" where
  "sel_hart d = dm_harts d (dm_sel d)"

definition set_hart :: "hart \<Rightarrow> dm \<Rightarrow> dm" where
  "set_hart h d = d\<lparr>dm_harts := (dm_harts d)(dm_sel d := h)\<rparr>"

text \<open>
  An abstract command: the register transfer, then the program buffer. A pending error blocks
  it, a running hart and an unknown size or register are errors.
\<close>

definition transfer_reg :: "u32 \<Rightarrow> dm \<Rightarrow> dm" where
  "transfer_reg cmd d =
     (if transfers cmd then
        let r = ucast cmd :: 5 word; h = sel_hart d in
        if writes cmd then
          set_hart (h\<lparr>hart_regs := (hart_regs h)(r := join (dm_data d ! 0) (dm_data d ! 1))\<rparr>) d
        else d\<lparr>dm_data := (dm_data d)[0 := ucast (rx (hart_regs h) r), 1 := ucast (drop_bit 32 (rx (hart_regs h) r))]\<rparr>
      else d)"

definition run_prog :: "dm \<Rightarrow> dm option" where
  "run_prog d = (case exec_prog (dm_prog d) 0 (hart_regs (sel_hart d), dm_mem d) of
     None \<Rightarrow> None
   | Some (fine, x, m) \<Rightarrow>
       Some (set_hart ((sel_hart d)\<lparr>hart_regs := x\<rparr>) d\<lparr>dm_mem := m, dm_err := (if fine then 0 else 3)\<rparr>))"

definition abstract_cmd :: "dm \<Rightarrow> dm option" where
  "abstract_cmd d =
     (let cmd = dm_last d in
      if dm_err d \<noteq> 0 then Some d
      else if \<not> hart_halted (sel_hart d) then Some (d\<lparr>dm_err := 4\<rparr>)
      else if drop_bit 24 cmd \<noteq> 0 \<or> transfers cmd \<and>
          (drop_bit 20 cmd AND 7 \<noteq> 3 \<or> drop_bit 5 (cmd AND 0xffff) \<noteq> 0x80) then Some (d\<lparr>dm_err := 2\<rparr>)
      else if get_field cmd AC_ACCESS_REGISTER_POSTEXEC \<noteq> 0 then run_prog (transfer_reg cmd d)
      else Some (transfer_reg cmd d))"

text \<open>A write of the control register: while the module is inactive only its active bit counts.\<close>

definition write_control :: "u32 \<Rightarrow> dm \<Rightarrow> dm" where
  "write_control w d =
     (if w AND DMI_DMCONTROL_DMACTIVE = 0 then
        d\<lparr>dm_active := False, dm_sel := 0, dm_prog := map (\<lambda>_. 0) (dm_prog d), dm_data := map (\<lambda>_. 0) (dm_data d),
          dm_auto := 0, dm_last := 0, dm_err := 0\<rparr>
      else if \<not> dm_active d then d\<lparr>dm_active := True\<rparr>
      else
        let d = d\<lparr>dm_sel := get_field w DMI_DMCONTROL_HARTSEL\<rparr> in
        if w AND DMI_DMCONTROL_HALTREQ \<noteq> 0 then set_hart ((sel_hart d)\<lparr>hart_halted := True\<rparr>) d
        else if w AND DMI_DMCONTROL_RESUMEREQ \<noteq> 0 then set_hart ((sel_hart d)\<lparr>hart_halted := False\<rparr>) d
        else d)"

definition in_data :: "dm \<Rightarrow> u32 \<Rightarrow> bool" where
  "in_data d a \<longleftrightarrow> DMI_DATA0 \<le> a \<and> a < DMI_DATA0 + of_nat (length (dm_data d))"

definition in_prog :: "dm \<Rightarrow> u32 \<Rightarrow> bool" where
  "in_prog d a \<longleftrightarrow> DMI_PROGBUF0 \<le> a \<and> a < DMI_PROGBUF0 + of_nat (length (dm_prog d))"

text \<open>What a request makes of the state; \<open>None\<close> when it starts a program that never ends.\<close>

definition auto_cmd :: "u32 \<Rightarrow> dm \<Rightarrow> dm option" where
  "auto_cmd a d = (if bit (dm_auto d) (unat (a - DMI_DATA0)) then abstract_cmd d else Some d)"

definition access :: "req \<Rightarrow> dm \<Rightarrow> dm option" where
  "access r d =
     (let a = req_addr r; w = req_data r in
      if req_op r = 1 then if in_data d a then auto_cmd a d else Some d
      else if req_op r = 2 then
        if a = DMI_DMCONTROL then Some (write_control w d)
        else if a = DMI_ABSTRACTCS then Some (d\<lparr>dm_err := dm_err d AND NOT (get_field w DMI_ABSTRACTCS_CMDERR)\<rparr>)
        else if a = DMI_COMMAND then
          abstract_cmd (if dm_err d = 0 then d\<lparr>dm_last := w\<rparr> else d)
        else if a = DMI_ABSTRACTAUTO then Some (d\<lparr>dm_auto := w\<rparr>)
        else if in_data d a then auto_cmd a (d\<lparr>dm_data := (dm_data d)[unat (a - DMI_DATA0) := w]\<rparr>)
        else if in_prog d a then Some (d\<lparr>dm_prog := (dm_prog d)[unat (a - DMI_PROGBUF0) := w]\<rparr>)
        else Some d
      else Some d)"

text \<open>Requests that give the module work, and those that are allowed while it works.\<close>

definition begins :: "req \<Rightarrow> dm \<Rightarrow> bool" where
  "begins r d \<longleftrightarrow>
     req_op r = 2 \<and> (req_addr r = DMI_COMMAND
       \<or> req_addr r = DMI_DMCONTROL \<and> req_data r AND (DMI_DMCONTROL_HALTREQ OR DMI_DMCONTROL_RESUMEREQ) \<noteq> 0)
   \<or> in_data d (req_addr r) \<and> bit (dm_auto d) (unat (req_addr r - DMI_DATA0))"

definition is_status :: "req \<Rightarrow> bool" where
  "is_status r \<longleftrightarrow> req_op r = 1 \<and> (req_addr r = DMI_DMSTATUS \<or> req_addr r = DMI_ABSTRACTCS)"

text \<open>
  A module implements the specification. Its work takes time: \<open>pending\<close> bounds the number of
  status reads that still find it at work. While it works only status reads are specified.
\<close>

locale debug_module =
  fixes dmi :: "'t dmi" and ok :: "'t \<Rightarrow> bool" and pending :: "'t \<Rightarrow> nat" and view :: "'t \<Rightarrow> dm"
  assumes answers: "ok t \<Longrightarrow> dmi r t = (p, t') \<Longrightarrow> pending t = 0 \<or> is_status r \<Longrightarrow> access r (view t) = Some d \<Longrightarrow>
      resp_resp p = 0 \<and> ok t' \<and> view t' = d"
    and idle: "ok t \<Longrightarrow> dmi r t = (p, t') \<Longrightarrow> pending t = 0 \<Longrightarrow> \<not> begins r (view t) \<Longrightarrow> pending t' = 0"
    and halted: "ok t \<Longrightarrow> dmi (rd DMI_DMSTATUS) t = (p, t') \<Longrightarrow> hart_halted (sel_hart (view t)) \<Longrightarrow>
      (if get_field (resp_data p) DMI_DMSTATUS_ALLHALTED = 0 then pending t' < pending t else pending t' = 0)"
    and resumed: "ok t \<Longrightarrow> dmi (rd DMI_DMSTATUS) t = (p, t') \<Longrightarrow> \<not> hart_halted (sel_hart (view t)) \<Longrightarrow>
      (if get_field (resp_data p) DMI_DMSTATUS_ALLRESUMEACK = 0 then pending t' < pending t else pending t' = 0)"
    and busy: "ok t \<Longrightarrow> dmi (rd DMI_ABSTRACTCS) t = (p, t') \<Longrightarrow>
      (if resp_data p AND DMI_ABSTRACTCS_BUSY \<noteq> 0 then pending t' < pending t
       else pending t' = 0 \<and> get_field (resp_data p) DMI_ABSTRACTCS_CMDERR = dm_err (view t))"
    and room: "ok t \<Longrightarrow> dmi (rd DMI_ABSTRACTCS) t = (p, t') \<Longrightarrow>
      unat (get_field (resp_data p) DMI_ABSTRACTCS_PROGSIZE) = length (dm_prog (view t))
      \<and> unat (get_field (resp_data p) DMI_ABSTRACTCS_DATACOUNT) = length (dm_data (view t))"
    and control: "ok t \<Longrightarrow> pending t = 0 \<Longrightarrow> dmi (rd DMI_DMCONTROL) t = (p, t') \<Longrightarrow>
      (bit (resp_data p) 0 \<longleftrightarrow> dm_active (view t)) \<and> \<not> bit (resp_data p) 30 \<and> \<not> bit (resp_data p) 31"
    and info: "ok t \<Longrightarrow> pending t = 0 \<Longrightarrow> dmi (rd DMI_HARTINFO) t = (p, t') \<Longrightarrow>
      get_field (resp_data p) DMI_HARTINFO_NSCRATCH \<noteq> 0 \<and> get_field (resp_data p) DMI_HARTINFO_DATAACCESS \<noteq> 0"
    and data: "ok t \<Longrightarrow> pending t = 0 \<Longrightarrow> i < length (dm_data (view t)) \<Longrightarrow> dm_auto (view t) = 0 \<Longrightarrow>
      dmi (rd (DMI_DATA0 + of_nat i)) t = (p, t') \<Longrightarrow> resp_data p = dm_data (view t) ! i"
    and sizes: "ok t \<Longrightarrow> length (dm_data (view t)) \<le> 12 \<and> length (dm_prog (view t)) \<le> 16"

section \<open>Runs of the host against the specification\<close>

text \<open>
  \<open>cf\<close> is what the host has learnt about the module (see \<open>config\<close>). A triple \<open>does cf f d x d'\<close>
  says: in every state where the module is at rest and its registers are \<open>d\<close>, the operation
  \<open>f\<close> returns \<open>x\<close> and leaves the module at rest with the registers \<open>d'\<close>. In \<open>does_to\<close> what the host
  knows may change.
\<close>

context debug_module
begin

definition sees :: "nat \<times> nat \<times> nat \<times> bool \<times> u32 \<times> nat \<times> nat \<Rightarrow> dm \<Rightarrow> 't dtm \<Rightarrow> bool" where
  "sees cf d s \<longleftrightarrow> config s = cf \<and> ok (target s) \<and> pending (target s) = 0 \<and> view (target s) = d"

definition does_to :: "nat \<times> nat \<times> nat \<times> bool \<times> u32 \<times> nat \<times> nat \<Rightarrow> ('t dtm, 'a) M \<Rightarrow> dm \<Rightarrow> 'a \<Rightarrow>
    nat \<times> nat \<times> nat \<times> bool \<times> u32 \<times> nat \<times> nat \<Rightarrow> dm \<Rightarrow> bool" where
  "does_to cf f d x cf' d' \<longleftrightarrow> (\<forall>s. sees cf d s \<longrightarrow> (\<exists>s'. f s = Some (Inr (x, s')) \<and> sees cf' d' s'))"

abbreviation does :: "nat \<times> nat \<times> nat \<times> bool \<times> u32 \<times> nat \<times> nat \<Rightarrow> ('t dtm, 'a) M \<Rightarrow> dm \<Rightarrow> 'a \<Rightarrow> dm \<Rightarrow> bool" where
  "does cf f d x d' \<equiv> does_to cf f d x cf d'"

lemma does_return: "does cf (return x) d x d"
  by (simp add: does_to_def monad_simps)

lemma does_bind: "does cf f d x d' \<Longrightarrow> does_to cf (g x) d' y cf' d'' \<Longrightarrow> does_to cf (bindM f g) d y cf' d''"
  unfolding does_to_def by (metis bindM_Some(1))

lemma does_get: "(\<And>s. config s = cf \<Longrightarrow> f s = x) \<Longrightarrow> does cf (getM f) d x d"
  by (simp add: does_to_def monad_simps sees_def)

lemma does_modify:
  "(\<And>s. config s = cf \<Longrightarrow> config (f s) = cf \<and> target (f s) = target s) \<Longrightarrow> does cf (modifyM f) d () d"
  by (simp add: does_to_def monad_simps sees_def)

lemma does_lift: "does cf (liftE (Inr x)) d x d"
  by (simp add: does_to_def monad_simps)

lemma does_assert: "b \<Longrightarrow> does cf (assertM b msg) d () d"
  by (simp add: does_to_def monad_simps)

lemma does_if: "does cf (if b then f else g) d x d' \<longleftrightarrow> (if b then does cf f d x d' else does cf g d x d')"
  by simp

lemma do_command_run:
  assumes "dmi r (target s) = (p, t)" "resp_resp p = 0"
  shows "\<exists>s'. do_command dmi r s = Some (Inr (resp_data p, s')) \<and> target s' = t \<and> config s' = config s"
  using assms by (simp add: do_command_def monad_simps config_def)

text \<open>A request that gives the module no work.\<close>

lemma does_command:
  assumes "access r d = Some d'" "\<not> begins r d"
    and "\<And>t p t'. ok t \<Longrightarrow> view t = d \<Longrightarrow> pending t = 0 \<Longrightarrow> dmi r t = (p, t') \<Longrightarrow> resp_data p = x"
  shows "does cf (do_command dmi r) d x d'"
  unfolding does_to_def
proof (intro allI impI)
  fix s assume s: "sees cf d s"
  obtain p t where p: "dmi r (target s) = (p, t)" by fastforce
  have "resp_resp p = 0" "ok t" "view t = d'" "pending t = 0" "resp_data p = x"
    using s answers [OF _ p] idle [OF _ p] assms(1,2) assms(3) [OF _ _ _ p] by (auto simp: sees_def)
  with do_command_run [OF p] s show "\<exists>s'. do_command dmi r s = Some (Inr (x, s')) \<and> sees cf d' s'"
    by (auto simp: sees_def)
qed

text \<open>The value of a write, and of a read that is thrown away, is not known.\<close>

definition does_it :: "nat \<times> nat \<times> nat \<times> bool \<times> u32 \<times> nat \<times> nat \<Rightarrow> ('t dtm, 'a) M \<Rightarrow> dm \<Rightarrow> dm \<Rightarrow> bool" where
  "does_it cf f d d' \<longleftrightarrow> (\<forall>s. sees cf d s \<longrightarrow> (\<exists>x s'. f s = Some (Inr (x, s')) \<and> sees cf d' s'))"

lemma does_it_bind: "does_it cf f d d' \<Longrightarrow> (\<And>x. does_to cf (g x) d' y cf' d'') \<Longrightarrow> does_to cf (bindM f g) d y cf' d''"
  unfolding does_it_def does_to_def by (metis bindM_Some(1))

lemma does_it_if:
  "(b \<Longrightarrow> does_it cf f d d') \<Longrightarrow> (\<not> b \<Longrightarrow> does_it cf g d d') \<Longrightarrow> does_it cf (if b then f else g) d d'"
  by simp

lemma does_it_of: "does cf f d x d' \<Longrightarrow> does_it cf f d d'"
  by (auto simp: does_it_def does_to_def)

lemma does_it_trans: "does_it cf f d d' \<Longrightarrow> (\<And>x. does_it cf (g x) d' d'') \<Longrightarrow> does_it cf (bindM f g) d d''"
  unfolding does_it_def by (metis bindM_Some(1))

lemma command_does_it:
  assumes "access r d = Some d'" "\<not> begins r d"
  shows "does_it cf (do_command dmi r) d d'"
  unfolding does_it_def
proof (intro allI impI)
  fix s assume s: "sees cf d s"
  obtain p t where p: "dmi r (target s) = (p, t)" by fastforce
  have "resp_resp p = 0" "ok t" "view t = d'" "pending t = 0"
    using s answers [OF _ p] idle [OF _ p] assms(1,2) by (auto simp: sees_def)
  with do_command_run [OF p] s show "\<exists>x s'. do_command dmi r s = Some (Inr (x, s')) \<and> sees cf d' s'"
    by (auto simp: sees_def)
qed

lemma write_does_it: "access (wr a w) d = Some d' \<Longrightarrow> \<not> begins (wr a w) d \<Longrightarrow> does_it cf (dmi_write dmi a w) d d'"
  unfolding dmi_write_def wr_def [symmetric] by (rule command_does_it)

lemma read_does_it: "access (rd a) d = Some d' \<Longrightarrow> \<not> begins (rd a) d \<Longrightarrow> does_it cf (dmi_read dmi a) d d'"
  unfolding dmi_read_def rd_def [symmetric] by (rule command_does_it)

text \<open>A register that polls the end of the work: its condition holds for as long as there is some.\<close>

definition polls :: "u32 \<Rightarrow> (u32 \<Rightarrow> bool) \<Rightarrow> (u32 \<Rightarrow> bool) \<Rightarrow> dm \<Rightarrow> bool" where
  "polls a c R d \<longleftrightarrow> is_status (rd a) \<and> access (rd a) d = Some d \<and>
     (\<forall>t p t'. ok t \<longrightarrow> view t = d \<longrightarrow> dmi (rd a) t = (p, t') \<longrightarrow>
        (if c (resp_data p) then pending t' < pending t else pending t' = 0 \<and> R (resp_data p)))"

lemma poll_ends:
  assumes "polls a c R d" "config s = cf" "ok (target s)" "view (target s) = d"
  shows "\<exists>x s'. do_while (dmi_read dmi a) c s = Some (Inr (x, s')) \<and> R x \<and> sees cf d s'"
  using assms(2-)
proof (induction "pending (target s)" arbitrary: s rule: less_induct)
  case less
  obtain p t where p: "dmi (rd a) (target s) = (p, t)" by fastforce
  have st: "is_status (rd a)" "access (rd a) (view (target s)) = Some d"
    and w: "if c (resp_data p) then pending t < pending (target s) else pending t = 0 \<and> R (resp_data p)"
    using assms(1) less.prems(2,3) p by (auto simp: polls_def)
  have t: "resp_resp p = 0" "ok t" "view t = d" using answers [OF less.prems(2) p disjI2 [OF st(1)] st(2)] by auto
  obtain s1 where s1: "dmi_read dmi a s = Some (Inr (resp_data p, s1))" "target s1 = t" "config s1 = cf"
    using do_command_run [OF p t(1)] less.prems(1) unfolding dmi_read_def rd_def by auto
  show ?case
  proof (cases "c (resp_data p)")
    case True
    then show ?thesis
      using less.hyps [of s1] s1 t w do_while_again [of "dmi_read dmi a" s "resp_data p" s1 c] by simp
  next
    case False
    then show ?thesis using do_while_stop [of "dmi_read dmi a" s "resp_data p" s1 c] s1 t w by (auto simp: sees_def)
  qed
qed

lemma does_work_sized:
  assumes "access (wr a w) d = Some d1"
    and "length (dm_data d1) \<le> 12 \<Longrightarrow> polls a' c R d1"
    and "\<And>x v. R v \<Longrightarrow> does_to cf (g v) d1 y cf' d2"
  shows "does_to cf (bindM (dmi_write dmi a w) (\<lambda>_. bindM (do_while (dmi_read dmi a') c) g)) d y cf' d2"
  unfolding does_to_def
proof (intro allI impI)
  fix s assume s: "sees cf d s"
  obtain p t where p: "dmi (wr a w) (target s) = (p, t)" by fastforce
  have t: "resp_resp p = 0" "ok t" "view t = d1" using s answers [OF _ p] assms(1) by (auto simp: sees_def)
  obtain s1 where s1: "dmi_write dmi a w s = Some (Inr (resp_data p, s1))" "target s1 = t" "config s1 = cf"
    using do_command_run [OF p t(1)] s unfolding dmi_write_def wr_def by (auto simp: sees_def)
  have "polls a' c R d1" using assms(2) sizes [OF t(2)] t(3) by simp
  then obtain v s2 where s2: "do_while (dmi_read dmi a') c s1 = Some (Inr (v, s2))" "R v" "sees cf d1 s2"
    using poll_ends [of a' c R d1 s1] s1 t by auto
  then obtain s' where "g v s2 = Some (Inr (y, s'))" "sees cf' d2 s'"
    using assms(3) by (auto simp: does_to_def)
  with s1 s2 show "\<exists>s'. bindM (dmi_write dmi a w) (\<lambda>_. bindM (do_while (dmi_read dmi a') c) g) s = Some (Inr (y, s'))
      \<and> sees cf' d2 s'" by (simp add: monad_simps)
qed

lemma does_work:
  assumes "access (wr a w) d = Some d1" "polls a' c R d1"
    and "\<And>x v. R v \<Longrightarrow> does_to cf (g v) d1 y cf' d2"
  shows "does_to cf (bindM (dmi_write dmi a w) (\<lambda>_. bindM (do_while (dmi_read dmi a') c) g)) d y cf' d2"
  using assms by (rule does_work_sized)

end

end
