(* ===== verification/Dtm_runs.thy ===== *)
theory Dtm_runs
  imports Debug_module
begin

text \<open>
  Runs of \<^verbatim>\<open>dtm.cc\<close> against the debug module: the register addresses and the commands it uses,
  halting and resuming a hart, and abstract commands. Each is a triple \<open>does\<close>: the operation
  returns, and the registers of the module are what the specification says.
\<close>

section \<open>Addresses and commands\<close>

lemma unat_add_small: "unat c + i < 2 ^ 32 \<Longrightarrow> unat (c + of_nat i :: u32) = unat c + i"
  by (simp add: unat_word_ariths unsigned_of_nat take_bit_nat_eq_self_iff take_bit_eq_mod)

lemma prog_addr:
  assumes "i < 16"
  shows "unat (DMI_PROGBUF0 + of_nat i) = 32 + i"
  using assms by (simp add: unat_add_small DMI_PROGBUF0_def)

lemma data_addr:
  assumes "i < 12"
  shows "unat (DMI_DATA0 + of_nat i) = 4 + i"
  using assms by (simp add: unat_add_small DMI_DATA0_def)

lemma u32_eq_iff: "(a :: u32) = b \<longleftrightarrow> unat a = unat b"
  by (rule word_unat_eq_iff)

lemma in_prog_iff:
  assumes "length (dm_prog d) \<le> 16"
  shows "in_prog d a \<longleftrightarrow> 32 \<le> unat a \<and> unat a < 32 + length (dm_prog d)"
  using assms unat_add_small [of DMI_PROGBUF0 "length (dm_prog d)"]
  by (simp add: in_prog_def word_le_nat_alt word_less_nat_alt DMI_PROGBUF0_def)

lemma in_data_iff:
  assumes "length (dm_data d) \<le> 12"
  shows "in_data d a \<longleftrightarrow> 4 \<le> unat a \<and> unat a < 4 + length (dm_data d)"
  using assms unat_add_small [of DMI_DATA0 "length (dm_data d)"]
  by (simp add: in_data_def word_le_nat_alt word_less_nat_alt DMI_DATA0_def)

lemmas dmi_addrs = DMI_DMCONTROL_def DMI_ABSTRACTCS_def DMI_COMMAND_def DMI_ABSTRACTAUTO_def DMI_DMSTATUS_def

lemma access_prog:
  assumes "i < length (dm_prog d)" "length (dm_prog d) \<le> 16" "length (dm_data d) \<le> 12"
  shows "access (wr (DMI_PROGBUF0 + of_nat i) w) d = Some (d\<lparr>dm_prog := (dm_prog d)[i := w]\<rparr>)"
    "\<not> begins (wr (DMI_PROGBUF0 + of_nat i) w) d"
proof -
  have a: "unat (DMI_PROGBUF0 + of_nat i) = 32 + i" using assms(1,2) by (intro prog_addr) simp
  have ne: "DMI_PROGBUF0 + of_nat i \<noteq> DMI_DMCONTROL" "DMI_PROGBUF0 + of_nat i \<noteq> DMI_ABSTRACTCS"
    "DMI_PROGBUF0 + of_nat i \<noteq> DMI_COMMAND" "DMI_PROGBUF0 + of_nat i \<noteq> DMI_ABSTRACTAUTO"
    using a unfolding u32_eq_iff dmi_addrs by simp_all
  have "unat (of_nat i :: u32) = i" using assms(1,2) by (simp add: unsigned_of_nat take_bit_nat_eq_self)
  then show "access (wr (DMI_PROGBUF0 + of_nat i) w) d = Some (d\<lparr>dm_prog := (dm_prog d)[i := w]\<rparr>)"
    "\<not> begins (wr (DMI_PROGBUF0 + of_nat i) w) d"
    using a ne assms by (simp_all add: access_def begins_def wr_def in_prog_iff in_data_iff)
qed

lemma access_data:
  assumes "i < length (dm_data d)" "length (dm_data d) \<le> 12"
  shows "access (wr (DMI_DATA0 + of_nat i) w) d =
      (if bit (dm_auto d) i then abstract_cmd (d\<lparr>dm_data := (dm_data d)[i := w]\<rparr>)
       else Some (d\<lparr>dm_data := (dm_data d)[i := w]\<rparr>))"
    "begins (wr (DMI_DATA0 + of_nat i) w) d \<longleftrightarrow> bit (dm_auto d) i"
    "dm_auto d = 0 \<Longrightarrow> access (rd (DMI_DATA0 + of_nat i)) d = Some d"
    "dm_auto d = 0 \<Longrightarrow> \<not> begins (rd (DMI_DATA0 + of_nat i)) d"
proof -
  have a: "unat (DMI_DATA0 + of_nat i) = 4 + i" using assms(1,2) by (intro data_addr) simp
  have ne: "DMI_DATA0 + of_nat i \<noteq> DMI_DMCONTROL" "DMI_DATA0 + of_nat i \<noteq> DMI_ABSTRACTCS"
    "DMI_DATA0 + of_nat i \<noteq> DMI_COMMAND" "DMI_DATA0 + of_nat i \<noteq> DMI_ABSTRACTAUTO"
    using a assms unfolding u32_eq_iff dmi_addrs by simp_all
  have i: "unat (of_nat i :: u32) = i" using assms(1,2) by (simp add: unsigned_of_nat take_bit_nat_eq_self)
  then show "access (wr (DMI_DATA0 + of_nat i) w) d =
      (if bit (dm_auto d) i then abstract_cmd (d\<lparr>dm_data := (dm_data d)[i := w]\<rparr>)
       else Some (d\<lparr>dm_data := (dm_data d)[i := w]\<rparr>))"
    using a ne assms by (simp add: access_def wr_def in_data_iff auto_cmd_def)
  show "begins (wr (DMI_DATA0 + of_nat i) w) d \<longleftrightarrow> bit (dm_auto d) i"
    using i a ne assms by (simp add: begins_def wr_def in_data_iff)
  assume "dm_auto d = 0"
  then show "access (rd (DMI_DATA0 + of_nat i)) d = Some d" "\<not> begins (rd (DMI_DATA0 + of_nat i)) d"
    by (simp_all add: access_def rd_def auto_cmd_def begins_def Let_def)
qed

text \<open>A transfer of register \<open>r\<close>, a write or a read, with or without execution.\<close>

definition ac_reg :: "u32 \<Rightarrow> bool \<Rightarrow> bool \<Rightarrow> 5 word \<Rightarrow> bool" where
  "ac_reg cmd w e r \<longleftrightarrow> transfers cmd \<and> (writes cmd \<longleftrightarrow> w) \<and> (get_field cmd AC_ACCESS_REGISTER_POSTEXEC \<noteq> 0 \<longleftrightarrow> e)
     \<and> drop_bit 24 cmd = 0 \<and> drop_bit 20 cmd AND 7 = 3 \<and> drop_bit 5 (cmd AND 0xffff) = 0x80 \<and> ucast cmd = r"

lemmas ac_defs = ac_reg_def transfers_def writes_def

lemma commands:
  "ac_reg (AC_ACCESS_REGISTER_TRANSFER OR AC_AR_SIZE 64 OR AC_AR_REGNO S0) False False 8"
  "ac_reg (AC_ACCESS_REGISTER_TRANSFER OR AC_AR_SIZE 64 OR AC_AR_REGNO S1) False False 9"
  "ac_reg ((AC_ACCESS_REGISTER_TRANSFER OR AC_AR_SIZE 64 OR AC_AR_REGNO S1) OR AC_ACCESS_REGISTER_POSTEXEC) False True 9"
  "ac_reg (AC_ACCESS_REGISTER_TRANSFER OR AC_ACCESS_REGISTER_WRITE OR AC_AR_SIZE 64 OR AC_AR_REGNO S0) True False 8"
  "ac_reg (AC_ACCESS_REGISTER_TRANSFER OR AC_ACCESS_REGISTER_WRITE OR AC_AR_SIZE 64 OR AC_AR_REGNO S1) True False 9"
  "ac_reg (AC_ACCESS_REGISTER_TRANSFER OR AC_ACCESS_REGISTER_WRITE OR AC_ACCESS_REGISTER_POSTEXEC OR
     AC_AR_SIZE 64 OR AC_AR_REGNO S0) True True 8"
  "ac_reg (AC_ACCESS_REGISTER_TRANSFER OR AC_ACCESS_REGISTER_POSTEXEC OR AC_ACCESS_REGISTER_WRITE OR
     AC_AR_SIZE 64 OR AC_AR_REGNO S1) True True 9"
  "ac_reg (AC_ACCESS_REGISTER_TRANSFER OR AC_ACCESS_REGISTER_WRITE OR AC_AR_SIZE 64 OR AC_AR_REGNO S1 OR
     AC_ACCESS_REGISTER_POSTEXEC) True True 9"
  by code_simp+

lemma abstract_cmd_transfer:
  assumes "ac_reg (dm_last d) w e r" "dm_err d = 0" "hart_halted (sel_hart d)"
  shows "abstract_cmd d = (if e then run_prog (transfer_reg (dm_last d) d) else Some (transfer_reg (dm_last d) d))"
  using assms by (simp add: abstract_cmd_def ac_reg_def)

text \<open>
  The control words: hart \<open>h\<close> with a request, which is then taken back. The select field holds
  every hart number there can be.
\<close>

lemma and_bit_0_iff: "k < 32 \<Longrightarrow> w AND push_bit k 1 = (0 :: u32) \<longleftrightarrow> \<not> bit w k"
  using and_exp_eq_0_iff_not_bit [of w k] by (simp add: push_bit_eq_mult)

definition control_word :: "u32 \<Rightarrow> nat \<Rightarrow> u32" where
  "control_word f h = set_field (f OR DMI_DMCONTROL_DMACTIVE) DMI_DMCONTROL_HARTSEL (of_nat h)"

lemma bit_control_word:
  "bit (control_word f h) i \<longleftrightarrow>
    (if 16 \<le> i \<and> i < 26 then bit h (i - 16) else i < 32 \<and> (bit f i \<or> i = 0))"
proof -
  have "bit (push_bit 16 (take_bit 10 (of_nat h :: u32))) i \<longleftrightarrow> 16 \<le> i \<and> i < 26 \<and> bit h (i - 16)"
    by (auto simp: bit_simps)
  then show ?thesis
    unfolding control_word_def mask_literals
    by (subst set_field_eq) (auto simp: bit_field_mask bit_simps dest: bit_imp_le_length)
qed

lemma get_hartsel: "h < 1024 \<Longrightarrow> (\<And>i. 16 \<le> i \<Longrightarrow> i < 26 \<Longrightarrow> bit w i = bit h (i - 16)) \<Longrightarrow>
   get_field w DMI_DMCONTROL_HARTSEL = of_nat h"
proof -
  assume h: "h < 1024" and w: "\<And>i. 16 \<le> i \<Longrightarrow> i < 26 \<Longrightarrow> bit w i = bit h (i - 16)"
  have "get_field w DMI_DMCONTROL_HARTSEL = take_bit 10 (drop_bit 16 w)"
    unfolding mask_literals by (rule get_field_eq) simp_all
  also have "\<dots> = take_bit 10 (of_nat h)"
    using w by (intro bit_word_eqI) (auto simp: bit_simps)
  also have "\<dots> = (of_nat (take_bit 10 h) :: u32)" by (simp add: take_bit_of_nat)
  also have "take_bit 10 h = h" using h by (simp add: take_bit_nat_eq_self)
  finally show ?thesis .
qed

section \<open>Halting and resuming\<close>

text \<open>The state of a transfer: hart \<open>h\<close> is halted with registers \<open>x\<close>.\<close>

definition held :: "u32 \<Rightarrow> u32 \<Rightarrow> (u32 \<Rightarrow> hart) \<Rightarrow> gprs \<Rightarrow> memory \<Rightarrow> dm \<Rightarrow> bool" where
  "held auto h hs x m d \<longleftrightarrow> dm_active d \<and> dm_sel d = h \<and> dm_harts d = hs(h := \<lparr>hart_regs = x, hart_halted = True\<rparr>)
     \<and> dm_mem d = m \<and> dm_err d = 0 \<and> dm_auto d = auto \<and> 2 \<le> length (dm_data d) \<and> 4 \<le> length (dm_prog d)"

text \<open>The state between transfers; the module may be inactive while the target runs.\<close>

definition rests :: "bool \<Rightarrow> dm \<Rightarrow> bool" where
  "rests run d \<longleftrightarrow> (run \<or> dm_active d) \<and> dm_err d = 0 \<and> dm_auto d = 0 \<and> 2 \<le> length (dm_data d) \<and> 4 \<le> length (dm_prog d)"

definition halted_dm :: "u32 \<Rightarrow> dm \<Rightarrow> dm" where
  "halted_dm h d = d\<lparr>dm_active := True, dm_sel := h,
     dm_harts := (dm_harts d)(h := (dm_harts d h)\<lparr>hart_halted := True\<rparr>)\<rparr>"

definition resumed_dm :: "bool \<Rightarrow> dm \<Rightarrow> dm" where
  "resumed_dm run d = (let d = set_hart ((sel_hart d)\<lparr>hart_halted := False\<rparr>) d in
     if run then write_control 0 d else d)"

lemma flag_bits:
  "bit DMI_DMCONTROL_HALTREQ i \<longleftrightarrow> i = 31" "bit DMI_DMCONTROL_RESUMEREQ i \<longleftrightarrow> i = 30"
  "bit DMI_DMCONTROL_DMACTIVE i \<longleftrightarrow> i = 0"
  unfolding mask_literals bit_field_mask by auto

lemma field_unset: "k < 32 \<Longrightarrow> w AND field_mask k 1 = 0 \<longleftrightarrow> \<not> bit w k"
  by (auto simp: word_eq_bits bit_and_iff bit_field_mask) (metis le_antisym less_Suc_eq_le)

lemma flag_unset:
  "w AND DMI_DMCONTROL_HALTREQ = 0 \<longleftrightarrow> \<not> bit w 31" "w AND DMI_DMCONTROL_RESUMEREQ = 0 \<longleftrightarrow> \<not> bit w 30"
  "w AND DMI_DMCONTROL_DMACTIVE = 0 \<longleftrightarrow> \<not> bit w 0"
  "w AND (DMI_DMCONTROL_HALTREQ OR DMI_DMCONTROL_RESUMEREQ) = 0 \<longleftrightarrow> \<not> bit w 31 \<and> \<not> bit w 30"
  unfolding mask_literals bit.conj_disj_distrib or_eq_0_iff by (simp_all add: field_unset [unfolded One_nat_def])

lemma control_bits:
  "h < 1024 \<Longrightarrow> get_field (control_word f h) DMI_DMCONTROL_HARTSEL = of_nat h"
  "h < 1024 \<Longrightarrow> get_field (control_word f h AND NOT DMI_DMCONTROL_HALTREQ) DMI_DMCONTROL_HARTSEL = of_nat h"
  "h < 1024 \<Longrightarrow> get_field (control_word f h AND NOT DMI_DMCONTROL_RESUMEREQ) DMI_DMCONTROL_HARTSEL = of_nat h"
  by (rule get_hartsel; simp add: bit_control_word bit_and_iff bit_not_iff flag_bits)+

lemma control_flags:
  "bit (control_word DMI_DMCONTROL_HALTREQ h) 0" "bit (control_word DMI_DMCONTROL_HALTREQ h) 31"
  "bit (control_word DMI_DMCONTROL_HALTREQ h AND NOT DMI_DMCONTROL_HALTREQ) 0"
  "\<not> bit (control_word DMI_DMCONTROL_HALTREQ h AND NOT DMI_DMCONTROL_HALTREQ) 31"
  "\<not> bit (control_word DMI_DMCONTROL_HALTREQ h AND NOT DMI_DMCONTROL_HALTREQ) 30"
  "bit (control_word DMI_DMCONTROL_RESUMEREQ h) 0" "\<not> bit (control_word DMI_DMCONTROL_RESUMEREQ h) 31"
  "bit (control_word DMI_DMCONTROL_RESUMEREQ h) 30"
  "bit (control_word DMI_DMCONTROL_RESUMEREQ h AND NOT DMI_DMCONTROL_RESUMEREQ) 0"
  "\<not> bit (control_word DMI_DMCONTROL_RESUMEREQ h AND NOT DMI_DMCONTROL_RESUMEREQ) 31"
  "\<not> bit (control_word DMI_DMCONTROL_RESUMEREQ h AND NOT DMI_DMCONTROL_RESUMEREQ) 30"
  by (simp_all only: bit_control_word bit_and_iff bit_not_iff flag_bits) simp_all

lemma access_control:
  assumes "length (dm_data d) \<le> 12"
  shows "access (wr DMI_DMCONTROL w) d = Some (write_control w d)"
    "begins (wr DMI_DMCONTROL w) d \<longleftrightarrow> bit w 31 \<or> bit w 30"
    "access (rd DMI_DMSTATUS) d = Some d" "\<not> begins (rd DMI_DMSTATUS) d"
proof -
  have "\<not> in_data d DMI_DMCONTROL" "\<not> in_data d DMI_DMSTATUS"
    using assms by (simp_all add: in_data_iff dmi_addrs)
  then show "begins (wr DMI_DMCONTROL w) d \<longleftrightarrow> bit w 31 \<or> bit w 30"
    "access (rd DMI_DMSTATUS) d = Some d" "\<not> begins (rd DMI_DMSTATUS) d"
    "access (wr DMI_DMCONTROL w) d = Some (write_control w d)"
    by (auto simp: begins_def access_def rd_def wr_def flag_unset) (simp_all add: dmi_addrs)
qed

lemma write_control_halt:
  assumes "h < 1024" "dm_active d"
  shows "write_control (control_word DMI_DMCONTROL_HALTREQ h) d = halted_dm (of_nat h) d"
  using assms by (simp add: write_control_def flag_unset control_flags control_bits halted_dm_def set_hart_def sel_hart_def)

lemma write_control_halt_done:
  assumes "h < 1024" "dm_active d" "dm_sel d = of_nat h"
  shows "write_control (control_word DMI_DMCONTROL_HALTREQ h AND NOT DMI_DMCONTROL_HALTREQ) d = d"
  using assms by (simp add: write_control_def flag_unset control_flags control_bits)

lemma write_control_resume:
  assumes "h < 1024" "dm_active d" "dm_sel d = of_nat h"
  shows "write_control (control_word DMI_DMCONTROL_RESUMEREQ h) d = set_hart ((sel_hart d)\<lparr>hart_halted := False\<rparr>) d"
    "write_control (control_word DMI_DMCONTROL_RESUMEREQ h AND NOT DMI_DMCONTROL_RESUMEREQ) d = d"
proof -
  have e: "d\<lparr>dm_sel := of_nat h\<rparr> = d" using assms(3) by (cases d) simp
  show "write_control (control_word DMI_DMCONTROL_RESUMEREQ h) d = set_hart ((sel_hart d)\<lparr>hart_halted := False\<rparr>) d"
    "write_control (control_word DMI_DMCONTROL_RESUMEREQ h AND NOT DMI_DMCONTROL_RESUMEREQ) d = d"
    using assms(1,2) by (simp_all add: write_control_def flag_unset control_flags control_bits Let_def e)
qed

lemma write_control_active:
  "write_control DMI_DMCONTROL_DMACTIVE d = (if dm_active d then d\<lparr>dm_sel := 0\<rparr> else d\<lparr>dm_active := True\<rparr>)"
proof -
  have "get_field DMI_DMCONTROL_DMACTIVE DMI_DMCONTROL_HARTSEL = 0"
    by (rule get_hartsel [of 0, simplified]) (simp add: flag_bits)
  moreover have "DMI_DMCONTROL_DMACTIVE \<noteq> 0" by (simp add: DMI_DMCONTROL_DMACTIVE_def)
  ultimately show ?thesis by (simp add: write_control_def flag_unset flag_bits)
qed

context debug_module
begin

lemma sizes_of: "sees cf d s \<Longrightarrow> length (dm_data d) \<le> 12 \<and> length (dm_prog d) \<le> 16"
  using sizes by (auto simp: sees_def)

text \<open>The bounds hold wherever the module can be: they may be used in proving a triple.\<close>

lemma does_sizes:
  "(length (dm_data d) \<le> 12 \<Longrightarrow> length (dm_prog d) \<le> 16 \<Longrightarrow> does_to cf f d x cf' d') \<Longrightarrow> does_to cf f d x cf' d'"
  using sizes_of unfolding does_to_def by blast

lemma status_read: "length (dm_data d) \<le> 12 \<Longrightarrow> does_it cf (dmi_read dmi DMI_DMSTATUS) d d"
  by (intro read_does_it access_control)

lemma halted_polls:
  assumes "hart_halted (sel_hart d)" "length (dm_data d) \<le> 12"
  shows "polls DMI_DMSTATUS (\<lambda>v. get_field v DMI_DMSTATUS_ALLHALTED = 0) (\<lambda>_. True) d"
  using assms halted access_control(3) by (auto simp: polls_def is_status_def rd_def)

lemma resumed_polls:
  assumes "\<not> hart_halted (sel_hart d)" "length (dm_data d) \<le> 12"
  shows "polls DMI_DMSTATUS (\<lambda>v. get_field v DMI_DMSTATUS_ALLRESUMEACK = 0) (\<lambda>_. True) d"
  using assms resumed access_control(3) by (auto simp: polls_def is_status_def rd_def)

lemma does_set_hart:
  "does_to (rw, dw, xl, run, base, nh, h0) (modifyM (\<lambda>s. s\<lparr>current_hart := h\<rparr>)) d () (rw, dw, xl, run, base, nh, h) d"
  by (auto simp: does_to_def monad_simps sees_def config_def)

lemma does_halt:
  assumes "h < 1024" "rests run d"
  shows "does_to (rw, dw, xl, run, base, nh, h0) (halt dmi h) d () (rw, dw, xl, run, base, nh, h) (halted_dm (of_nat h) d)"
proof (rule does_sizes)
  let ?cf = "(rw, dw, xl, run, base, nh, h0)" and ?cf' = "(rw, dw, xl, run, base, nh, h)"
  assume b: "length (dm_data d) \<le> 12" "length (dm_prog d) \<le> 16"
  define d1 where "d1 = (if run then write_control DMI_DMCONTROL_DMACTIVE d else d)"
  let ?d2 = "halted_dm (of_nat h) d"
  have d1: "dm_active d1" "length (dm_data d1) \<le> 12" "halted_dm (of_nat h) d1 = ?d2"
    using assms(2) b by (auto simp: d1_def write_control_active rests_def halted_dm_def)
  have d2: "hart_halted (sel_hart ?d2)" "length (dm_data ?d2) \<le> 12" "dm_active ?d2" "dm_sel ?d2 = of_nat h"
    using b by (simp_all add: halted_dm_def sel_hart_def)
  have start: "does_it ?cf (if run then bindM (dmi_write dmi DMI_DMCONTROL DMI_DMCONTROL_DMACTIVE)
      (\<lambda>_. dmi_read dmi DMI_DMSTATUS) else return 0) d d1"
  proof (rule does_it_if)
    assume run
    then have "does_it ?cf (dmi_write dmi DMI_DMCONTROL DMI_DMCONTROL_DMACTIVE) d d1"
      using b by (intro write_does_it) (simp_all add: access_control d1_def flag_bits)
    then show "does_it ?cf (bindM (dmi_write dmi DMI_DMCONTROL DMI_DMCONTROL_DMACTIVE) (\<lambda>_. dmi_read dmi DMI_DMSTATUS)) d d1"
      by (rule does_it_trans) (simp add: status_read d1(2))
  next
    assume "\<not> run"
    then show "does_it ?cf (return 0) d d1" by (simp add: d1_def does_it_of [OF does_return])
  qed
  have tail: "does_to ?cf (bindM (dmi_write dmi DMI_DMCONTROL (control_word DMI_DMCONTROL_HALTREQ h AND NOT DMI_DMCONTROL_HALTREQ))
      (\<lambda>_. bindM (dmi_read dmi DMI_DMSTATUS) (\<lambda>_. modifyM (\<lambda>s. s\<lparr>current_hart := h\<rparr>)))) ?d2 () ?cf' ?d2"
    using assms(1) d2
    by (intro does_it_bind [OF write_does_it] does_it_bind [OF status_read] does_set_hart)
      (simp add: access_control write_control_halt_done control_flags does_set_hart)+
  show "does_to ?cf (halt dmi h) d () ?cf' ?d2"
    unfolding halt_def Let_def control_word_def [symmetric]
    by (rule does_bind [OF does_get [where x = run]], simp add: config_def, rule does_it_bind [OF start],
        rule does_work [OF _ halted_polls [OF d2(1,2)] tail],
        simp add: access_control write_control_halt assms(1) d1)
qed


lemma does_resume:
  assumes "h < 1024" "dm_active d" "dm_sel d = of_nat h"
  shows "does (rw, dw, xl, run, base, nh, h) (resume dmi h) d () (resumed_dm run d)"
proof (rule does_sizes)
  let ?cf = "(rw, dw, xl, run, base, nh, h)"
  assume b: "length (dm_data d) \<le> 12" "length (dm_prog d) \<le> 16"
  define d1 where "d1 = set_hart ((sel_hart d)\<lparr>hart_halted := False\<rparr>) d"
  have d1: "\<not> hart_halted (sel_hart d1)" "length (dm_data d1) \<le> 12" "dm_active d1" "dm_sel d1 = of_nat h"
    using assms b by (simp_all add: d1_def set_hart_def sel_hart_def)
  have r: "resumed_dm run d = (if run then write_control 0 d1 else d1)"
    by (simp add: resumed_dm_def d1_def)
  have stop: "does ?cf (if run then bindM (dmi_write dmi DMI_DMCONTROL 0) (\<lambda>_. bindM (dmi_read dmi DMI_DMSTATUS)
      (\<lambda>_. return ())) else return ()) d1 () (resumed_dm run d)"
  proof (cases run)
    case True
    have "length (dm_data (write_control 0 d1)) \<le> 12" using d1(2) by (simp add: write_control_def)
    then have "does ?cf (bindM (dmi_write dmi DMI_DMCONTROL 0) (\<lambda>_. bindM (dmi_read dmi DMI_DMSTATUS)
        (\<lambda>_. return ()))) d1 () (write_control 0 d1)"
      using d1(2) by (intro does_it_bind [OF write_does_it] does_it_bind [OF status_read] does_return)
        (simp add: access_control does_return)+
    then show ?thesis unfolding r using True by simp
  next
    case False
    then show ?thesis unfolding r by (simp add: does_return)
  qed
  show "does ?cf (resume dmi h) d () (resumed_dm run d)"
    unfolding resume_def Let_def control_word_def [symmetric]
    using assms b d1
    by - (rule does_work [OF _ resumed_polls [OF d1(1,2)]], simp add: access_control write_control_resume d1_def,
        rule does_it_bind [OF write_does_it [where d' = d1]], simp add: access_control write_control_resume,
        simp add: access_control control_flags, rule does_it_bind [OF status_read], simp,
        rule does_bind [OF does_set_hart], rule does_bind [OF does_get [where x = run]], simp add: config_def, rule stop)
qed

end

section \<open>Abstract commands\<close>

context debug_module
begin

lemma does_forM:
  assumes "\<And>i. k \<le> i \<Longrightarrow> i < n \<Longrightarrow> does cf (f i) (D i) () (D (Suc i))" and "k \<le> n"
  shows "does cf (forM f [k..<n]) (D k) () (D n)"
  using assms
proof (induction "n - k" arbitrary: k)
  case 0
  then show ?case by (simp add: does_return)
next
  case (Suc j)
  then have k: "[k..<n] = k # [Suc k..<n]" "k < n" by (simp_all add: upt_conv_Cons)
  have "does cf (forM f [Suc k..<n]) (D (Suc k)) () (D n)" using Suc.hyps Suc.prems k(2) by auto
  then show ?case unfolding k(1) forM.simps using Suc.prems(1) k(2) by (intro does_bind [of cf _ _ "()"]) auto
qed

lemma does_put:
  assumes "i < length xs" "\<And>w. does_it cf (dmi_write dmi (a + of_nat i) w) d (D w)"
  shows "does cf (bindM (liftE (get_word xs i)) (\<lambda>w. bindM (dmi_write dmi (a + of_nat i) w) (\<lambda>_. return ()))) d () (D (xs ! i))"
  using assms by (simp add: get_word_def)
    (rule does_bind [OF does_lift], rule does_it_bind, assumption, rule does_return)

lemma take_Suc_update:
  assumes "i < length xs" "i < length ys"
  shows "(take i xs @ drop i ys)[i := xs ! i] = take (Suc i) xs @ drop (Suc i) ys"
  using assms by (simp add: list_update_append take_Suc_conv_app_nth Cons_nth_drop_Suc [symmetric])

lemma does_put_prog:
  assumes "n \<le> length xs" "n \<le> length (dm_prog d)"
  shows "does cf (forM (\<lambda>i. bindM (liftE (get_word xs i)) (\<lambda>w.
      bindM (dmi_write dmi (DMI_PROGBUF0 + of_nat i) w) (\<lambda>_. return ()))) [0..<n])
    d () (d\<lparr>dm_prog := take n xs @ drop n (dm_prog d)\<rparr>)"
proof (rule does_sizes)
  assume b: "length (dm_data d) \<le> 12" "length (dm_prog d) \<le> 16"
  have "does cf (forM (\<lambda>i. bindM (liftE (get_word xs i)) (\<lambda>w.
      bindM (dmi_write dmi (DMI_PROGBUF0 + of_nat i) w) (\<lambda>_. return ()))) [0..<n])
    (d\<lparr>dm_prog := take 0 xs @ drop 0 (dm_prog d)\<rparr>) () (d\<lparr>dm_prog := take n xs @ drop n (dm_prog d)\<rparr>)"
  proof (rule does_forM)
    fix i assume i: "0 \<le> i" "i < n"
    let ?D = "d\<lparr>dm_prog := take i xs @ drop i (dm_prog d)\<rparr>"
    have "does cf (bindM (liftE (get_word xs i)) (\<lambda>w. bindM (dmi_write dmi (DMI_PROGBUF0 + of_nat i) w) (\<lambda>_. return ())))
      ?D () (?D\<lparr>dm_prog := (dm_prog ?D)[i := xs ! i]\<rparr>)"
      using i assms b by (intro does_put [where D = "\<lambda>w. ?D\<lparr>dm_prog := (dm_prog ?D)[i := w]\<rparr>"] write_does_it access_prog) auto
    then show "does cf (bindM (liftE (get_word xs i)) (\<lambda>w. bindM (dmi_write dmi (DMI_PROGBUF0 + of_nat i) w) (\<lambda>_. return ())))
      ?D () (d\<lparr>dm_prog := take (Suc i) xs @ drop (Suc i) (dm_prog d)\<rparr>)"
      using i assms by (simp add: take_Suc_update)
  qed simp
  then show "does cf (forM (\<lambda>i. bindM (liftE (get_word xs i)) (\<lambda>w.
      bindM (dmi_write dmi (DMI_PROGBUF0 + of_nat i) w) (\<lambda>_. return ()))) [0..<n])
    d () (d\<lparr>dm_prog := take n xs @ drop n (dm_prog d)\<rparr>)" by simp
qed

lemma does_put_data:
  assumes "n \<le> length xs" "n \<le> length (dm_data d)" "dm_auto d = 0"
  shows "does cf (forM (\<lambda>i. bindM (liftE (get_word xs i)) (\<lambda>w.
      bindM (dmi_write dmi (DMI_DATA0 + of_nat i) w) (\<lambda>_. return ()))) [0..<n])
    d () (d\<lparr>dm_data := take n xs @ drop n (dm_data d)\<rparr>)"
proof (rule does_sizes)
  assume b: "length (dm_data d) \<le> 12" "length (dm_prog d) \<le> 16"
  have "does cf (forM (\<lambda>i. bindM (liftE (get_word xs i)) (\<lambda>w.
      bindM (dmi_write dmi (DMI_DATA0 + of_nat i) w) (\<lambda>_. return ()))) [0..<n])
    (d\<lparr>dm_data := take 0 xs @ drop 0 (dm_data d)\<rparr>) () (d\<lparr>dm_data := take n xs @ drop n (dm_data d)\<rparr>)"
  proof (rule does_forM)
    fix i assume i: "0 \<le> i" "i < n"
    let ?D = "d\<lparr>dm_data := take i xs @ drop i (dm_data d)\<rparr>"
    have "does cf (bindM (liftE (get_word xs i)) (\<lambda>w. bindM (dmi_write dmi (DMI_DATA0 + of_nat i) w) (\<lambda>_. return ())))
      ?D () (?D\<lparr>dm_data := (dm_data ?D)[i := xs ! i]\<rparr>)"
      using i assms b
      by (intro does_put [where D = "\<lambda>w. ?D\<lparr>dm_data := (dm_data ?D)[i := w]\<rparr>"] write_does_it) (auto simp: access_data)
    then show "does cf (bindM (liftE (get_word xs i)) (\<lambda>w. bindM (dmi_write dmi (DMI_DATA0 + of_nat i) w) (\<lambda>_. return ())))
      ?D () (d\<lparr>dm_data := take (Suc i) xs @ drop (Suc i) (dm_data d)\<rparr>)"
      using i assms by (simp add: take_Suc_update)
  qed simp
  then show "does cf (forM (\<lambda>i. bindM (liftE (get_word xs i)) (\<lambda>w.
      bindM (dmi_write dmi (DMI_DATA0 + of_nat i) w) (\<lambda>_. return ()))) [0..<n])
    d () (d\<lparr>dm_data := take n xs @ drop n (dm_data d)\<rparr>)" by simp
qed

lemma does_read_data:
  assumes "k \<le> n" "n \<le> length (dm_data d)" "n \<le> length xs" "dm_auto d = 0"
  shows "does cf (read_data dmi [k..<n] (take k (dm_data d) @ drop k xs)) d (take n (dm_data d) @ drop n xs) d"
  using assms
proof (induction "n - k" arbitrary: k)
  case 0
  then show ?case by (simp add: does_return)
next
  case (Suc j)
  then have k: "[k..<n] = k # [Suc k..<n]" "k < n" by (simp_all add: upt_conv_Cons)
  let ?xs = "take k (dm_data d) @ drop k xs"
  have p: "put_word k (dm_data d ! k) ?xs = Inr (take (Suc k) (dm_data d) @ drop (Suc k) xs)"
    using Suc.prems k(2) take_Suc_update [of k "dm_data d" xs] by (simp add: put_word_def)
  have "does cf (dmi_read dmi (DMI_DATA0 + of_nat k)) d (dm_data d ! k) d"
  proof (rule does_sizes)
    assume "length (dm_data d) \<le> 12"
    then show ?thesis unfolding dmi_read_def rd_def [symmetric]
      using Suc.prems k(2) data by (intro does_command) (auto simp: access_data)
  qed
  moreover have "does cf (read_data dmi [Suc k..<n] (take (Suc k) (dm_data d) @ drop (Suc k) xs)) d
      (take n (dm_data d) @ drop n xs) d"
    using Suc.hyps Suc.prems k(2) by auto
  ultimately show ?case unfolding k(1) read_data.simps
    by (intro does_bind [of cf "dmi_read dmi (DMI_DATA0 + of_nat k)"]) (auto simp: p intro: does_bind [OF does_lift])
qed

end

lemma return_bind: "bindM (return a) g = g a"
  by (rule ext) (simp add: monad_simps)

text \<open>A register transfer without an error, on a halted hart, with or without a program.\<close>

lemma abstract_transfer:
  assumes ac: "ac_reg cmd w e r" and d: "held auto h hs x m d" "dm_last d = cmd" "dm_data d = a # b # as" and r: "r \<noteq> 0"
    and x': "x1 = (if w then x(r := join a b) else x)"
    and run: "if e then exec_prog (dm_prog d) 0 (x1, m) = Some (True, x2, m2) else x2 = x1 \<and> m2 = m"
  obtains d' where "abstract_cmd d = Some d'" "held auto h hs x2 m2 d'" "dm_prog d' = dm_prog d" "dm_last d' = cmd"
    "length (dm_data d') = length (dm_data d)"
    "dm_data d' = (if w then dm_data d else ucast (x r) # ucast (drop_bit 32 (x r)) # as)"
proof -
  have cmd: "transfers cmd" "writes cmd \<longleftrightarrow> w" "ucast cmd = r" using ac by (simp_all add: ac_reg_def)
  have d1: "hart_halted (sel_hart d)" "dm_err d = 0" using d by (simp_all add: held_def sel_hart_def)
  define d2 where "d2 = transfer_reg cmd d"
  have d2: "held auto h hs x1 m d2" "dm_prog d2 = dm_prog d" "dm_last d2 = cmd"
    "dm_data d2 = (if w then dm_data d else ucast (x r) # ucast (drop_bit 32 (x r)) # as)"
    using d cmd r x'
    by (auto simp: d2_def transfer_reg_def held_def sel_hart_def set_hart_def Let_def rx_def)
  have len: "length (dm_data d2) = length (dm_data d)" using d2(4) d(3) by simp
  show thesis
  proof (cases e)
    case False
    then show thesis using that [of d2] d2 len run abstract_cmd_transfer [of d w e r] ac d1 d(2) by (simp add: d2_def)
  next
    case True
    have h2: "sel_hart d2 = \<lparr>hart_regs = x1, hart_halted = True\<rparr>" "dm_mem d2 = m"
      using d2(1) by (simp_all add: held_def sel_hart_def)
    have "run_prog d2 = Some (set_hart ((sel_hart d2)\<lparr>hart_regs := x2\<rparr>) d2\<lparr>dm_mem := m2, dm_err := 0\<rparr>)"
      using True run h2 d2(2) by (simp add: run_prog_def)
    then show thesis
      using that [of "set_hart ((sel_hart d2)\<lparr>hart_regs := x2\<rparr>) d2\<lparr>dm_mem := m2, dm_err := 0\<rparr>"]
        True abstract_cmd_transfer [of d w e r] ac d1 d2 len h2 d(2)
      by (simp add: d2_def [symmetric] held_def set_hart_def)
  qed
qed

context debug_module
begin

lemma busy_polls:
  assumes "length (dm_data d) \<le> 12"
  shows "polls DMI_ABSTRACTCS (\<lambda>v. v AND DMI_ABSTRACTCS_BUSY \<noteq> 0)
    (\<lambda>v. get_field v DMI_ABSTRACTCS_CMDERR = dm_err d) d"
proof -
  have "\<not> in_data d DMI_ABSTRACTCS" using assms by (simp add: in_data_iff dmi_addrs)
  then show ?thesis using busy by (auto simp: polls_def is_status_def rd_def access_def)
qed

lemma access_command:
  "access (wr DMI_COMMAND cmd) d = abstract_cmd (if dm_err d = 0 then d\<lparr>dm_last := cmd\<rparr> else d)"
  by (simp add: access_def wr_def) (simp add: dmi_addrs)

text \<open>What an abstract command does to the registers it goes through.\<close>

definition loaded :: "u32 \<Rightarrow> u32 list \<Rightarrow> nat \<Rightarrow> u32 list \<Rightarrow> nat \<Rightarrow> dm \<Rightarrow> dm" where
  "loaded cmd prog pn xs dn d = d\<lparr>dm_prog := take pn prog @ drop pn (dm_prog d),
     dm_data := (if writes cmd \<and> transfers cmd then take dn xs @ drop dn (dm_data d) else dm_data d), dm_last := cmd\<rparr>"

lemma does_abstract:
  assumes "pn \<le> rw" "dn \<le> dw" "pn \<le> length prog" "pn \<le> length (dm_prog d)" "dn \<le> length xs" "dn \<le> length (dm_data d)"
    and "dm_auto d = 0" "dm_err d = 0" and ac: "abstract_cmd (loaded cmd prog pn xs dn d) = Some d'"
    and d': "dm_auto d' = 0" "dn \<le> length (dm_data d')"
  shows "does (rw, dw, xl, run, base, nh, h) (run_abstract_command dmi cmd prog pn xs dn) d
    (dm_err d', if \<not> writes cmd \<and> transfers cmd then take dn (dm_data d') @ drop dn xs else xs) d'"
proof (rule does_sizes)
  let ?cf = "(rw, dw, xl, run, base, nh, h)"
  assume b: "length (dm_data d) \<le> 12" "length (dm_prog d) \<le> 16"
  define d1 where "d1 = d\<lparr>dm_prog := take pn prog @ drop pn (dm_prog d)\<rparr>"
  define d2 where "d2 = (if writes cmd \<and> transfers cmd then d1\<lparr>dm_data := take dn xs @ drop dn (dm_data d1)\<rparr> else d1)"
  have 1: "does ?cf (forM (\<lambda>i. bindM (liftE (get_word prog i)) (\<lambda>w.
      bindM (dmi_write dmi (DMI_PROGBUF0 + of_nat i) w) (\<lambda>_. return ()))) [0..<pn]) d () d1"
    unfolding d1_def using assms(3,4) by (rule does_put_prog)
  have 2: "does ?cf (if writes cmd \<and> transfers cmd then
         forM (\<lambda>i. bindM (liftE (get_word xs i)) (\<lambda>w.
           bindM (dmi_write dmi (DMI_DATA0 + of_nat i) w) (\<lambda>_. return ()))) [0..<dn]
       else return ()) d1 () d2"
    using assms(5,6,7) does_put_data [of dn xs d1 ?cf] by (auto simp: d1_def d2_def does_return)
  have 3: "access (wr DMI_COMMAND cmd) d2 = Some d'"
    using ac assms(8) by (cases "writes cmd \<and> transfers cmd") (auto simp: access_command loaded_def d1_def d2_def)
  have 4: "does ?cf (if \<not> writes cmd \<and> transfers cmd then read_data dmi [0..<dn] xs else return xs) d'
      (if \<not> writes cmd \<and> transfers cmd then take dn (dm_data d') @ drop dn xs else xs) d'"
    using assms(5) d' does_read_data [of 0 dn d' xs ?cf] by (simp add: does_return)
  have 5: "does ?cf (bindM (dmi_write dmi DMI_COMMAND cmd) (\<lambda>_.
      bindM (do_while (dmi_read dmi DMI_ABSTRACTCS) (\<lambda>v. v AND DMI_ABSTRACTCS_BUSY \<noteq> 0)) (\<lambda>abstractcs.
      bindM (if \<not> writes cmd \<and> transfers cmd then read_data dmi [0..<dn] xs else return xs) (\<lambda>data.
      return (get_field abstractcs DMI_ABSTRACTCS_CMDERR, data))))) d2
      (dm_err d', if \<not> writes cmd \<and> transfers cmd then take dn (dm_data d') @ drop dn xs else xs) d'"
  proof (rule does_work_sized [OF 3 busy_polls])
    fix v assume v: "get_field v DMI_ABSTRACTCS_CMDERR = dm_err d'"
    show "does ?cf (bindM (if \<not> writes cmd \<and> transfers cmd then read_data dmi [0..<dn] xs else return xs) (\<lambda>data.
      return (get_field v DMI_ABSTRACTCS_CMDERR, data))) d'
      (dm_err d', if \<not> writes cmd \<and> transfers cmd then take dn (dm_data d') @ drop dn xs else xs) d'"
      unfolding v by (rule does_bind [OF 4 does_return])
  qed
  show "does ?cf (run_abstract_command dmi cmd prog pn xs dn) d
    (dm_err d', if \<not> writes cmd \<and> transfers cmd then take dn (dm_data d') @ drop dn xs else xs) d'"
    unfolding run_abstract_command_def
    using 1 2 5 unfolding transfers_def writes_def not_not
    by - (rule does_bind [OF does_get [where x = rw]], simp add: config_def, rule does_bind [OF does_assert],
        rule assms(1), rule does_bind [OF does_get [where x = dw]], simp add: config_def, rule does_bind [OF does_assert],
        rule assms(2), rule does_bind, assumption, rule does_bind, assumption, assumption)
qed


lemma does_transfer:
  assumes ac: "ac_reg cmd w e r" and d: "held 0 h hs x m d" and pn: "pn \<le> rw" "pn \<le> length prog" "pn \<le> length (dm_prog d)"
    and xs: "2 \<le> dw" "2 \<le> length xs" and r: "r \<noteq> 0"
    and x': "x1 = (if w then x(r := join (xs ! 0) (xs ! 1)) else x)"
    and run: "if e then exec_prog (take pn prog @ drop pn (dm_prog d)) 0 (x1, m) = Some (True, x2, m2)
      else x2 = x1 \<and> m2 = m"
  obtains d' where "does (rw, dw, 64, rn, base, nh, hh) (run_ac_or_die dmi cmd prog pn xs 2) d
      (if w then xs else [ucast (x r), ucast (drop_bit 32 (x r))] @ drop 2 xs) d'" "held 0 h hs x2 m2 d'"
    "dm_prog d' = take pn prog @ drop pn (dm_prog d)" "dm_last d' = cmd"
proof -
  let ?cf = "(rw, dw, 64, rn, base, nh, hh)" and ?d1 = "loaded cmd prog pn xs 2 d"
  obtain a b as where dd: "dm_data d = a # b # as"
    using d by (auto simp: held_def Suc_le_length_iff numeral_2_eq_2)
  obtain lo hi rest where xs2: "xs = lo # hi # rest" using xs(2) by (auto simp: Suc_le_length_iff numeral_2_eq_2)
  have cmd: "transfers cmd" "writes cmd \<longleftrightarrow> w" using ac by (simp_all add: ac_reg_def)
  have d1: "held 0 h hs x m ?d1" "dm_last ?d1 = cmd" "dm_data ?d1 = (if w then lo # hi # as else a # b # as)"
    "dm_prog ?d1 = take pn prog @ drop pn (dm_prog d)"
    using d pn cmd dd xs2 by (auto simp: loaded_def held_def)
  obtain d' where d': "abstract_cmd ?d1 = Some d'" "held 0 h hs x2 m2 d'" "dm_prog d' = dm_prog ?d1" "dm_last d' = cmd"
    "length (dm_data d') = length (dm_data ?d1)"
    "dm_data d' = (if w then dm_data ?d1 else ucast (x r) # ucast (drop_bit 32 (x r)) # as)"
  proof (rule abstract_transfer [OF ac d1(1,2) _ r refl])
    show "dm_data ?d1 = (if w then lo else a) # (if w then hi else b) # as" using d1(3) by simp
    show "if e then exec_prog (dm_prog ?d1) 0 (if w then x(r := join (if w then lo else a) (if w then hi else b)) else x, m)
        = Some (True, x2, m2) else x2 = (if w then x(r := join (if w then lo else a) (if w then hi else b)) else x) \<and> m2 = m"
      using run x' xs2 d1(4) by (auto split: if_splits)
  qed
  have "dm_err d' = 0" using d'(2) by (simp add: held_def)
  moreover have "(if \<not> writes cmd \<and> transfers cmd then take 2 (dm_data d') @ drop 2 xs else xs)
      = (if w then xs else [ucast (x r), ucast (drop_bit 32 (x r))] @ drop 2 xs)"
    using cmd d'(6) by (simp add: numeral_2_eq_2)
  moreover have "does ?cf (run_abstract_command dmi cmd prog pn xs 2) d
      (dm_err d', if \<not> writes cmd \<and> transfers cmd then take 2 (dm_data d') @ drop 2 xs else xs) d'"
    using pn xs d d' d1(3) by (intro does_abstract) (auto simp: held_def)
  ultimately have "does ?cf (run_abstract_command dmi cmd prog pn xs 2) d
      (0, if w then xs else [ucast (x r), ucast (drop_bit 32 (x r))] @ drop 2 xs) d'" by (simp only: if_cancel)
  then have "does ?cf (run_ac_or_die dmi cmd prog pn xs 2) d
      (if w then xs else [ucast (x r), ucast (drop_bit 32 (x r))] @ drop 2 xs) d'"
    unfolding run_ac_or_die_def by (rule does_bind) (simp add: return_bind does_return)
  then show thesis using that [of d'] d' d1(4) by simp
qed

end

end
