(* ===== verification/Dtm_chunks.thy ===== *)
theory Dtm_chunks
  imports Dtm_runs
begin

text \<open>
  The chunk transfers of \<^verbatim>\<open>dtm.cc\<close> against the debug module: on a 64-bit hart they obey the laws
  of the memory interface, and they leave the registers of every hart as they were.
\<close>

section \<open>Registers saved and restored\<close>

lemma sizes_64: "(64 :: nat) div (8 * 4) = 2" "(64 :: nat) div (4 * 8) = 2" "(64 :: nat) div 8 = 8" "(32 :: nat) < 64"
  by simp_all

lemma get_words: "get_word (a # xs) 0 = Inr a" "get_word (a # b # xs) 1 = Inr b"
  by (simp_all add: get_word_def)

lemma replicate_two: "2 \<le> n \<Longrightarrow> replicate n x = x # x # replicate (n - 2) x"
  by (cases n; cases "n - 1") (auto simp: numeral_2_eq_2)

lemma put_words_two: "put_words [(0, a), (1, b)] (u # v # xs) = Inr (a # b # xs)"
  by (simp add: put_words_def put_word_def)

lemma put_value:
  assumes "2 \<le> length xs"
  shows "put_words (value_words 64 v) xs = Inr (ucast v # ucast (drop_bit 32 v) # drop 2 xs)"
proof -
  obtain a b as where "xs = a # b # as" using assms by (auto simp: Suc_le_length_iff numeral_2_eq_2)
  then show ?thesis by (simp add: value_words_def put_words_def put_word_def numeral_2_eq_2)
qed

lemma put_program:
  "3 \<le> n \<Longrightarrow> \<exists>p. put_words [(0, a), (1, b), (2, c)] (replicate n 0) = Inr p \<and> length p = n \<and> take 3 p = [a, b, c]"
  "4 \<le> n \<Longrightarrow> \<exists>p. put_words [(0, a), (1, b), (2, c), (3, d)] (replicate n 0) = Inr p \<and> length p = n \<and> take 4 p = [a, b, c, d]"
  by (auto simp: put_words_def put_word_def intro!: nth_equalityI simp: less_Suc_eq numeral_3_eq_3 numeral_eq_Suc nth_list_update)

context debug_module
begin

lemma does_save:
  assumes ac: "ac_reg (AC_ACCESS_REGISTER_TRANSFER OR AC_AR_SIZE 64 OR AC_AR_REGNO reg) False False r"
    and "held 0 h hs x m d" "2 \<le> dw" "r \<noteq> 0"
  obtains d' where "does (rw, dw, 64, rn, base, nh, hh) (save_reg dmi reg) d (x r) d'" "held 0 h hs x m d'"
    "dm_prog d' = dm_prog d"
proof -
  let ?cf = "(rw, dw, 64, rn, base, nh, hh)" and ?xs = "[ucast (x r), ucast (drop_bit 32 (x r))] :: u32 list"
  obtain d' where d': "does ?cf (run_ac_or_die dmi (AC_ACCESS_REGISTER_TRANSFER OR AC_AR_SIZE 64 OR AC_AR_REGNO reg)
      [] 0 (replicate 2 0) 2) d (if False then replicate 2 0 else ?xs @ drop 2 (replicate 2 0)) d'" "held 0 h hs x m d'"
      "dm_prog d' = take 0 [] @ drop 0 (dm_prog d)"
    by (rule does_transfer [OF ac assms(2), of 0 rw "[]" dw "replicate 2 0" x x m rn base nh hh]) (use assms in auto)
  have "does ?cf (save_reg dmi reg) d (x r) d'"
    unfolding save_reg_def
    by (rule does_bind [OF does_get [where x = 64]], simp add: config_def,
        simp only: Let_def sizes_64 if_True, rule does_bind [OF d'(1)],
        simp only: if_False append.simps get_words, rule does_bind [OF does_lift], rule does_bind [OF does_lift],
        simp only: join_def [symmetric] join_halves, rule does_return)
  then show thesis using that d' by simp
qed

lemma does_restore:
  assumes ac: "ac_reg (AC_ACCESS_REGISTER_TRANSFER OR AC_ACCESS_REGISTER_WRITE OR AC_AR_SIZE 64 OR AC_AR_REGNO reg) True False r"
    and "held 0 h hs x m d" "2 \<le> dw" "r \<noteq> 0"
  obtains d' where "does (rw, dw, 64, rn, base, nh, hh) (restore_reg dmi reg v) d () d'" "held 0 h hs (x(r := v)) m d'"
proof -
  let ?cf = "(rw, dw, 64, rn, base, nh, hh)" and ?xs = "[ucast v, ucast (drop_bit 32 v)] :: u32 list"
  obtain d' where d': "does ?cf (run_ac_or_die dmi (AC_ACCESS_REGISTER_TRANSFER OR AC_ACCESS_REGISTER_WRITE OR AC_AR_SIZE 64 OR AC_AR_REGNO reg)
      [] 0 ?xs 2) d (if True then ?xs else [ucast (x r), ucast (drop_bit 32 (x r))] @ drop 2 ?xs) d'" "held 0 h hs (x(r := v)) m d'"
    by (rule does_transfer [OF ac assms(2), of 0 rw "[]" dw ?xs _ "x(r := v)" m rn base nh hh])
      (use assms in \<open>auto simp: join_halves\<close>)
  have p: "put_words (value_words 64 v) (replicate 2 0) = Inr ?xs" by (simp add: put_value)
  have "does ?cf (restore_reg dmi reg v) d () d'"
    unfolding restore_reg_def
    by (rule does_bind [OF does_get [where x = 64]], simp add: config_def,
        simp only: Let_def sizes_64 p, rule does_bind [OF does_lift], rule does_bind [OF d'(1)], rule does_return)
  then show thesis using that d' by simp
qed

end

section \<open>Reading\<close>

lemma nth_le_bytes: "i < LENGTH('a) div 8 \<Longrightarrow> le_bytes (w :: 'a::len word) ! i = ucast (drop_bit (8 * i) w)"
  by (simp add: le_bytes_def)

lemma le_bytes_halves: "le_bytes (ucast v :: u32) @ le_bytes (ucast (drop_bit 32 v) :: u32) = le_bytes (v :: u64)"
proof (rule nth_equalityI)
  fix i assume "i < length (le_bytes (ucast v :: u32) @ le_bytes (ucast (drop_bit 32 v) :: u32))"
  then have i: "i < 8" by simp
  show "(le_bytes (ucast v :: u32) @ le_bytes (ucast (drop_bit 32 v) :: u32)) ! i = le_bytes v ! i"
  proof (rule bit_word_eqI)
    fix n assume "n < LENGTH(8)"
    then have n: "n < 8" by simp
    show "bit ((le_bytes (ucast v :: u32) @ le_bytes (ucast (drop_bit 32 v) :: u32)) ! i) n = bit (le_bytes v ! i) n"
    proof (cases "i < 4")
      case True
      then have "n + 8 * i < 32" using n by linarith
      then show ?thesis using True n by (simp add: nth_append nth_le_bytes bit_simps)
    next
      case False
      then obtain j where j: "i = 4 + j" by (metis le_Suc_ex not_less)
      then have "n + 8 * j < 32" "n + 8 * i < 64" using i n by linarith+
      then show ?thesis using i j n by (simp add: nth_append nth_le_bytes bit_simps algebra_simps)
    qed
  qed
qed simp

lemma words_to_bytes_halves:
  "words_to_bytes ([ucast v, ucast (drop_bit 32 v)] @ xs) 8 = Inr (le_bytes (v :: u64))"
  using arg_cong [OF le_bytes_halves [of v], of "\<lambda>bs. take 8 (bs @ concat (map le_bytes xs))"]
  by (simp add: words_to_bytes_def)

definition keeps :: "gprs \<Rightarrow> gprs \<Rightarrow> bool" where
  "keeps x x' \<longleftrightarrow> (\<forall>r. r \<noteq> 8 \<longrightarrow> r \<noteq> 9 \<longrightarrow> x' r = x r)"

lemma keeps_restore: "keeps x x' \<Longrightarrow> x'(8 := x 8, 9 := x 9) = x"
  by (auto simp: keeps_def)

context debug_module
begin

lemma does_read_words:
  assumes "held 0 h hs x m d" "2 \<le> dw" "2 \<le> length xs" "starts_with (dm_prog d) [LOAD 64 S1 S0 0, ADDI S0 S0 8, EBREAK]"
    and "x 9 = le_word (load m a 8)" "x 8 = a + 8" "k \<le> n"
  shows "\<exists>d' x'. does (rw, dw, 64, rn, base, nh, hh) (read_words dmi n xs [k..<n]) d (load m a (8 * (n - k))) d'
    \<and> held 0 h hs x' m d' \<and> keeps x x'"
  using assms
proof (induction "n - k" arbitrary: k x d xs a)
  case 0
  then have "[k..<n] = []" "n - k = 0" by simp_all
  then have "does (rw, dw, 64, rn, base, nh, hh) (read_words dmi n xs [k..<n]) d (load m a (8 * (n - k))) d"
    by (simp add: does_return)
  moreover have "keeps x x" by (simp add: keeps_def)
  ultimately show ?case using "0.prems"(1) by blast
next
  case (Suc j)
  let ?cf = "(rw, dw, 64, rn, base, nh, hh)" and ?cmd = "AC_ACCESS_REGISTER_TRANSFER OR AC_AR_SIZE 64 OR AC_AR_REGNO S1"
  define cmd where "cmd = (if k + 1 < n then ?cmd OR AC_ACCESS_REGISTER_POSTEXEC else ?cmd)"
  define x2 where "x2 = (if k + 1 < n then x(9 := le_word (load m (a + 8) 8), 8 := a + 8 + 8) else x)"
  have k: "[k..<n] = k # [Suc k..<n]" "k < n" "n - k = Suc (n - Suc k)" using Suc.hyps(2) by (simp_all add: upt_conv_Cons)
  have ac: "ac_reg cmd False (k + 1 < n) 9" using commands(2,3) by (simp add: cmd_def)
  obtain d1 where d1: "does ?cf (run_ac_or_die dmi cmd [] 0 xs 2) d
      (if False then xs else [ucast (x 9), ucast (drop_bit 32 (x 9))] @ drop 2 xs) d1" "held 0 h hs x2 m d1"
      "dm_prog d1 = take 0 [] @ drop 0 (dm_prog d)"
    by (rule does_transfer [OF ac Suc.prems(1), of 0 rw "[]" dw xs x x2 m rn base nh hh])
      (use Suc.prems exec_prog_read [OF Suc.prems(4)] in \<open>auto simp: x2_def\<close>)
  have bytes: "le_bytes (x 9) = load m a 8" unfolding Suc.prems(5) by (rule le_bytes_le_word) simp
  have "\<exists>d' x'. does ?cf (read_words dmi n ([ucast (x 9), ucast (drop_bit 32 (x 9))] @ drop 2 xs) [Suc k..<n]) d1
      (load m (a + 8) (8 * (n - Suc k))) d' \<and> held 0 h hs x' m d' \<and> keeps x x'"
  proof (cases "k + 1 < n")
    case True
    have "\<exists>d' x'. does ?cf (read_words dmi n ([ucast (x 9), ucast (drop_bit 32 (x 9))] @ drop 2 xs) [Suc k..<n]) d1
      (load m (a + 8) (8 * (n - Suc k))) d' \<and> held 0 h hs x' m d' \<and> keeps x2 x'"
      using Suc.hyps(2) Suc.prems d1(2,3) True k by (intro Suc.hyps(1)) (auto simp: x2_def)
    then show ?thesis by (auto simp: x2_def keeps_def split: if_splits)
  next
    case False
    then have "[Suc k..<n] = []" "n - Suc k = 0" by simp_all
    then have "does ?cf (read_words dmi n ([ucast (x 9), ucast (drop_bit 32 (x 9))] @ drop 2 xs) [Suc k..<n]) d1
      (load m (a + 8) (8 * (n - Suc k))) d1" by (simp add: does_return)
    moreover have "keeps x x2" using False by (simp add: x2_def keeps_def)
    ultimately show ?thesis using d1(2) by blast
  qed
  then obtain d' x' where d': "does ?cf (read_words dmi n ([ucast (x 9), ucast (drop_bit 32 (x 9))] @ drop 2 xs) [Suc k..<n]) d1
      (load m (a + 8) (8 * (n - Suc k))) d'" "held 0 h hs x' m d'" "keeps x x'" by blast
  have l: "load m a (8 * (n - k)) = load m a 8 @ load m (a + 8) (8 * (n - Suc k))"
    using load_add [of m a 8 "8 * (n - Suc k)"] k(3) by simp
  have "does ?cf (read_words dmi n xs [k..<n]) d (load m a (8 * (n - k))) d'"
    unfolding k(1) read_words.simps l bytes [symmetric]
    by (rule does_bind [OF does_get [where x = 64]], simp add: config_def,
        simp only: Let_def sizes_64 cmd_def [symmetric], rule does_bind [OF d1(1)],
        simp only: if_False words_to_bytes_halves, rule does_bind [OF does_lift], rule does_bind [OF d'(1)], rule does_return)
  with d' show ?case by blast
qed

end

section \<open>Writing\<close>

lemma bytes_to_words_two:
  assumes "i + 8 \<le> length src" "2 \<le> length xs"
  shows "bytes_to_words src i 8 xs =
    Inr (le_word (take 4 (drop i src)) # le_word (take 4 (drop (i + 4) src)) # drop 2 xs)"
proof -
  obtain a b as where "xs = a # b # as" using assms(2) by (auto simp: Suc_le_length_iff numeral_2_eq_2)
  moreover have "[0..<8 div 4] = [0, 1 :: nat]" by (simp add: upt_rec)
  ultimately show ?thesis using assms(1)
    by (simp add: bytes_to_words_def put_words_def put_word_def numeral_2_eq_2)
qed

lemma join_parts: "ucast (join lo hi) = (lo :: u32)" "ucast (drop_bit 32 (join lo hi)) = (hi :: u32)"
proof -
  have "\<not> bit (lo :: u32) (32 + n)" for n by (auto dest: bit_imp_le_length)
  then show "ucast (join lo hi) = (lo :: u32)" "ucast (drop_bit 32 (join lo hi)) = (hi :: u32)"
    by (auto simp: join_def bit_simps intro!: bit_word_eqI)
qed

lemma bytes_of_two:
  assumes "i + 8 \<le> length src"
  shows "le_bytes (join (le_word (take 4 (drop i src))) (le_word (take 4 (drop (i + 4) src)))) = take 8 (drop i src)"
proof -
  let ?lo = "le_word (take 4 (drop i src)) :: u32" and ?hi = "le_word (take 4 (drop (i + 4) src)) :: u32"
  have "le_bytes (join ?lo ?hi) = le_bytes ?lo @ le_bytes ?hi"
    using le_bytes_halves [of "join ?lo ?hi"] by (simp add: join_parts)
  also have "\<dots> = take 4 (drop i src) @ take 4 (drop (i + 4) src)"
    using assms by (simp add: le_bytes_le_word)
  also have "\<dots> = take 8 (drop i src)"
    using take_add [of 4 4 "drop i src"] by (simp add: add.commute)
  finally show ?thesis .
qed

context debug_module
begin

lemma does_it_sizes:
  "(length (dm_data d) \<le> 12 \<Longrightarrow> length (dm_prog d) \<le> 16 \<Longrightarrow> does_it cf f d d') \<Longrightarrow> does_it cf f d d'"
  using sizes_of unfolding does_it_def by blast

lemma does_auto: "does_it cf (dmi_write dmi DMI_ABSTRACTAUTO w) d (d\<lparr>dm_auto := w\<rparr>)"
proof (rule does_it_sizes, rule write_does_it)
  assume "length (dm_data d) \<le> 12"
  then have "\<not> in_data d DMI_ABSTRACTAUTO" by (simp add: in_data_iff dmi_addrs)
  then show "\<not> begins (wr DMI_ABSTRACTAUTO w) d" by (simp add: begins_def wr_def) (simp add: dmi_addrs)
qed (simp add: access_def wr_def, simp add: dmi_addrs)

lemma does_write_words:
  assumes "held (if k = 1 then 0 else 1) h hs x m d" "dm_last d = cmd" "ac_reg cmd True True 9" "2 \<le> length xs"
    and "starts_with (dm_prog d) [STORE 64 S1 S0 0, ADDI S0 S0 8, EBREAK]"
    and "x 8 = a" "1 \<le> k" "k \<le> n" "length src = 8 * n" "8 * n \<le> 2 ^ 64"
  shows "\<exists>d' x'. does (rw, dw, 64, rn, base, nh, hh) (write_words dmi src xs [k..<n]) d () d'
    \<and> held (if n = 1 then 0 else 1) h hs x' (store m a (drop (8 * k) src)) d' \<and> keeps x x'"
  using assms
proof (induction "n - k" arbitrary: k x d xs a m)
  case 0
  then have "[k..<n] = []" "drop (8 * k) src = []" "k = n" by simp_all
  then have "does (rw, dw, 64, rn, base, nh, hh) (write_words dmi src xs [k..<n]) d () d"
    "held (if n = 1 then 0 else 1) h hs x (store m a (drop (8 * k) src)) d" "keeps x x"
    using "0.prems"(1) by (simp_all add: does_return keeps_def)
  then show ?case by blast
next
  case (Suc j)
  let ?cf = "(rw, dw, 64, rn, base, nh, hh)"
  have k: "[k..<n] = k # [Suc k..<n]" "k < n" using Suc.hyps(2) by (simp_all add: upt_conv_Cons)
  have len: "k * 8 + 8 \<le> length src" using k(2) Suc.prems(9) by simp
  define lo hi where "lo = (le_word (take 4 (drop (k * 8) src)) :: u32)"
    and "hi = (le_word (take 4 (drop (k * 8 + 4) src)) :: u32)"
  have words: "bytes_to_words src (k * 8) 8 xs = Inr (lo # hi # drop 2 xs)"
    unfolding lo_def hi_def using len Suc.prems(4) by (rule bytes_to_words_two)
  have bytes: "le_bytes (join lo hi) = take 8 (drop (8 * k) src)"
    unfolding lo_def hi_def using bytes_of_two [OF len] by (simp add: mult.commute)
  define d1 where "d1 = d\<lparr>dm_auto := 1\<rparr>"
  have d1: "held 1 h hs x m d1" "dm_last d1 = cmd" "dm_prog d1 = dm_prog d"
    using Suc.prems(1,2) by (simp_all add: d1_def held_def)
  obtain u v as where data: "dm_data d1 = u # v # as"
    using d1 by (auto simp: held_def Suc_le_length_iff numeral_2_eq_2)
  define d2 where "d2 = d1\<lparr>dm_data := u # hi # as\<rparr>"
  define d3 where "d3 = d1\<lparr>dm_data := lo # hi # as\<rparr>"
  let ?m2 = "store m a (take 8 (drop (8 * k) src))" and ?x2 = "x(9 := join lo hi, 8 := a + 8)"
  have d3: "held 1 h hs x m d3" "dm_last d3 = cmd" "dm_data d3 = lo # hi # as" "dm_prog d3 = dm_prog d"
    using d1 data by (simp_all add: d3_def held_def)
  obtain d4 where d4: "abstract_cmd d3 = Some d4" "held 1 h hs ?x2 ?m2 d4" "dm_prog d4 = dm_prog d3" "dm_last d4 = cmd"
    by (rule abstract_transfer [OF Suc.prems(3) d3(1,2,3) _ refl, of ?x2 ?m2])
      (use exec_prog_write [OF Suc.prems(5)] d3(4) Suc.prems(6) bytes in simp_all)
  have auto: "does ?cf (if k = 1 then bindM (dmi_write dmi DMI_ABSTRACTAUTO (push_bit DMI_ABSTRACTAUTO_AUTOEXECDATA_OFFSET 1))
      (\<lambda>_. return ()) else return ()) d () d1"
  proof (cases "k = 1")
    case True
    have "does ?cf (bindM (dmi_write dmi DMI_ABSTRACTAUTO 1) (\<lambda>_. return ())) d () d1"
      unfolding d1_def by (rule does_it_bind [OF does_auto does_return])
    then show ?thesis using True by (simp add: DMI_ABSTRACTAUTO_AUTOEXECDATA_OFFSET_def)
  next
    case False
    then have "d1 = d" using Suc.prems(1) by (simp add: d1_def held_def)
    then show ?thesis using False by (simp add: does_return)
  qed
  have rest: "\<exists>d' x'. does ?cf (write_words dmi src (lo # hi # drop 2 xs) [Suc k..<n]) d4 () d'
      \<and> held (if n = 1 then 0 else 1) h hs x' (store ?m2 (a + 8) (drop (8 * Suc k) src)) d' \<and> keeps ?x2 x'"
    using Suc.hyps(2) Suc.prems d4 d3(4) k(2) by (intro Suc.hyps(1)) auto
  have mem: "store ?m2 (a + 8) (drop (8 * Suc k) src) = store m a (drop (8 * k) src)"
  proof -
    have "length (take 8 (drop (8 * k) src)) = 8" using len by simp
    moreover have "length (take 8 (drop (8 * k) src)) + length (drop (8 * Suc k) src) \<le> 2 ^ 64"
      using len Suc.prems(9,10) by simp
    moreover have "take 8 (drop (8 * k) src) @ drop (8 * Suc k) src = drop (8 * k) src"
      using append_take_drop_id [of 8 "drop (8 * k) src"] by (simp add: add.commute)
    ultimately show ?thesis
      using store_append [of "take 8 (drop (8 * k) src)" "drop (8 * Suc k) src" m a] by simp
  qed
  obtain d' x' where d': "does ?cf (write_words dmi src (lo # hi # drop 2 xs) [Suc k..<n]) d4 () d'"
    "held (if n = 1 then 0 else 1) h hs x' (store m a (drop (8 * k) src)) d'" "keeps ?x2 x'"
    using rest unfolding mem by blast
  have k': "keeps x x'" using d'(3) by (simp add: keeps_def)
  have go: "does ?cf (bindM (dmi_write dmi DMI_DATA0 lo) (\<lambda>_.
     bindM (do_while (dmi_read dmi DMI_ABSTRACTCS) (\<lambda>abstractcs. abstractcs AND DMI_ABSTRACTCS_BUSY \<noteq> 0)) (\<lambda>abstractcs.
     bindM (if get_field abstractcs DMI_ABSTRACTCS_CMDERR \<noteq> 0
         then die dmi (get_field abstractcs DMI_ABSTRACTCS_CMDERR) else return ()) (\<lambda>_.
     write_words dmi src (lo # hi # drop 2 xs) [Suc k..<n])))) d2 () d'"
  proof (rule does_sizes)
    assume b: "length (dm_data d2) \<le> 12"
    have "access (wr (DMI_DATA0 + of_nat 0) lo) d2 = Some d4"
      using access_data(1) [of 0 d2 lo] b d4(1) d1(1) by (simp add: d2_def d3_def held_def)
    then have a: "access (wr DMI_DATA0 lo) d2 = Some d4" by simp
    have err: "dm_err d4 = 0" using d4(2) by (simp add: held_def)
    show "does ?cf (bindM (dmi_write dmi DMI_DATA0 lo) (\<lambda>_.
     bindM (do_while (dmi_read dmi DMI_ABSTRACTCS) (\<lambda>abstractcs. abstractcs AND DMI_ABSTRACTCS_BUSY \<noteq> 0)) (\<lambda>abstractcs.
     bindM (if get_field abstractcs DMI_ABSTRACTCS_CMDERR \<noteq> 0
         then die dmi (get_field abstractcs DMI_ABSTRACTCS_CMDERR) else return ()) (\<lambda>_.
     write_words dmi src (lo # hi # drop 2 xs) [Suc k..<n])))) d2 () d'"
      by (rule does_work_sized [OF a busy_polls]) (simp_all add: err return_bind d'(1))
  qed
  have hi: "does_it ?cf (dmi_write dmi (DMI_DATA0 + 1) hi) d1 d2"
  proof (rule does_it_sizes)
    assume b: "length (dm_data d1) \<le> 12"
    have n: "\<not> bit (1 :: u32) (Suc 0)" by code_simp
    have a: "dm_auto d1 = 1" using d1(1) by (simp add: held_def)
    have "does_it ?cf (dmi_write dmi (DMI_DATA0 + of_nat 1) hi) d1 d2"
      using access_data(1,2) [of 1 d1 hi] b data n a by (intro write_does_it) (simp_all add: d2_def)
    then show "does_it ?cf (dmi_write dmi (DMI_DATA0 + 1) hi) d1 d2" by simp
  qed
  have "does ?cf (write_words dmi src xs [k..<n]) d () d'"
    unfolding k(1) write_words.simps
    by (rule does_bind [OF does_get [where x = 64]], simp add: config_def,
        rule does_bind [OF auto], simp only: sizes_64 words, rule does_bind [OF does_lift],
        rule does_bind [of _ _ _ "()"], simp only: refl if_True get_words, rule does_bind [OF does_lift],
        rule does_it_bind [OF hi], rule does_return, simp only: get_words, rule does_bind [OF does_lift], rule go)
  with d' k' show ?case by blast
qed

end

section \<open>The transfers\<close>

text \<open>
  After a transfer memory is \<open>m\<close>, hart \<open>h\<close> runs again, and nothing else about any hart has changed:
  the registers that the transfer used are as they were.
\<close>

definition after :: "bool \<Rightarrow> u32 \<Rightarrow> dm \<Rightarrow> memory \<Rightarrow> dm \<Rightarrow> bool" where
  "after run h d m d' \<longleftrightarrow> rests run d' \<and> dm_mem d' = m
     \<and> dm_harts d' = (dm_harts d)(h := (dm_harts d h)\<lparr>hart_halted := False\<rparr>)"

lemma held_halted:
  "rests run d \<Longrightarrow> held 0 h (dm_harts d) (hart_regs (dm_harts d h)) (dm_mem d) (halted_dm h d)"
  by (cases "dm_harts d h") (simp add: held_def rests_def halted_dm_def)

lemma resumed_after:
  assumes "held 0 h (dm_harts d) (hart_regs (dm_harts d h)) m d'"
  shows "after run h d m (resumed_dm run d')"
  using assms by (auto simp: after_def held_def rests_def resumed_dm_def set_hart_def sel_hart_def write_control_def Let_def)

lemma take_starts: "take 3 p = [a, b, c] \<Longrightarrow> starts_with (take 3 p @ ys) [a, b, c]"
  by (simp add: starts_with_def)

context debug_module
begin

lemma does_read_chunk:
  assumes d: "rests run d" "hh < 1024" "2 \<le> dw" "4 \<le> rw"
  shows "\<exists>d'. does (rw, dw, 64, run, base, nh, hh) (dtm_read_chunk dmi a (8 * q)) d (load (dm_mem d) a (8 * q)) d'
    \<and> after run (of_nat hh) d (dm_mem d) d'"
proof -
  let ?cf = "(rw, dw, 64, run, base, nh, hh)" and ?h = "of_nat hh :: u32" and ?m = "dm_mem d"
  define x where "x = hart_regs (dm_harts d ?h)"
  note pos = d(3) and h8 = commands(1) and h9 = commands(2)
  note held0 = held_halted [OF d(1), of ?h, folded x_def]
  obtain d1 where d1: "does ?cf (save_reg dmi S0) (halted_dm ?h d) (x 8) d1" "held 0 ?h (dm_harts d) x ?m d1"
    by (rule does_save [OF commands(1) held0 d(3)]) auto
  obtain d2 where d2: "does ?cf (save_reg dmi S1) d1 (x 9) d2" "held 0 ?h (dm_harts d) x ?m d2"
    by (rule does_save [OF commands(2) d1(2) d(3)]) auto
  obtain p where p: "put_words [(0, LOAD 64 S1 S0 0), (1, ADDI S0 S0 (of_nat 8)), (2, EBREAK)] (replicate rw 0) = Inr p"
    "length p = rw" "take 3 p = [LOAD 64 S1 S0 0, ADDI S0 S0 (of_nat 8), EBREAK]"
    using put_program(1) [of rw] d(4) by fastforce
  have sw: "starts_with (take 3 p @ ys) [LOAD 64 S1 S0 0, ADDI S0 S0 8, EBREAK]" for ys
    using take_starts [OF p(3)] by simp
  define xs :: "u32 list" where "xs = ucast a # ucast (drop_bit 32 a) # drop 2 (replicate dw 0)"
  have xs: "put_words (value_words 64 a) (replicate dw 0) = Inr xs" unfolding xs_def using d(3) by (simp add: put_value)
  define x3 where "x3 = x(8 := a, 9 := le_word (load ?m a 8), 8 := a + 8)"
  obtain d3 where d3: "does ?cf (run_ac_or_die dmi (AC_ACCESS_REGISTER_TRANSFER OR AC_ACCESS_REGISTER_WRITE OR
      AC_ACCESS_REGISTER_POSTEXEC OR AC_AR_SIZE 64 OR AC_AR_REGNO S0) p 3 xs 2) d2
      (if True then xs else [ucast (x 8), ucast (drop_bit 32 (x 8))] @ drop 2 xs) d3"
    "held 0 ?h (dm_harts d) x3 ?m d3" "dm_prog d3 = take 3 p @ drop 3 (dm_prog d2)"
    by (rule does_transfer [OF commands(6) d2(2), of 3 rw p dw xs "x(8 := a)" x3 ?m run base nh hh])
      (use d d2(2) p(2) exec_prog_read [OF sw, of "drop 3 (dm_prog d2)" "x(8 := a)" ?m]
        in \<open>auto simp: xs_def join_halves held_def x3_def\<close>)
  obtain d4 x4 where d4: "does ?cf (read_words dmi q xs [0..<q]) d3 (load ?m a (8 * (q - 0))) d4"
    "held 0 ?h (dm_harts d) x4 ?m d4" "keeps x3 x4"
    using does_read_words [OF d3(2) d(3), of xs a 0 q rw run base nh hh] sw d3(3) by (auto simp: xs_def x3_def)
  obtain d5 where d5: "does ?cf (restore_reg dmi S0 (x 8)) d4 () d5" "held 0 ?h (dm_harts d) (x4(8 := x 8)) ?m d5"
    by (rule does_restore [OF commands(4) d4(2) d(3)]) auto
  obtain d6 where d6: "does ?cf (restore_reg dmi S1 (x 9)) d5 () d6" "held 0 ?h (dm_harts d) (x4(8 := x 8, 9 := x 9)) ?m d6"
    by (rule does_restore [OF commands(5) d5(2) d(3)]) auto
  have "x4(8 := x 8, 9 := x 9) = x" using d4(3) by (auto simp: keeps_def x3_def)
  then have held6: "held 0 ?h (dm_harts d) (hart_regs (dm_harts d ?h)) ?m d6" using d6(2) by (simp add: x_def)
  then have res: "does ?cf (resume dmi hh) d6 () (resumed_dm run d6)"
    by (intro does_resume d(2)) (simp_all add: held_def)
  have q: "8 * q * 8 div 64 = q" "load ?m a (8 * (q - 0)) = load ?m a (8 * q)" by simp_all
  have "does ?cf (dtm_read_chunk dmi a (8 * q)) d (load ?m a (8 * q)) (resumed_dm run d6)"
    unfolding dtm_read_chunk_def
    by (rule does_bind [OF does_get [where x = "(64, rw, dw, hh)"]], simp add: config_def,
        simp only: prod.case sizes_64 Let_def, rule does_bind [OF does_halt [OF d(2,1)]],
        rule does_bind [OF d1(1)], rule does_bind [OF d2(1)], simp only: p(1), rule does_bind [OF does_lift],
        simp only: xs, rule does_bind [OF does_lift], rule does_bind [OF d3(1)], simp only: if_True q,
        rule does_bind [OF d4(1) [unfolded q]], rule does_bind [OF d5(1)], rule does_bind [OF d6(1)],
        rule does_bind [OF does_get [where x = hh]], simp add: config_def, rule does_bind [OF res], rule does_return)
  then show ?thesis using resumed_after [OF held6] by blast
qed

lemma does_write_chunk:
  assumes d: "rests run d" "hh < 1024" "2 \<le> dw" "4 \<le> rw" and src: "length src = 8 * q" "1 \<le> q" "8 * q \<le> 2 ^ 64"
  shows "\<exists>d'. does (rw, dw, 64, run, base, nh, hh) (dtm_write_chunk dmi a src) d () d'
    \<and> after run (of_nat hh) d (store (dm_mem d) a src) d'"
proof -
  let ?cf = "(rw, dw, 64, run, base, nh, hh)" and ?h = "of_nat hh :: u32" and ?m = "dm_mem d"
  define x where "x = hart_regs (dm_harts d ?h)"
  note held0 = held_halted [OF d(1), of ?h, folded x_def]
  obtain d1 where d1: "does ?cf (save_reg dmi S0) (halted_dm ?h d) (x 8) d1" "held 0 ?h (dm_harts d) x ?m d1"
    by (rule does_save [OF commands(1) held0 d(3)]) auto
  obtain d2 where d2: "does ?cf (save_reg dmi S1) d1 (x 9) d2" "held 0 ?h (dm_harts d) x ?m d2"
    by (rule does_save [OF commands(2) d1(2) d(3)]) auto
  obtain p where p: "put_words [(0, STORE 64 S1 S0 0), (1, ADDI S0 S0 (of_nat 8)), (2, EBREAK)] (replicate rw 0) = Inr p"
    "length p = rw" "take 3 p = [STORE 64 S1 S0 0, ADDI S0 S0 (of_nat 8), EBREAK]"
    using put_program(1) [of rw] d(4) by fastforce
  have sw: "starts_with (take 3 p @ ys) [STORE 64 S1 S0 0, ADDI S0 S0 8, EBREAK]" for ys
    using take_starts [OF p(3)] by simp
  define xs :: "u32 list" where "xs = ucast a # ucast (drop_bit 32 a) # drop 2 (replicate dw 0)"
  have xs: "put_words (value_words 64 a) (replicate dw 0) = Inr xs" unfolding xs_def using d(3) by (simp add: put_value)
  obtain d3 where d3: "does ?cf (run_ac_or_die dmi (AC_ACCESS_REGISTER_TRANSFER OR AC_ACCESS_REGISTER_WRITE OR
      AC_AR_SIZE 64 OR AC_AR_REGNO S0) p 3 xs 2) d2
      (if True then xs else [ucast (x 8), ucast (drop_bit 32 (x 8))] @ drop 2 xs) d3"
    "held 0 ?h (dm_harts d) (x(8 := a)) ?m d3" "dm_prog d3 = take 3 p @ drop 3 (dm_prog d2)"
    by (rule does_transfer [OF commands(4) d2(2), of 3 rw p dw xs "x(8 := a)" "x(8 := a)" ?m run base nh hh])
      (use d d2(2) p(2) in \<open>auto simp: xs_def join_halves held_def\<close>)
  define lo hi where "lo = (le_word (take 4 (drop 0 src)) :: u32)" and "hi = (le_word (take 4 (drop (0 + 4) src)) :: u32)"
  have l8: "0 + 8 \<le> length src" using src by simp
  define ys where "ys = lo # hi # drop 2 xs"
  have ys: "bytes_to_words src 0 8 xs = Inr ys"
    unfolding lo_def hi_def ys_def by (rule bytes_to_words_two [OF l8]) (simp add: xs_def)
  have bytes: "le_bytes (join lo hi) = take 8 src" unfolding lo_def hi_def using bytes_of_two [OF l8] by simp
  let ?cmd = "AC_ACCESS_REGISTER_TRANSFER OR AC_ACCESS_REGISTER_POSTEXEC OR AC_ACCESS_REGISTER_WRITE OR
      AC_AR_SIZE 64 OR AC_AR_REGNO S1"
  define x4 where "x4 = x(8 := a, 9 := join lo hi, 8 := a + 8)"
  obtain d4 where d4: "does ?cf (run_ac_or_die dmi ?cmd [] 0 ys 2) d3
      (if True then ys else [ucast ((x(8 := a)) 9), ucast (drop_bit 32 ((x(8 := a)) 9))] @ drop 2 ys) d4"
    "held 0 ?h (dm_harts d) x4 (store ?m a (take 8 src)) d4" "dm_prog d4 = take 0 [] @ drop 0 (dm_prog d3)" "dm_last d4 = ?cmd"
    by (rule does_transfer [OF commands(7) d3(2), of 0 rw "[]" dw ys "x(8 := a, 9 := join lo hi)" x4 _ run base nh hh])
      (use d d3(3) exec_prog_write [OF sw, of "drop 3 (dm_prog d2)" "x(8 := a, 9 := join lo hi)" ?m]
        in \<open>auto simp: xs_def ys_def x4_def bytes\<close>)
  have mem: "store (store ?m a (take 8 src)) (a + 8) (drop (8 * 1) src) = store ?m a src"
    using store_append [of "take 8 src" "drop 8 src" ?m a] src l8 by simp
  obtain d5 x5 where d5: "does ?cf (write_words dmi src ys [1..<q]) d4 () d5"
    "held (if q = 1 then 0 else 1) ?h (dm_harts d) x5 (store ?m a src) d5" "keeps x4 x5"
    using does_write_words [of 1 ?h "dm_harts d" x4 "store ?m a (take 8 src)" d4 ?cmd ys "a + 8" q src rw dw run base nh hh]
      d4 d3(3) sw commands(7) src unfolding mem by (auto simp: ys_def x4_def)
  define d6 where "d6 = d5\<lparr>dm_auto := 0\<rparr>"
  have auto: "does ?cf (if 1 < q then bindM (dmi_write dmi DMI_ABSTRACTAUTO 0) (\<lambda>_. return ()) else return ()) d5 () d6"
  proof (cases "1 < q")
    case True
    have "does ?cf (bindM (dmi_write dmi DMI_ABSTRACTAUTO 0) (\<lambda>_. return ())) d5 () d6"
      unfolding d6_def by (rule does_it_bind [OF does_auto does_return])
    then show ?thesis using True by simp
  next
    case False
    then have "d6 = d5" using d5(2) src(2) by (simp add: d6_def held_def)
    then show ?thesis using False by (simp add: does_return)
  qed
  have held5: "held 0 ?h (dm_harts d) x5 (store ?m a src) d6" using d5(2) by (simp add: d6_def held_def)
  obtain d7 where d7: "does ?cf (restore_reg dmi S0 (x 8)) d6 () d7" "held 0 ?h (dm_harts d) (x5(8 := x 8)) (store ?m a src) d7"
    by (rule does_restore [OF commands(4) held5 d(3)]) auto
  obtain d8 where d8: "does ?cf (restore_reg dmi S1 (x 9)) d7 () d8"
    "held 0 ?h (dm_harts d) (x5(8 := x 8, 9 := x 9)) (store ?m a src) d8"
    by (rule does_restore [OF commands(5) d7(2) d(3)]) auto
  have "x5(8 := x 8, 9 := x 9) = x" using d5(3) by (auto simp: keeps_def x4_def)
  then have held8: "held 0 ?h (dm_harts d) (hart_regs (dm_harts d ?h)) (store ?m a src) d8" using d8(2) by (simp add: x_def)
  then have res: "does ?cf (resume dmi hh) d8 () (resumed_dm run d8)"
    by (intro does_resume d(2)) (simp_all add: held_def)
  have q: "length src * 8 div 64 = q" using src(1) by simp
  have "does ?cf (dtm_write_chunk dmi a src) d () (resumed_dm run d8)"
    unfolding dtm_write_chunk_def
    by (rule does_bind [OF does_get [where x = "(64, rw, dw, hh)"]], simp add: config_def,
        simp only: prod.case sizes_64 Let_def, rule does_bind [OF does_halt [OF d(2,1)]],
        rule does_bind [OF d1(1)], rule does_bind [OF d2(1)], simp only: p(1), rule does_bind [OF does_lift],
        simp only: xs, rule does_bind [OF does_lift], rule does_bind [OF d3(1)], simp only: if_True ys,
        rule does_bind [OF does_lift], rule does_bind [OF d4(1)], simp only: if_True q,
        rule does_bind [OF d5(1)], rule does_bind [OF auto], rule does_bind [OF d7(1)], rule does_bind [OF d8(1)],
        rule does_bind [OF does_get [where x = hh]], simp add: config_def, rule res)
  then show ?thesis using resumed_after [OF held8] by blast
qed

end

text \<open>
  The state between transfers, as the host and the module see it: the host knows a 64-bit module
  with room for the programs, and the module rests.
\<close>

definition dtm_invar :: "('t \<Rightarrow> bool) \<Rightarrow> ('t \<Rightarrow> nat) \<Rightarrow> ('t \<Rightarrow> dm) \<Rightarrow> 't dtm \<Rightarrow> bool" where
  "dtm_invar ok pending view s \<longleftrightarrow> ok (target s) \<and> pending (target s) = 0 \<and> rests (running s) (view (target s))
     \<and> xlen s = 64 \<and> 4 \<le> ram_words s \<and> 2 \<le> data_words s \<and> current_hart s < 1024"

definition dtm_mem :: "('t \<Rightarrow> dm) \<Rightarrow> 't dtm \<Rightarrow> memory" where
  "dtm_mem view s = dm_mem (view (target s))"

text \<open>Every hart as it was, the current one running.\<close>

definition harts_back :: "('t \<Rightarrow> dm) \<Rightarrow> 't dtm \<Rightarrow> 't dtm \<Rightarrow> bool" where
  "harts_back view s s' \<longleftrightarrow> dm_harts (view (target s')) =
     (dm_harts (view (target s)))(of_nat (current_hart s) :=
       (dm_harts (view (target s)) (of_nat (current_hart s)))\<lparr>hart_halted := False\<rparr>)"

context debug_module
begin

lemma does_clear_chunk:
  assumes d: "rests run d" "hh < 1024" "2 \<le> dw" "4 \<le> rw" and q: "1 \<le> q" "8 * q \<le> 2 ^ 64"
  shows "\<exists>d'. does (rw, dw, 64, run, base, nh, hh) (dtm_clear_chunk dmi a (8 * q)) d () d'
    \<and> after run (of_nat hh) d (store (dm_mem d) a (replicate (8 * q) 0)) d'"
proof -
  let ?cf = "(rw, dw, 64, run, base, nh, hh)" and ?h = "of_nat hh :: u32" and ?m = "dm_mem d"
  let ?m' = "store ?m a (replicate (8 * q) 0)"
  define x where "x = hart_regs (dm_harts d ?h)"
  define z where "z = a + of_nat (8 * q)"
  note held0 = held_halted [OF d(1), of ?h, folded x_def]
  obtain d1 where d1: "does ?cf (save_reg dmi S0) (halted_dm ?h d) (x 8) d1" "held 0 ?h (dm_harts d) x ?m d1"
    by (rule does_save [OF commands(1) held0 d(3)]) auto
  obtain d2 where d2: "does ?cf (save_reg dmi S1) d1 (x 9) d2" "held 0 ?h (dm_harts d) x ?m d2"
    by (rule does_save [OF commands(2) d1(2) d(3)]) auto
  define xs ys :: "u32 list" where "xs = ucast a # ucast (drop_bit 32 a) # replicate (dw - 2) 0"
    and "ys = ucast z # ucast (drop_bit 32 z) # replicate (dw - 2) 0"
  have xs: "put_words [(0, ucast a), (1, ucast (drop_bit 32 a))] (replicate dw 0) = Inr xs"
    unfolding xs_def replicate_two [OF d(3)] by (rule put_words_two)
  have ys: "put_words [(0, ucast z), (1, ucast (drop_bit 32 z))] xs = Inr ys"
    unfolding xs_def ys_def by (rule put_words_two)
  obtain d3 where d3: "does ?cf (run_ac_or_die dmi (AC_ACCESS_REGISTER_TRANSFER OR AC_ACCESS_REGISTER_WRITE OR
      AC_AR_SIZE 64 OR AC_AR_REGNO S0) [] 0 xs 2) d2
      (if True then xs else [ucast (x 8), ucast (drop_bit 32 (x 8))] @ drop 2 xs) d3"
    "held 0 ?h (dm_harts d) (x(8 := a)) ?m d3"
    by (rule does_transfer [OF commands(4) d2(2), of 0 rw "[]" dw xs "x(8 := a)" "x(8 := a)" ?m run base nh hh])
      (use d in \<open>auto simp: xs_def join_halves\<close>)
  obtain p where p: "put_words [(0, STORE 64 X0 S0 0), (1, ADDI S0 S0 (of_nat 8)), (2, BNE S0 S1 (0 * 4) (2 * 4)),
      (3, EBREAK)] (replicate rw 0) = Inr p"
    "length p = rw" "take 4 p = [STORE 64 X0 S0 0, ADDI S0 S0 (of_nat 8), BNE S0 S1 (0 * 4) (2 * 4), EBREAK]"
    using put_program(2) [of rw] d(4) by fastforce
  have sw: "starts_with (take 4 p @ ys) [STORE 64 X0 S0 0, ADDI S0 S0 8, BNE S0 S1 0 8, EBREAK]" for ys
    using p(3) by (simp add: starts_with_def)
  let ?cmd = "AC_ACCESS_REGISTER_TRANSFER OR AC_ACCESS_REGISTER_WRITE OR AC_AR_SIZE 64 OR AC_AR_REGNO S1 OR
      AC_ACCESS_REGISTER_POSTEXEC"
  obtain d4 where d4: "does ?cf (run_ac_or_die dmi ?cmd p 4 ys 2) d3
      (if True then ys else [ucast ((x(8 := a)) 9), ucast (drop_bit 32 ((x(8 := a)) 9))] @ drop 2 ys) d4"
    "held 0 ?h (dm_harts d) (x(8 := z, 9 := z)) ?m' d4"
  proof (rule does_transfer [OF commands(8) d3(2), of 4 rw p dw ys "x(8 := a, 9 := z)" "x(8 := z, 9 := z)" ?m' run base nh hh])
    have "exec_prog (take 4 p @ drop 4 (dm_prog d3)) 0 (x(8 := a, 9 := z), ?m)
        = Some (True, (x(8 := a, 9 := z))(8 := z), ?m')"
      using exec_prog_clear [OF sw, of q "x(8 := a, 9 := z)"] q by (simp add: z_def)
    then show "if True then exec_prog (take 4 p @ drop 4 (dm_prog d3)) 0 (x(8 := a, 9 := z), ?m)
        = Some (True, x(8 := z, 9 := z), ?m') else x(8 := z, 9 := z) = x(8 := a, 9 := z) \<and> ?m' = ?m"
      by (simp add: fun_upd_twist)
  qed (use d d3(2) p(2) in \<open>auto simp: ys_def join_halves held_def\<close>)
  obtain d5 where d5: "does ?cf (restore_reg dmi S0 (x 8)) d4 () d5" "held 0 ?h (dm_harts d) (x(8 := z, 9 := z, 8 := x 8)) ?m' d5"
    by (rule does_restore [OF commands(4) d4(2) d(3)]) auto
  obtain d6 where d6: "does ?cf (restore_reg dmi S1 (x 9)) d5 () d6"
    "held 0 ?h (dm_harts d) (x(8 := z, 9 := z, 8 := x 8, 9 := x 9)) ?m' d6"
    by (rule does_restore [OF commands(5) d5(2) d(3), where v = "x 9"]) auto
  have "x(8 := z, 9 := z, 8 := x 8, 9 := x 9) = x" by auto
  then have held6: "held 0 ?h (dm_harts d) (hart_regs (dm_harts d ?h)) ?m' d6" using d6(2) by (simp add: x_def)
  then have res: "does ?cf (resume dmi hh) d6 () (resumed_dm run d6)"
    by (intro does_resume d(2)) (simp_all add: held_def)
  have "does ?cf (dtm_clear_chunk dmi a (8 * q)) d () (resumed_dm run d6)"
    unfolding dtm_clear_chunk_def
    by (rule does_bind [OF does_get [where x = "(64, rw, dw, hh)"]], simp add: config_def,
        simp only: prod.case sizes_64 Let_def, rule does_bind [OF does_halt [OF d(2,1)]],
        rule does_bind [OF d1(1)], rule does_bind [OF d2(1)], simp only: xs, rule does_bind [OF does_lift],
        rule does_bind [OF d3(1)], simp only: if_True p(1), rule does_bind [OF does_lift],
        simp only: z_def [symmetric] ys, rule does_bind [OF does_lift],
        rule does_bind [OF d4(1)], rule does_bind [OF d5(1)], rule does_bind [OF d6(1)],
        rule does_bind [OF does_get [where x = hh]], simp add: config_def, rule res)
  then show ?thesis using resumed_after [OF held6] by blast
qed

lemma dtm_transfer:
  assumes s: "dtm_invar ok pending view s"
    and f: "\<And>rw dw base nh hh d run. rests run d \<Longrightarrow> hh < 1024 \<Longrightarrow> 2 \<le> dw \<Longrightarrow> 4 \<le> rw \<Longrightarrow>
      \<exists>d'. does (rw, dw, 64, run, base, nh, hh) f d (y (dm_mem d)) d' \<and> after run (of_nat hh) d (g (dm_mem d)) d'"
  shows "\<exists>s'. f s = Some (Inr (y (dtm_mem view s), s')) \<and> dtm_invar ok pending view s' \<and> dtm_mem view s' = g (dtm_mem view s)
    \<and> harts_back view s s'"
proof -
  let ?cf = "(ram_words s, data_words s, 64 :: nat, running s, data_base s, num_harts s, current_hart s)"
  let ?d = "view (target s)"
  have sees: "sees ?cf ?d s" using s by (simp add: sees_def config_def dtm_invar_def)
  obtain d' where d': "does ?cf f ?d (y (dm_mem ?d)) d'" "after (running s) (of_nat (current_hart s)) ?d (g (dm_mem ?d)) d'"
    using f [of "running s" ?d "current_hart s" "data_words s" "ram_words s"] s by (auto simp: dtm_invar_def)
  then obtain s' where s': "f s = Some (Inr (y (dm_mem ?d), s'))" "sees ?cf d' s'"
    using sees by (auto simp: does_to_def)
  then show ?thesis using d'(2) s by (auto simp: sees_def config_def dtm_invar_def dtm_mem_def after_def harts_back_def)
qed

text \<open>The harts do not notice a transfer.\<close>

lemma read_back:
  assumes "dtm_invar ok pending view s"
  shows "\<exists>s'. dtm_read_chunk dmi a (8 * q) s = Some (Inr (load (dtm_mem view s) a (8 * q), s')) \<and> harts_back view s s'"
  using dtm_transfer [OF assms, of "dtm_read_chunk dmi a (8 * q)" "\<lambda>m. load m a (8 * q)" "\<lambda>m. m"] does_read_chunk
  by auto

lemma write_back:
  assumes "dtm_invar ok pending view s" "1 \<le> q" "8 * q \<le> 2 ^ 64" "length bs = 8 * q"
  shows "\<exists>s'. dtm_write_chunk dmi a bs s = Some (Inr ((), s')) \<and> harts_back view s s'"
  using dtm_transfer [OF assms(1), of "dtm_write_chunk dmi a bs" "\<lambda>_. ()" "\<lambda>m. store m a bs"] does_write_chunk assms(2-)
  by auto

lemma clear_back:
  assumes "dtm_invar ok pending view s" "1 \<le> q" "8 * q \<le> 2 ^ 64"
  shows "\<exists>s'. dtm_clear_chunk dmi a (8 * q) s = Some (Inr ((), s')) \<and> harts_back view s s'"
  using dtm_transfer [OF assms(1), of "dtm_clear_chunk dmi a (8 * q)" "\<lambda>_. ()" "\<lambda>m. store m a (replicate (8 * q) 0)"]
    does_clear_chunk assms(2-)
  by auto

end

sublocale debug_module \<subseteq> dtm_chunk: chunk_provider "dtm_ops dmi" "dtm_mem view" "dtm_invar ok pending view" "\<lambda>_. True" 3 4096
proof unfold_locales
  show "(3 :: nat) < 64" "(0 :: nat) < 4096" "(2 :: nat) ^ 3 dvd 4096" by simp_all
next
  fix s assume "dtm_invar ok pending view s"
  then show "chunk_align (dtm_ops dmi) s = 2 ^ 3" "chunk_max_size (dtm_ops dmi) s = 4096"
    by (simp_all add: dtm_ops_def dtm_chunk_align_def dtm_chunk_max_size_def dtm_invar_def)
next
  fix s a n
  assume s: "dtm_invar ok pending view s" and n: "(2 :: nat) ^ 3 dvd n"
  then obtain q where q: "n = 8 * q" by (auto elim: dvdE)
  show "\<exists>s'. read_chunk (dtm_ops dmi) a n s = Some (Inr (load (dtm_mem view s) a n, s')) \<and> dtm_invar ok pending view s' \<and> dtm_mem view s' = dtm_mem view s"
    using dtm_transfer [OF s, of "dtm_read_chunk dmi a n" "\<lambda>m. load m a n" "\<lambda>m. m"] does_read_chunk
    by (auto simp: dtm_ops_def q)
next
  fix s a and bs :: "u8 list"
  assume s: "dtm_invar ok pending view s" and n: "(2 :: nat) ^ 3 dvd length bs" "bs \<noteq> []" "length bs \<le> 4096"
  obtain q where q: "length bs = 8 * q" using n(1) by (auto elim: dvdE)
  have "8 * q \<noteq> 0" "8 * q \<le> 4096" using n(2,3) unfolding q [symmetric] by simp_all
  then have "1 \<le> q" "8 * q \<le> 2 ^ 64" by simp_all
  then show "\<exists>s'. write_chunk (dtm_ops dmi) a bs s = Some (Inr ((), s')) \<and> dtm_invar ok pending view s' \<and> dtm_mem view s' = store (dtm_mem view s) a bs"
    using dtm_transfer [OF s, of "dtm_write_chunk dmi a bs" "\<lambda>_. ()" "\<lambda>m. store m a bs"] does_write_chunk q
    by (auto simp: dtm_ops_def)
next
  fix s a n
  assume s: "dtm_invar ok pending view s" and n: "(2 :: nat) ^ 3 dvd n" "0 < n" "n \<le> 2 ^ 64"
  obtain q where q: "n = 8 * q" using n(1) by (auto elim: dvdE)
  have "8 * q \<noteq> 0" "8 * q \<le> 2 ^ 64" using n(2,3) unfolding q by simp_all
  then have "1 \<le> q" "8 * q \<le> 2 ^ 64" by simp_all
  then show "clears (dtm_ops dmi) (dtm_invar ok pending view) (dtm_mem view) s a n"
    using dtm_transfer [OF s, of "dtm_clear_chunk dmi a n" "\<lambda>_. ()" "\<lambda>m. store m a (replicate n 0)"] does_clear_chunk q
    by (auto simp: dtm_ops_def clears_def)
qed simp

context debug_module
begin

lemmas dtm_provider = dtm_chunk.chunk_provider_axioms

end

end
