(* ===== verification/Ref_module.thy ===== *)
theory Ref_module
  imports Dtm_chunks
begin

text \<open>
  A debug module that meets the specification of \<open>Debug_module\<close>, slow enough that every polling
  loop of \<^verbatim>\<open>dtm.cc\<close> goes round. It gives the laws their interpretation.
\<close>

section \<open>A module that meets the specification\<close>

text \<open>
  A reference module: every request takes effect at once, but halting, resuming and executing are
  seen as finished only after the status registers have been read three times.
\<close>

definition module_wf :: "dm \<Rightarrow> bool" where
  "module_wf d \<longleftrightarrow> length (dm_data d) \<le> 12 \<and> length (dm_prog d) \<le> 16 \<and> dm_err d < 8"

definition status_word :: "bool \<Rightarrow> dm \<Rightarrow> u32" where
  "status_word idle d = (if \<not> idle then 0 else if hart_halted (sel_hart d) then DMI_DMSTATUS_ALLHALTED
     else DMI_DMSTATUS_ALLRESUMEACK) OR (if dm_sel d = 0 then 0 else DMI_DMSTATUS_ANYNONEXISTENT)"

definition abstractcs_word :: "bool \<Rightarrow> dm \<Rightarrow> u32" where
  "abstractcs_word idle d = push_bit 24 (of_nat (length (dm_prog d))) OR of_nat (length (dm_data d))
     OR push_bit 8 (dm_err d) OR (if idle then 0 else DMI_ABSTRACTCS_BUSY)"

definition ref_dmi :: "(dm \<times> nat) dmi" where
  "ref_dmi r t = (case t of (d, n) \<Rightarrow>
     (\<lparr>resp_resp = 0, resp_data =
        (if req_op r \<noteq> 1 then 0
         else if in_data d (req_addr r) then dm_data d ! unat (req_addr r - DMI_DATA0)
         else if req_addr r = DMI_DMSTATUS then status_word (n = 0) d
         else if req_addr r = DMI_ABSTRACTCS then abstractcs_word (n = 0) d
         else if req_addr r = DMI_DMCONTROL then push_bit 16 (dm_sel d AND 0x3ff) OR of_bool (dm_active d)
         else if req_addr r = DMI_HARTINFO then 0x110380
         else 0)\<rparr>,
      (case access r d of None \<Rightarrow> d | Some d' \<Rightarrow> d',
       if begins r d then 3 else if is_status r then n - 1 else n)))"

lemma transfer_wf: "module_wf d \<Longrightarrow> module_wf (transfer_reg cmd d)"
  by (simp add: module_wf_def transfer_reg_def set_hart_def Let_def)

lemma run_prog_wf: "module_wf d \<Longrightarrow> run_prog d = Some d' \<Longrightarrow> module_wf d'"
  by (auto simp: module_wf_def run_prog_def set_hart_def split: option.splits prod.splits)

lemma abstract_wf: "abstract_cmd d = Some d' \<Longrightarrow> module_wf d \<Longrightarrow> module_wf d'"
  using transfer_wf [of d "dm_last d"] run_prog_wf [of "transfer_reg (dm_last d) d" d']
  by (auto simp: abstract_cmd_def Let_def split: if_splits) (simp_all add: module_wf_def)

lemma control_wf: "module_wf d \<Longrightarrow> module_wf (write_control w d)"
  by (simp add: module_wf_def write_control_def set_hart_def Let_def)

lemma access_wf:
  assumes "module_wf d" "access r d = Some d'"
  shows "module_wf d'"
proof -
  have "dm_err d AND NOT w < 8" for w
    using assms(1) word_and_le2 [of "dm_err d" "NOT w"] by (auto simp: module_wf_def)
  then have "module_wf (d\<lparr>dm_err := dm_err d AND NOT w\<rparr>)" "module_wf (d\<lparr>dm_auto := w\<rparr>)" "module_wf (d\<lparr>dm_last := w\<rparr>)"
    "module_wf (d\<lparr>dm_data := (dm_data d)[i := w]\<rparr>)" "module_wf (d\<lparr>dm_prog := (dm_prog d)[i := w]\<rparr>)" for w i
    using assms(1) by (simp_all add: module_wf_def)
  then show ?thesis using assms
    by (auto simp: access_def auto_cmd_def Let_def intro: control_wf dest!: abstract_wf split: if_splits)
qed

lemma small_bits:
  fixes n :: nat
  assumes "n < 2 ^ k" "bit n i"
  shows "i < k"
proof (rule ccontr)
  assume "\<not> i < k"
  then have "n < 2 ^ i" using assms(1) by (metis less_le_trans not_less one_le_numeral power_increasing)
  then show False using assms(2) by (simp add: bit_iff_odd)
qed

lemma bit_abstractcs_word:
  assumes "module_wf d"
  shows "bit (abstractcs_word idle d) i \<longleftrightarrow>
    (24 \<le> i \<and> i < 32 \<and> bit (length (dm_prog d)) (i - 24)) \<or> bit (length (dm_data d)) i
    \<or> (8 \<le> i \<and> bit (dm_err d) (i - 8)) \<or> (\<not> idle \<and> i = 12)"
    and "bit (length (dm_prog d)) j \<Longrightarrow> j < 5" "bit (length (dm_data d)) j \<Longrightarrow> j < 4" "bit (dm_err d) j \<Longrightarrow> j < 3"
proof -
  show p: "bit (length (dm_prog d)) j \<Longrightarrow> j < 5" and q: "bit (length (dm_data d)) j \<Longrightarrow> j < 4"
    using assms small_bits [of "length (dm_prog d)" 5] small_bits [of "length (dm_data d)" 4] by (simp_all add: module_wf_def)
  have "unat (dm_err d) < 2 ^ 3" using assms by (simp add: module_wf_def word_less_nat_alt)
  then have e: "j < 3" if "bit (dm_err d) j" for j
    using small_bits [of "unat (dm_err d)" 3 j] that by (simp add: bit_unsigned_iff)
  then show "bit (dm_err d) j \<Longrightarrow> j < 3" .
  have "bit DMI_ABSTRACTCS_BUSY i \<longleftrightarrow> i = 12" unfolding mask_literals bit_field_mask by auto
  then show "bit (abstractcs_word idle d) i \<longleftrightarrow>
    (24 \<le> i \<and> i < 32 \<and> bit (length (dm_prog d)) (i - 24)) \<or> bit (length (dm_data d)) i
    \<or> (8 \<le> i \<and> bit (dm_err d) (i - 8)) \<or> (\<not> idle \<and> i = 12)"
    using small_bits [of "length (dm_data d)" 4 i] e [of "i - 8"] assms
    by (auto simp: abstractcs_word_def bit_or_iff bit_push_bit_iff bit_of_nat_iff module_wf_def)
qed

lemma abstractcs_fields:
  assumes d: "module_wf d"
  shows "get_field (abstractcs_word idle d) DMI_ABSTRACTCS_CMDERR = dm_err d"
    "abstractcs_word idle d AND DMI_ABSTRACTCS_BUSY = 0 \<longleftrightarrow> idle"
    "unat (get_field (abstractcs_word idle d) DMI_ABSTRACTCS_PROGSIZE) = length (dm_prog d)"
    "unat (get_field (abstractcs_word idle d) DMI_ABSTRACTCS_DATACOUNT) = length (dm_data d)"
proof -
  note bits = bit_abstractcs_word [OF d]
  have "get_field (abstractcs_word idle d) DMI_ABSTRACTCS_CMDERR = take_bit 3 (drop_bit 8 (abstractcs_word idle d))"
    unfolding mask_literals by (rule get_field_eq) simp_all
  also have "\<dots> = dm_err d"
    using bits(2-4) by (intro bit_word_eqI) (fastforce simp: bit_take_bit_iff bit_drop_bit_eq bits(1))
  finally show "get_field (abstractcs_word idle d) DMI_ABSTRACTCS_CMDERR = dm_err d" .
  show "abstractcs_word idle d AND DMI_ABSTRACTCS_BUSY = 0 \<longleftrightarrow> idle"
    unfolding mask_literals using field_unset [of 12 "abstractcs_word idle d"] bits(3) [of 12] bits(4) [of 4] by (auto simp: bits(1))
  have "get_field (abstractcs_word idle d) DMI_ABSTRACTCS_PROGSIZE = take_bit 5 (drop_bit 24 (abstractcs_word idle d))"
    unfolding mask_literals by (rule get_field_eq) simp_all
  also have "\<dots> = of_nat (length (dm_prog d))"
    using bits(2-4) by (intro bit_word_eqI) (fastforce simp: bit_take_bit_iff bit_drop_bit_eq bits(1) bit_of_nat_iff)
  finally show "unat (get_field (abstractcs_word idle d) DMI_ABSTRACTCS_PROGSIZE) = length (dm_prog d)"
    using d by (simp add: module_wf_def unsigned_of_nat take_bit_nat_eq_self)
  have "get_field (abstractcs_word idle d) DMI_ABSTRACTCS_DATACOUNT = take_bit 5 (drop_bit 0 (abstractcs_word idle d))"
    unfolding mask_literals by (rule get_field_eq) simp_all
  also have "\<dots> = of_nat (length (dm_data d))"
    using bits(2-4) by (intro bit_word_eqI) (fastforce simp: bit_take_bit_iff bit_drop_bit_eq bits(1) bit_of_nat_iff)
  finally show "unat (get_field (abstractcs_word idle d) DMI_ABSTRACTCS_DATACOUNT) = length (dm_data d)"
    using d by (simp add: module_wf_def unsigned_of_nat take_bit_nat_eq_self)
qed

lemma flag_masks:
  "get_field 0 m = 0"
  "get_field DMI_DMSTATUS_ALLHALTED DMI_DMSTATUS_ALLHALTED \<noteq> 0"
  "get_field (DMI_DMSTATUS_ALLHALTED OR DMI_DMSTATUS_ANYNONEXISTENT) DMI_DMSTATUS_ALLHALTED \<noteq> 0"
  "get_field DMI_DMSTATUS_ANYNONEXISTENT DMI_DMSTATUS_ALLHALTED = 0"
  "get_field DMI_DMSTATUS_ALLRESUMEACK DMI_DMSTATUS_ALLRESUMEACK \<noteq> 0"
  "get_field (DMI_DMSTATUS_ALLRESUMEACK OR DMI_DMSTATUS_ANYNONEXISTENT) DMI_DMSTATUS_ALLRESUMEACK \<noteq> 0"
  "get_field DMI_DMSTATUS_ANYNONEXISTENT DMI_DMSTATUS_ALLRESUMEACK = 0"
  by (simp add: get_field_def) code_simp+

lemma status_fields:
  "hart_halted (sel_hart d) \<Longrightarrow> get_field (status_word idle d) DMI_DMSTATUS_ALLHALTED = 0 \<longleftrightarrow> \<not> idle"
  "\<not> hart_halted (sel_hart d) \<Longrightarrow> get_field (status_word idle d) DMI_DMSTATUS_ALLRESUMEACK = 0 \<longleftrightarrow> \<not> idle"
  by (simp_all add: status_word_def flag_masks)

lemma control_word_bits:
  "bit (push_bit 16 (s AND 0x3ff) OR of_bool a :: u32) 0 \<longleftrightarrow> a"
  "\<not> bit (push_bit 16 (s AND 0x3ff) OR of_bool a :: u32) 30"
  "\<not> bit (push_bit 16 (s AND 0x3ff) OR of_bool a :: u32) 31"
proof -
  have m: "\<not> bit (0x3ff :: u32) 14" "\<not> bit (0x3ff :: u32) 15" by code_simp+
  show "bit (push_bit 16 (s AND 0x3ff) OR of_bool a :: u32) 0 \<longleftrightarrow> a"
    "\<not> bit (push_bit 16 (s AND 0x3ff) OR of_bool a :: u32) 30"
    "\<not> bit (push_bit 16 (s AND 0x3ff) OR of_bool a :: u32) 31"
    by (simp_all only: bit_or_iff bit_push_bit_iff bit_and_iff bit_of_bool_iff) (simp_all add: m)
qed

lemma status_outside:
  assumes "module_wf d"
  shows "\<not> in_data d DMI_DMSTATUS" "\<not> in_data d DMI_ABSTRACTCS" "\<not> in_data d DMI_DMCONTROL" "\<not> in_data d DMI_HARTINFO"
  using assms by (simp_all add: module_wf_def in_data_iff dmi_addrs DMI_HARTINFO_def)

lemma dmi_distinct:
  "DMI_ABSTRACTCS \<noteq> DMI_DMSTATUS" "DMI_DMCONTROL \<noteq> DMI_DMSTATUS" "DMI_DMCONTROL \<noteq> DMI_ABSTRACTCS"
  "DMI_HARTINFO \<noteq> DMI_DMSTATUS" "DMI_HARTINFO \<noteq> DMI_ABSTRACTCS" "DMI_HARTINFO \<noteq> DMI_DMCONTROL"
  by (simp_all add: dmi_addrs DMI_HARTINFO_def)

lemma ref_reads:
  assumes "module_wf d"
  shows "ref_dmi (rd DMI_DMSTATUS) (d, n) = (\<lparr>resp_resp = 0, resp_data = status_word (n = 0) d\<rparr>, (d, n - 1))"
    "ref_dmi (rd DMI_ABSTRACTCS) (d, n) = (\<lparr>resp_resp = 0, resp_data = abstractcs_word (n = 0) d\<rparr>, (d, n - 1))"
    "ref_dmi (rd DMI_DMCONTROL) (d, n) =
      (\<lparr>resp_resp = 0, resp_data = push_bit 16 (dm_sel d AND 0x3ff) OR of_bool (dm_active d)\<rparr>, (d, n))"
    "ref_dmi (rd DMI_HARTINFO) (d, n) = (\<lparr>resp_resp = 0, resp_data = 0x110380\<rparr>, (d, n))"
  using status_outside [OF assms] dmi_distinct
  by (simp_all add: ref_dmi_def rd_def begins_def is_status_def access_def)

lemma ref_data:
  assumes "module_wf d" "i < length (dm_data d)"
  shows "resp_data (fst (ref_dmi (rd (DMI_DATA0 + of_nat i)) (d, n))) = dm_data d ! i"
proof -
  have "unat (DMI_DATA0 + of_nat i) = 4 + i" using assms by (intro data_addr) (simp add: module_wf_def)
  moreover have "unat (of_nat i :: u32) = i" using assms by (simp add: module_wf_def unsigned_of_nat take_bit_nat_eq_self)
  ultimately show ?thesis using assms by (simp add: ref_dmi_def rd_def in_data_iff module_wf_def)
qed

interpretation slow_module: debug_module ref_dmi "\<lambda>t. module_wf (fst t)" snd fst
proof unfold_locales
  fix r :: req and t t' :: "dm \<times> nat" and p d
  assume "module_wf (fst t)" "ref_dmi r t = (p, t')" "snd t = 0 \<or> is_status r" "access r (fst t) = Some d"
  then show "resp_resp p = 0 \<and> module_wf (fst t') \<and> fst t' = d"
    using access_wf by (auto simp: ref_dmi_def split: prod.splits)
next
  fix r :: req and t t' :: "dm \<times> nat" and p
  assume "ref_dmi r t = (p, t')" "snd t = 0" "\<not> begins r (fst t)"
  then show "snd t' = 0" by (auto simp: ref_dmi_def split: prod.splits if_splits)
next
  fix t t' :: "dm \<times> nat" and p and i :: nat
  assume wf: "module_wf (fst t)"
  obtain d n where t: "t = (d, n)" by fastforce
  note r = ref_reads [OF wf [unfolded t fst_conv], of n] and wf' = wf [unfolded t fst_conv]
  show "ref_dmi (rd DMI_DMSTATUS) t = (p, t') \<Longrightarrow> hart_halted (sel_hart (fst t)) \<Longrightarrow>
      if get_field (resp_data p) DMI_DMSTATUS_ALLHALTED = 0 then snd t' < snd t else snd t' = 0"
    using r(1) by (auto simp: t status_fields)
  show "ref_dmi (rd DMI_DMSTATUS) t = (p, t') \<Longrightarrow> \<not> hart_halted (sel_hart (fst t)) \<Longrightarrow>
      if get_field (resp_data p) DMI_DMSTATUS_ALLRESUMEACK = 0 then snd t' < snd t else snd t' = 0"
    using r(1) by (auto simp: t status_fields)
  show "ref_dmi (rd DMI_ABSTRACTCS) t = (p, t') \<Longrightarrow>
      if resp_data p AND DMI_ABSTRACTCS_BUSY \<noteq> 0 then snd t' < snd t
      else snd t' = 0 \<and> get_field (resp_data p) DMI_ABSTRACTCS_CMDERR = dm_err (fst t)"
    using r(2) by (auto simp: t abstractcs_fields [OF wf'])
  show "ref_dmi (rd DMI_ABSTRACTCS) t = (p, t') \<Longrightarrow>
      unat (get_field (resp_data p) DMI_ABSTRACTCS_PROGSIZE) = length (dm_prog (fst t))
      \<and> unat (get_field (resp_data p) DMI_ABSTRACTCS_DATACOUNT) = length (dm_data (fst t))"
    using r(2) by (auto simp: t abstractcs_fields [OF wf'])
  show "ref_dmi (rd DMI_DMCONTROL) t = (p, t') \<Longrightarrow>
      (bit (resp_data p) 0 \<longleftrightarrow> dm_active (fst t)) \<and> \<not> bit (resp_data p) 30 \<and> \<not> bit (resp_data p) 31"
    using r(3) control_word_bits [of "dm_sel d" "dm_active d"] by (auto simp: t simp del: bit_0)
  have "get_field 0x110380 DMI_HARTINFO_NSCRATCH \<noteq> 0" "get_field 0x110380 DMI_HARTINFO_DATAACCESS \<noteq> 0" by code_simp+
  then show "ref_dmi (rd DMI_HARTINFO) t = (p, t') \<Longrightarrow>
      get_field (resp_data p) DMI_HARTINFO_NSCRATCH \<noteq> 0 \<and> get_field (resp_data p) DMI_HARTINFO_DATAACCESS \<noteq> 0"
    using r(4) by (auto simp: t)
  show "i < length (dm_data (fst t)) \<Longrightarrow> ref_dmi (rd (DMI_DATA0 + of_nat i)) t = (p, t') \<Longrightarrow>
      resp_data p = dm_data (fst t) ! i"
    using ref_data [OF wf', of i n] by (auto simp: t)
  show "length (dm_data (fst t)) \<le> 12 \<and> length (dm_prog (fst t)) \<le> 16" using wf by (simp add: module_wf_def)
qed

text \<open>The module between transfers, and the host that has learnt about it.\<close>

definition ref_dm :: "bool \<Rightarrow> memory \<Rightarrow> dm" where
  "ref_dm act m = \<lparr>dm_active = act, dm_sel = 0, dm_harts = (\<lambda>_. \<lparr>hart_regs = (\<lambda>r. ucast r), hart_halted = False\<rparr>),
     dm_mem = m, dm_prog = replicate 16 0, dm_data = replicate 2 0, dm_auto = 0, dm_last = 0, dm_err = 0\<rparr>"

definition ref_dtm :: "memory \<Rightarrow> (dm \<times> nat) dtm" where
  "ref_dtm m = (idle_dtm 2 (ref_dm False m, 0))\<lparr>running := True\<rparr>"

lemma ref_dtm_invar: "dtm_invar (\<lambda>t. module_wf (fst t)) snd fst (ref_dtm m)"
  by (simp add: dtm_invar_def ref_dtm_def idle_dtm_def ref_dm_def module_wf_def rests_def)

lemma ref_dtm_mem: "dtm_mem fst (ref_dtm m) = m"
  by (simp add: dtm_mem_def ref_dtm_def idle_dtm_def ref_dm_def)

lemmas ref_dm_spec = slow_module.debug_module_axioms

end
