(* ===== verification/Dtm_start.thy ===== *)
theory Dtm_start
  imports Dtm_chunks
begin

text \<open>
  The start of the host thread (\<^verbatim>\<open>dtm_t::producer_thread\<close>): what the host learns about the debug
  module, how it counts the harts and finds their width, and that the interface works then.
\<close>

section \<open>Learning about the module\<close>

context debug_module
begin

lemma read_finds:
  assumes s: "sees cf d s" and a: "access (rd a) d = Some d" "\<not> begins (rd a) d"
    and R: "\<And>t p t'. ok t \<Longrightarrow> pending t = 0 \<Longrightarrow> view t = d \<Longrightarrow> dmi (rd a) t = (p, t') \<Longrightarrow> R (resp_data p)"
  obtains v s' where "dmi_read dmi a s = Some (Inr (v, s'))" "R v" "sees cf d s'"
proof -
  obtain p t where p: "dmi (rd a) (target s) = (p, t)" by fastforce
  have "resp_resp p = 0" "ok t" "view t = d" "pending t = 0" "R (resp_data p)"
    using s answers [OF _ p] idle [OF _ p] a R [OF _ _ _ p] by (auto simp: sees_def)
  with do_command_run [OF p] s that show thesis unfolding dmi_read_def rd_def by (auto simp: sees_def)
qed

lemma write_goes:
  assumes s: "sees cf d s" and "access (wr a w) d = Some d'" "\<not> begins (wr a w) d"
  obtains v s' where "dmi_write dmi a w s = Some (Inr (v, s'))" "sees cf d' s'"
  using write_does_it [OF assms(2,3), of cf] s unfolding does_it_def by blast

lemma registers_outside:
  assumes "sees cf d s"
  shows "access (rd DMI_DMCONTROL) d = Some d" "\<not> begins (rd DMI_DMCONTROL) d"
    "access (rd DMI_HARTINFO) d = Some d" "\<not> begins (rd DMI_HARTINFO) d"
    "access (rd DMI_ABSTRACTCS) d = Some d" "\<not> begins (rd DMI_ABSTRACTCS) d"
    "access (rd DMI_DMSTATUS) d = Some d" "\<not> begins (rd DMI_DMSTATUS) d"
proof -
  have "length (dm_data d) \<le> 12" using sizes_of [OF assms] by simp
  then have "\<not> in_data d DMI_DMCONTROL" "\<not> in_data d DMI_HARTINFO" "\<not> in_data d DMI_ABSTRACTCS" "\<not> in_data d DMI_DMSTATUS"
    by (simp_all add: in_data_iff dmi_addrs DMI_HARTINFO_def)
  then show "access (rd DMI_DMCONTROL) d = Some d" "\<not> begins (rd DMI_DMCONTROL) d"
    "access (rd DMI_HARTINFO) d = Some d" "\<not> begins (rd DMI_HARTINFO) d"
    "access (rd DMI_ABSTRACTCS) d = Some d" "\<not> begins (rd DMI_ABSTRACTCS) d"
    "access (rd DMI_DMSTATUS) d = Some d" "\<not> begins (rd DMI_DMSTATUS) d"
    by (simp_all add: access_def begins_def rd_def)
qed

text \<open>Selecting a hart, with the control word just read: nothing is halted or resumed.\<close>

lemma write_control_select:
  assumes "bit w 0" "\<not> bit w 30" "\<not> bit w 31" "dm_active d"
  shows "write_control (set_field w DMI_DMCONTROL_HARTSEL h) d
      = d\<lparr>dm_sel := get_field (set_field w DMI_DMCONTROL_HARTSEL h) DMI_DMCONTROL_HARTSEL\<rparr>"
    "\<not> bit (set_field w DMI_DMCONTROL_HARTSEL h) 30" "\<not> bit (set_field w DMI_DMCONTROL_HARTSEL h) 31"
proof -
  let ?w = "set_field w DMI_DMCONTROL_HARTSEL h"
  have "bit ?w i = bit w i" if "i < 16 \<or> 26 \<le> i" for i
    using that unfolding mask_literals
    by (subst set_field_eq) (auto simp: bit_field_mask bit_or_iff bit_and_iff bit_not_iff bit_push_bit_iff bit_take_bit_iff
        dest: bit_imp_le_length)
  then have b: "bit ?w 0" "\<not> bit ?w 30" "\<not> bit ?w 31" using assms by simp_all
  then show "\<not> bit ?w 30" "\<not> bit ?w 31" by simp_all
  show "write_control ?w d = d\<lparr>dm_sel := get_field ?w DMI_DMCONTROL_HARTSEL\<rparr>"
    using b assms(4) by (simp add: write_control_def flag_unset del: bit_0)
qed

lemma select_goes:
  assumes s: "sees (rw, dw, xl, run, base, nh, h) d s" "dm_active d"
  obtains s' sel where "select_hart dmi k s = Some (Inr ((), s'))"
    "sees (rw, dw, xl, run, base, nh, k) (d\<lparr>dm_sel := sel\<rparr>) s'"
proof -
  note out = registers_outside [OF s(1)]
  obtain w s1 where w: "dmi_read dmi DMI_DMCONTROL s = Some (Inr (w, s1))" "bit w 0 \<and> \<not> bit w 30 \<and> \<not> bit w 31"
    "sees (rw, dw, xl, run, base, nh, h) d s1"
    by (rule read_finds [OF s(1) out(1,2), where R = "\<lambda>w. bit w 0 \<and> \<not> bit w 30 \<and> \<not> bit w 31"])
      (use control s(2) in blast)+
  have len: "length (dm_data d) \<le> 12" using sizes_of [OF s(1)] by simp
  obtain sel where sel: "access (wr DMI_DMCONTROL (set_field w DMI_DMCONTROL_HARTSEL (of_nat k))) d = Some (d\<lparr>dm_sel := sel\<rparr>)"
    "\<not> begins (wr DMI_DMCONTROL (set_field w DMI_DMCONTROL_HARTSEL (of_nat k))) d"
    using write_control_select [of w d "of_nat k"] w(2) s(2) by (simp add: access_control [OF len])
  obtain v s2 where v: "dmi_write dmi DMI_DMCONTROL (set_field w DMI_DMCONTROL_HARTSEL (of_nat k)) s1 = Some (Inr (v, s2))"
    "sees (rw, dw, xl, run, base, nh, h) (d\<lparr>dm_sel := sel\<rparr>) s2"
    by (rule write_goes [OF w(3) sel]) 
  have "select_hart dmi k s = Some (Inr ((), s2\<lparr>current_hart := k\<rparr>))"
    by (simp add: select_hart_def monad_simps w(1) v(1))
  moreover have "sees (rw, dw, xl, run, base, nh, k) (d\<lparr>dm_sel := sel\<rparr>) (s2\<lparr>current_hart := k\<rparr>)"
    using v(2) by (simp add: sees_def config_def)
  ultimately show thesis by (rule that)
qed

lemma enumerate_loop_ends:
  assumes "sees (rw, dw, xl, run, base, nh, h) d s" "dm_active d"
  shows "\<exists>n s' h' sel. enumerate_loop dmi mh k s = Some (Inr (n, s')) \<and> sees (rw, dw, xl, run, base, nh, h') (d\<lparr>dm_sel := sel\<rparr>) s'"
  using assms
proof (induction "Suc mh - k" arbitrary: k s d h)
  case 0
  then have "enumerate_loop dmi mh k s = Some (Inr (k, s))" by (subst enumerate_loop.simps) (simp add: monad_simps)
  moreover have "d\<lparr>dm_sel := dm_sel d\<rparr> = d" by simp
  ultimately show ?case using "0.prems"(1) by metis
next
  case (Suc j)
  let ?cf = "(rw, dw, xl, run, base, nh, k)"
  obtain s1 sel where s1: "select_hart dmi k s = Some (Inr ((), s1))" "sees ?cf (d\<lparr>dm_sel := sel\<rparr>) s1"
    using Suc.prems by (rule select_goes)
  note out = registers_outside [OF s1(2)]
  obtain v s2 where s2: "dmi_read dmi DMI_DMSTATUS s1 = Some (Inr (v, s2))" "sees ?cf (d\<lparr>dm_sel := sel\<rparr>) s2"
    by (rule read_finds [OF s1(2) out(7,8), where R = "\<lambda>_. True"]) auto
  have step: "enumerate_loop dmi mh k s = (if get_field v DMI_DMSTATUS_ANYNONEXISTENT \<noteq> 0 then return k s2
      else enumerate_loop dmi mh (k + 1) s2)"
  proof -
    have "k \<le> mh" using Suc.hyps(2) by simp
    then show ?thesis by (subst enumerate_loop.simps) (simp add: monad_simps s1(1) s2(1))
  qed
  show ?case
  proof (cases "get_field v DMI_DMSTATUS_ANYNONEXISTENT \<noteq> 0")
    case True
    then show ?thesis using step s2(2) by (auto simp: monad_simps)
  next
    case False
    have j: "j = Suc mh - (k + 1)" using Suc.hyps(2) by simp
    obtain n s' h' sel' where "enumerate_loop dmi mh (k + 1) s2 = Some (Inr (n, s'))"
      "sees (rw, dw, xl, run, base, nh, h') (d\<lparr>dm_sel := sel, dm_sel := sel'\<rparr>) s'"
      using Suc.hyps(1) [OF j s2(2)] Suc.prems(2) by auto
    then show ?thesis using step False by auto
  qed
qed

lemma enumerate_goes:
  assumes "sees (rw, dw, xl, run, base, nh, h) d s" "dm_active d"
  obtains n s' h' sel where "enumerate_harts dmi s = Some (Inr (n, s'))"
    "sees (rw, dw, xl, run, base, nh, h') (d\<lparr>dm_sel := sel\<rparr>) s'"
proof -
  let ?cf = "(rw, dw, xl, run, base, nh, h)" 
  define mh where "mh = (push_bit DMI_DMCONTROL_HARTSEL_LENGTH 1 - 1 :: u32)"
  note out = registers_outside [OF assms(1)]
  obtain w s1 where w: "dmi_read dmi DMI_DMCONTROL s = Some (Inr (w, s1))" "bit w 0 \<and> \<not> bit w 30 \<and> \<not> bit w 31"
    "sees ?cf d s1"
    by (rule read_finds [OF assms(1) out(1,2), where R = "\<lambda>w. bit w 0 \<and> \<not> bit w 30 \<and> \<not> bit w 31"])
      (use control assms(2) in blast)+
  have len: "length (dm_data d) \<le> 12" using sizes_of [OF assms(1)] by simp
  obtain sel where sel: "access (wr DMI_DMCONTROL (set_field w DMI_DMCONTROL_HARTSEL mh)) d = Some (d\<lparr>dm_sel := sel\<rparr>)"
    "\<not> begins (wr DMI_DMCONTROL (set_field w DMI_DMCONTROL_HARTSEL mh)) d"
    using write_control_select [of w d mh] w(2) assms(2) by (simp add: access_control [OF len])
  obtain v s2 where s2: "dmi_write dmi DMI_DMCONTROL (set_field w DMI_DMCONTROL_HARTSEL mh) s1 = Some (Inr (v, s2))"
    "sees ?cf (d\<lparr>dm_sel := sel\<rparr>) s2"
    by (rule write_goes [OF w(3) sel])
  note out2 = registers_outside [OF s2(2)]
  obtain v3 s3 where s3: "dmi_read dmi DMI_DMSTATUS s2 = Some (Inr (v3, s3))" "sees ?cf (d\<lparr>dm_sel := sel\<rparr>) s3"
    by (rule read_finds [OF s2(2) out2(7,8), where R = "\<lambda>_. True"]) auto
  obtain v4 s4 where s4: "dmi_read dmi DMI_DMCONTROL s3 = Some (Inr (v4, s4))" "sees ?cf (d\<lparr>dm_sel := sel\<rparr>) s4"
    by (rule read_finds [OF s3(2) out2(1,2), where R = "\<lambda>_. True"]) auto
  obtain n s' h' sel' where "enumerate_loop dmi (unat (get_field v4 DMI_DMCONTROL_HARTSEL)) 0 s4 = Some (Inr (n, s'))"
    "sees (rw, dw, xl, run, base, nh, h') (d\<lparr>dm_sel := sel, dm_sel := sel'\<rparr>) s'"
    using enumerate_loop_ends [OF s4(2), of "unat (get_field v4 DMI_DMCONTROL_HARTSEL)" 0] assms(2) by auto
  then show thesis using that
    unfolding enumerate_harts_def Let_def mh_def [symmetric]
    by (simp add: monad_simps w(1) s2(1) s3(1) s4(1))
qed

text \<open>The width: 128 bits are refused with an error, which is cleared, 64 bits are accepted.\<close>

lemma does_get_xlen:
  assumes d: "held 0 h hs x m d"
  shows "\<exists>d'. does (rw, dw, xl, run, base, nh, hh) (get_xlen dmi) d 64 d' \<and> held 0 h hs x m d'"
proof -
  let ?cf = "(rw, dw, xl, run, base, nh, hh)" and ?c = "AC_ACCESS_REGISTER_TRANSFER OR AC_AR_REGNO S0"
  define c128 c64 where "c128 = ?c OR AC_AR_SIZE 128" and "c64 = ?c OR AC_AR_SIZE 64"
  have c128: "drop_bit 20 c128 AND 7 \<noteq> 3" "transfers c128" "\<not> writes c128"
    unfolding c128_def transfers_def writes_def by code_simp+
  have c64: "ac_reg c64 False False 8" unfolding c64_def by code_simp
  have hd: "dm_err d = 0" "dm_auto d = 0" "hart_halted (sel_hart d)" using d by (simp_all add: held_def sel_hart_def)
  define d1 where "d1 = d\<lparr>dm_last := c128, dm_err := 2\<rparr>"
  have 1: "does ?cf (run_abstract_command dmi c128 [] 0 [] 0) d (2, []) d1"
    using does_abstract [of 0 rw 0 dw "[]" d "[]" c128 d1 xl run base nh hh] c128 hd
    by (simp add: loaded_def abstract_cmd_def d1_def Let_def sel_hart_def)
  define d2 where "d2 = d\<lparr>dm_last := c128\<rparr>"
  have ne: "DMI_ABSTRACTCS \<noteq> DMI_DMCONTROL" by (simp add: dmi_addrs)
  have f: "dm_err d1 AND NOT (get_field DMI_ABSTRACTCS_CMDERR DMI_ABSTRACTCS_CMDERR) = 0"
    unfolding d1_def by simp code_simp
  have 2: "does_it ?cf (dmi_write dmi DMI_ABSTRACTCS DMI_ABSTRACTCS_CMDERR) d1 d2"
  proof (rule does_it_sizes, rule write_does_it)
    assume "length (dm_data d1) \<le> 12"
    then have "\<not> in_data d1 DMI_ABSTRACTCS" by (simp add: in_data_iff dmi_addrs)
    then show "\<not> begins (wr DMI_ABSTRACTCS DMI_ABSTRACTCS_CMDERR) d1" by (simp add: begins_def wr_def) (simp add: dmi_addrs)
    show "access (wr DMI_ABSTRACTCS DMI_ABSTRACTCS_CMDERR) d1 = Some d2"
      using f ne hd(1) by (simp add: access_def wr_def d1_def d2_def)
  qed
  have h2: "held 0 h hs x m d2" using d by (simp add: d2_def held_def)
  obtain a b as where data: "dm_data (d2\<lparr>dm_last := c64\<rparr>) = a # b # as"
    using h2 by (auto simp: held_def Suc_le_length_iff numeral_2_eq_2)
  have h2': "held 0 h hs x m (d2\<lparr>dm_last := c64\<rparr>)" using h2 by (simp add: held_def)
  obtain d3 where d3: "abstract_cmd (d2\<lparr>dm_last := c64\<rparr>) = Some d3" "held 0 h hs x m d3"
    by (rule abstract_transfer [OF c64 h2' _ data _ refl, of x m]) auto
  have "does ?cf (run_abstract_command dmi c64 [] 0 [] 0) d2 (dm_err d3, if \<not> writes c64 \<and> transfers c64 then take 0 (dm_data d3) @ drop 0 [] else []) d3"
    by (rule does_abstract) (use d3 h2 c64 in \<open>simp_all add: loaded_def held_def ac_reg_def\<close>)
  then have 3: "does ?cf (run_abstract_command dmi c64 [] 0 [] 0) d2 (0, []) d3" using d3(2) by (simp add: held_def cong: if_cong)
  have "does ?cf (get_xlen dmi) d 64 d3"
    unfolding get_xlen_def Let_def c128_def [symmetric] c64_def [symmetric]
    by (rule does_bind [OF 1], simp, rule does_it_bind [OF 2], rule does_bind [OF 3], simp add: does_return)
  with d3(2) show ?thesis by blast
qed

end

text \<open>
  The host thread's start: on a resting module of a 64-bit machine it returns, and then the
  interface works. Memory and the harts are as before, hart 0 runs.
\<close>

definition dm_fresh :: "dm \<Rightarrow> bool" where
  "dm_fresh d \<longleftrightarrow> dm_err d = 0 \<and> dm_auto d = 0 \<and> 2 \<le> length (dm_data d) \<and> 4 \<le> length (dm_prog d)"

context debug_module
begin

lemma learn_goes:
  assumes s: "ok (target s)" "pending (target s) = 0" "dm_fresh (view (target s))" "\<not> running s"
  shows "\<exists>s'. learn dmi s = Some (Inr ((), s')) \<and> dtm_invar ok pending view s' \<and> running s'
    \<and> dtm_mem view s' = dtm_mem view s \<and> ram_words s' = length (dm_prog (view (target s)))
    \<and> data_words s' = length (dm_data (view (target s))) \<and> current_hart s' = 0
    \<and> dm_harts (view (target s')) = (dm_harts (view (target s)))(0 := (dm_harts (view (target s)) 0)\<lparr>hart_halted := False\<rparr>)"
proof -
  define d where "d = view (target s)"
  define np nd where "np = length (dm_prog d)" and "nd = length (dm_data d)"
  obtain rw dw xl base nh h where cf: "config s = (rw, dw, xl, False, base, nh, h)" using s(4) by (simp add: config_def)
  have s0: "sees (rw, dw, xl, False, base, nh, h) d s" using s cf by (simp add: sees_def d_def)
  have len: "length (dm_data d) \<le> 12" using sizes_of [OF s0] by simp
  have d: "dm_err d = 0" "dm_auto d = 0" "2 \<le> nd" "4 \<le> np" using s(3) by (simp_all add: dm_fresh_def d_def nd_def np_def)
  note out = registers_outside [OF s0]
  obtain v1 s1 where s1: "dmi_read dmi DMI_ABSTRACTCS s = Some (Inr (v1, s1))"
    "unat (get_field v1 DMI_ABSTRACTCS_PROGSIZE) = np \<and> unat (get_field v1 DMI_ABSTRACTCS_DATACOUNT) = nd"
    "sees (rw, dw, xl, False, base, nh, h) d s1"
    by (rule read_finds [OF s0 out(5,6), where R = "\<lambda>v. unat (get_field v DMI_ABSTRACTCS_PROGSIZE) = np \<and>
        unat (get_field v DMI_ABSTRACTCS_DATACOUNT) = nd"]) (use room in \<open>unfold np_def nd_def, blast+\<close>)
  define s1' where "s1' = s1\<lparr>ram_words := np, data_words := nd\<rparr>"
  have s1': "sees (np, nd, xl, False, base, nh, h) d s1'" using s1(3) by (simp add: sees_def config_def s1'_def)
  obtain v2 s2 where s2: "dmi_read dmi DMI_HARTINFO s1' = Some (Inr (v2, s2))"
    "get_field v2 DMI_HARTINFO_NSCRATCH \<noteq> 0 \<and> get_field v2 DMI_HARTINFO_DATAACCESS \<noteq> 0"
    "sees (np, nd, xl, False, base, nh, h) d s2"
    by (rule read_finds [OF s1' out(3,4), where R = "\<lambda>v. get_field v DMI_HARTINFO_NSCRATCH \<noteq> 0 \<and>
        get_field v DMI_HARTINFO_DATAACCESS \<noteq> 0"]) (use info in blast)+
  define base' where "base' = get_field v2 DMI_HARTINFO_DATAADDR"
  have s2': "sees (np, nd, xl, False, base', nh, h) d (s2\<lparr>data_base := base'\<rparr>)"
    using s2(3) by (simp add: sees_def config_def)
  define d3 where "d3 = write_control DMI_DMCONTROL_DMACTIVE d"
  have d3: "dm_active d3" "dm_mem d3 = dm_mem d" "dm_harts d3 = dm_harts d" "dm_err d3 = 0" "dm_auto d3 = 0"
    "dm_data d3 = dm_data d" "dm_prog d3 = dm_prog d"
    using d by (simp_all add: d3_def write_control_active)
  obtain v3 s3 where s3: "dmi_write dmi DMI_DMCONTROL DMI_DMCONTROL_DMACTIVE (s2\<lparr>data_base := base'\<rparr>) = Some (Inr (v3, s3))"
    "sees (np, nd, xl, False, base', nh, h) d3 s3"
  proof (rule write_goes [OF s2'])
    show "access (wr DMI_DMCONTROL DMI_DMCONTROL_DMACTIVE) d = Some d3"
      "\<not> begins (wr DMI_DMCONTROL DMI_DMCONTROL_DMACTIVE) d"
      by (simp_all add: access_control [OF len] d3_def flag_bits)
  qed
  obtain n s4 h4 sel where s4: "enumerate_harts dmi s3 = Some (Inr (n, s4))"
    "sees (np, nd, xl, False, base', nh, h4) (d3\<lparr>dm_sel := sel\<rparr>) s4"
    by (rule enumerate_goes [OF s3(2) d3(1)])
  define d4 where "d4 = d3\<lparr>dm_sel := sel\<rparr>"
  have r4: "rests False d4" using d3 d by (simp add: rests_def d4_def nd_def np_def)
  define s4' where "s4' = s4\<lparr>num_harts := n\<rparr>"
  have s4': "sees (np, nd, xl, False, base', n, h4) d4 s4'" using s4(2) by (simp add: sees_def config_def d4_def s4'_def)
  obtain s5 where s5: "halt dmi 0 s4' = Some (Inr ((), s5))" "sees (np, nd, xl, False, base', n, 0) (halted_dm 0 d4) s5"
    using does_halt [OF _ r4, of 0 np nd xl base' n h4] s4' unfolding does_to_def by auto
  have held: "held 0 0 (dm_harts d4) (hart_regs (dm_harts d4 0)) (dm_mem d4) (halted_dm 0 d4)" by (rule held_halted [OF r4])
  obtain d6 s6 where s6: "get_xlen dmi s5 = Some (Inr (64, s6))" "sees (np, nd, xl, False, base', n, 0) d6 s6"
    "held 0 0 (dm_harts d4) (hart_regs (dm_harts d4 0)) (dm_mem d4) d6"
    using does_get_xlen [OF held, of np nd xl False base' n 0] s5(2) unfolding does_to_def by blast
  have s6': "sees (np, nd, 64, False, base', n, 0) d6 (s6\<lparr>xlen := 64\<rparr>)" using s6(2) by (simp add: sees_def config_def)
  obtain s7 where s7: "resume dmi 0 (s6\<lparr>xlen := 64\<rparr>) = Some (Inr ((), s7))"
    "sees (np, nd, 64, False, base', n, 0) (resumed_dm False d6) s7"
    using does_resume [of 0 d6 np nd 64 False base' n] s6' s6(3) unfolding does_to_def by (auto simp: held_def)
  have after: "after False 0 d4 (dm_mem d4) (resumed_dm False d6)" by (rule resumed_after [OF s6(3)])
  have 64: "get_field v2 DMI_HARTINFO_NSCRATCH > 0" using s2(2) by (simp add: word_neq_0_conv)
  have "learn dmi s = Some (Inr ((), s7\<lparr>running := True\<rparr>))"
    using s2(2) 64 s1(2)
    by (simp add: learn_def monad_simps s1(1) s1'_def [symmetric] s2(1) base'_def [symmetric] s3(1) s4(1) s4'_def [symmetric]
        s5(1) s6(1) s7(1))
  moreover have "dtm_invar ok pending view (s7\<lparr>running := True\<rparr>)"
    using s7(2) after d by (simp add: dtm_invar_def sees_def config_def after_def rests_def)
  ultimately show ?thesis
    using s7(2) after d3 by (auto simp: dtm_mem_def sees_def config_def after_def d4_def d_def np_def nd_def)
qed

end

end
