(* ===== verification/Context_switch.thy ===== *)
theory Context_switch
  imports Main
begin

text \<open>
  Coroutines on threads (\<^verbatim>\<open>context.h\<close>, \<^verbatim>\<open>context.cc\<close>, the variant without \<^verbatim>\<open>ucontext\<close>): every
  context has a thread, and \<^verbatim>\<open>switch_to\<close> hands control over with a flag, a mutex and a condition
  variable per context. All threads run at the same time, so the model is a step relation with
  one step per access to shared state. It shows what the rest of the program takes for granted:
  at most one context executes, and a switch always arrives. The variant on \<^verbatim>\<open>ucontext\<close> is at the
  end, and the threads are shown to implement it.
\<close>

section \<open>State\<close>

text \<open>
  The contexts are the elements of a finite type, the place of a context's thread in the code
  is its \<open>pc\<close>; \<open>Running\<close> is the code outside of \<^verbatim>\<open>context.cc\<close>. In a thread, \<^verbatim>\<open>cur\<close> is its own context.
\<close>

datatype 'c pc =
    Absent
  | Running
  | Clear_flag 'c | Raise_flag 'c | Lock_target 'c | Signal_target 'c | Unlock_target 'c
  | Lock_own | Test_flag | Wait_cond | Blocked | Relock_own | Unlock_own
  | Init_lock 'c | Init_clear 'c | Init_create 'c

record 'c contexts =
  flag :: "'c \<Rightarrow> bool"
  mutex :: "'c \<Rightarrow> 'c option"
  pc :: "'c \<Rightarrow> 'c pc"
  stopped :: bool

definition goto :: "'c \<Rightarrow> 'c pc \<Rightarrow> 'c contexts \<Rightarrow> 'c contexts" where
  "goto c p s = s\<lparr>pc := (pc s)(c := p)\<rparr>"

definition set_flag :: "'c \<Rightarrow> bool \<Rightarrow> 'c contexts \<Rightarrow> 'c contexts" where
  "set_flag c b s = s\<lparr>flag := (flag s)(c := b)\<rparr>"

definition set_mutex :: "'c \<Rightarrow> 'c option \<Rightarrow> 'c contexts \<Rightarrow> 'c contexts" where
  "set_mutex c t s = s\<lparr>mutex := (mutex s)(c := t)\<rparr>"

section \<open>Steps\<close>

text \<open>\<^verbatim>\<open>context_t::current()\<close> in the first thread.\<close>

definition first_context :: "'c \<Rightarrow> 'c contexts" where
  "first_context c = \<lparr>flag = (\<lambda>d. d = c), mutex = (\<lambda>_. None), pc = (\<lambda>d. if d = c then Running else Absent),
     stopped = False\<rparr>"

text \<open>The calls; a failed assertion stops the process.\<close>

definition switch_to :: "'c \<Rightarrow> 'c \<Rightarrow> 'c contexts \<Rightarrow> 'c contexts" where
  "switch_to c d s = (if d = c then s\<lparr>stopped := True\<rparr> else goto c (Clear_flag d) s)"

definition init_context :: "'c \<Rightarrow> 'c \<Rightarrow> 'c contexts \<Rightarrow> 'c contexts" where
  "init_context c e s = (if flag s e then s\<lparr>stopped := True\<rparr> else goto c (Init_lock e) s)"

text \<open>Taking a mutex, when it is free.\<close>

definition acquire :: "'c \<Rightarrow> 'c \<Rightarrow> 'c pc \<Rightarrow> 'c contexts \<Rightarrow> 'c contexts option" where
  "acquire m c p s = (if mutex s m = None then Some (goto c p (set_mutex m (Some c) s)) else None)"

text \<open>The rest of \<^verbatim>\<open>switch_to\<close>. Waiting on a condition variable releases the mutex.\<close>

definition wait_loop :: "'c \<Rightarrow> 'c contexts \<Rightarrow> 'c contexts option" where
  "wait_loop c s = (case pc s c of
     Test_flag \<Rightarrow> Some (goto c (if flag s c then Unlock_own else Wait_cond) s)
   | Wait_cond \<Rightarrow> Some (goto c Blocked (set_mutex c None s))
   | Relock_own \<Rightarrow> acquire c c Test_flag s
   | Unlock_own \<Rightarrow> Some (goto c Running (set_mutex c None s))
   | _ \<Rightarrow> None)"

definition advance_switch :: "'c \<Rightarrow> 'c contexts \<Rightarrow> 'c contexts option" where
  "advance_switch c s = (case pc s c of
     Clear_flag d \<Rightarrow> Some (goto c (Raise_flag d) (set_flag c False s))
   | Raise_flag d \<Rightarrow> Some (goto c (Lock_target d) (set_flag d True s))
   | Lock_target d \<Rightarrow> acquire d c (Signal_target d) s
   | Signal_target d \<Rightarrow> Some (goto c (Unlock_target d) (if pc s d = Blocked then goto d Relock_own s else s))
   | Unlock_target d \<Rightarrow> Some (goto c Lock_own (set_mutex d None s))
   | Lock_own \<Rightarrow> acquire c c Test_flag s
   | _ \<Rightarrow> wait_loop c s)"

text \<open>The rest of \<^verbatim>\<open>init\<close>: the new thread starts in \<^verbatim>\<open>wrapper\<close>, which switches back to the creator.\<close>

definition advance_init :: "'c \<Rightarrow> 'c contexts \<Rightarrow> 'c contexts option" where
  "advance_init c s = (case pc s c of
     Init_lock e \<Rightarrow> acquire c c (Init_clear e) s
   | Init_clear e \<Rightarrow> Some (goto c (Init_create e) (set_flag c False s))
   | Init_create e \<Rightarrow> Some (goto c Test_flag (goto e (Clear_flag c) s))
   | _ \<Rightarrow> None)"

definition advance :: "'c \<Rightarrow> 'c contexts \<Rightarrow> 'c contexts option" where
  "advance c s = (case advance_init c s of Some s' \<Rightarrow> Some s' | None \<Rightarrow> advance_switch c s)"

text \<open>
  \<open>internal\<close> is a step inside \<^verbatim>\<open>context.cc\<close>, \<open>wakes\<close> a wake-up of a waiting thread without a signal,
  which the condition variables of POSIX allow. A caller switches only to contexts that were
  created, and creates each of them once.
\<close>

inductive internal :: "'c contexts \<Rightarrow> 'c contexts \<Rightarrow> bool" where
  "\<not> stopped s \<Longrightarrow> advance c s = Some s' \<Longrightarrow> internal s s'"

inductive wakes :: "'c contexts \<Rightarrow> 'c contexts \<Rightarrow> bool" where
  "\<not> stopped s \<Longrightarrow> pc s c = Blocked \<Longrightarrow> wakes s (goto c Relock_own s)"

inductive calls :: "'c contexts \<Rightarrow> 'c contexts \<Rightarrow> bool" where
  call_switch: "\<not> stopped s \<Longrightarrow> pc s c = Running \<Longrightarrow> pc s d \<noteq> Absent \<Longrightarrow> calls s (switch_to c d s)"
| call_init: "\<not> stopped s \<Longrightarrow> pc s c = Running \<Longrightarrow> pc s e = Absent \<Longrightarrow> calls s (init_context c e s)"
| create_fails: "\<not> stopped s \<Longrightarrow> pc s c = Init_create e \<Longrightarrow> calls s (s\<lparr>stopped := True\<rparr>)"

inductive reached :: "'c \<Rightarrow> 'c contexts \<Rightarrow> bool" for root where
  start: "reached root (first_context root)"
| step: "reached root s \<Longrightarrow> internal s s' \<or> wakes s s' \<or> calls s s' \<Longrightarrow> reached root s'"

section \<open>The invariant\<close>

text \<open>Control is with the thread whose flag is set, or with one that is passing it on.\<close>

fun passing :: "'c pc \<Rightarrow> bool" where
  "passing (Clear_flag d) = True"
| "passing (Raise_flag d) = True"
| "passing (Init_lock d) = True"
| "passing (Init_clear d) = True"
| "passing (Init_create d) = True"
| "passing p = False"

fun lowered :: "'c pc \<Rightarrow> bool" where
  "lowered (Raise_flag d) = True"
| "lowered (Init_create d) = True"
| "lowered Absent = True"
| "lowered p = False"

fun active :: "'c pc \<Rightarrow> bool" where
  "active Running = True"
| "active Unlock_own = True"
| "active p = False"

fun waits :: "'c pc \<Rightarrow> bool" where
  "waits Wait_cond = True"
| "waits Blocked = True"
| "waits p = False"

fun holds_own :: "'c pc \<Rightarrow> bool" where
  "holds_own Test_flag = True"
| "holds_own Wait_cond = True"
| "holds_own Unlock_own = True"
| "holds_own (Init_clear e) = True"
| "holds_own (Init_create e) = True"
| "holds_own p = False"

fun holds_of :: "'c pc \<Rightarrow> 'c option" where
  "holds_of (Signal_target d) = Some d"
| "holds_of (Unlock_target d) = Some d"
| "holds_of p = None"

fun goal :: "'c pc \<Rightarrow> 'c option" where
  "goal (Clear_flag d) = Some d"
| "goal (Raise_flag d) = Some d"
| "goal (Lock_target d) = Some d"
| "goal (Signal_target d) = Some d"
| "goal (Unlock_target d) = Some d"
| "goal p = None"

fun creates :: "'c pc \<Rightarrow> 'c option" where
  "creates (Init_lock e) = Some e"
| "creates (Init_clear e) = Some e"
| "creates (Init_create e) = Some e"
| "creates p = None"

fun signals :: "'c pc \<Rightarrow> 'c option" where
  "signals (Lock_target d) = Some d"
| "signals (Signal_target d) = Some d"
| "signals p = None"

text \<open>Who has the token.\<close>

definition token_at :: "'c \<Rightarrow> 'c contexts \<Rightarrow> bool" where
  "token_at t s \<longleftrightarrow> (\<forall>c. c \<noteq> t \<longrightarrow> \<not> flag s c \<and> \<not> passing (pc s c) \<and> \<not> active (pc s c)) \<and>
     (flag s t \<or> passing (pc s t)) \<and> (lowered (pc s t) \<longrightarrow> \<not> flag s t) \<and> (active (pc s t) \<longrightarrow> flag s t)"

text \<open>Who holds a mutex.\<close>

definition holding :: "'c \<Rightarrow> 'c pc \<Rightarrow> 'c \<Rightarrow> bool" where
  "holding t p m \<longleftrightarrow> (t = m \<and> holds_own p) \<or> holds_of p = Some m"

definition mutex_inv :: "'c contexts \<Rightarrow> bool" where
  "mutex_inv s \<longleftrightarrow> (\<forall>m t. mutex s m = Some t \<longleftrightarrow> holding t (pc s t) m)"

text \<open>Targets exist, a context is created once, and a waiting thread with its flag set will be signalled.\<close>

definition target_inv :: "'c contexts \<Rightarrow> bool" where
  "target_inv s \<longleftrightarrow>
     (\<forall>c. goal (pc s c) \<noteq> Some c) \<and>
     (\<forall>c d. pc s d = Absent \<longrightarrow> goal (pc s c) \<noteq> Some d) \<and>
     (\<forall>c e. pc s e \<noteq> Absent \<longrightarrow> creates (pc s c) \<noteq> Some e)"

definition wakeup_inv :: "'c contexts \<Rightarrow> bool" where
  "wakeup_inv s \<longleftrightarrow> (\<forall>d. waits (pc s d) \<longrightarrow> flag s d \<longrightarrow> (\<exists>t. signals (pc s t) = Some d))"

lemmas step_defs = advance_def advance_init_def advance_switch_def wait_loop_def acquire_def goto_def set_flag_def set_mutex_def


lemma advance_cases [consumes 1]:
  assumes "advance c s = Some s'"
  obtains (clear) d where "pc s c = Clear_flag d" "s' = goto c (Raise_flag d) (set_flag c False s)"
  | (raise) d where "pc s c = Raise_flag d" "s' = goto c (Lock_target d) (set_flag d True s)"
  | (lock_target) d where "pc s c = Lock_target d" "mutex s d = None" "s' = goto c (Signal_target d) (set_mutex d (Some c) s)"
  | (signal) d where "pc s c = Signal_target d" "pc s d = Blocked" "s' = goto c (Unlock_target d) (goto d Relock_own s)"
  | (no_signal) d where "pc s c = Signal_target d" "pc s d \<noteq> Blocked" "s' = goto c (Unlock_target d) s"
  | (unlock_target) d where "pc s c = Unlock_target d" "s' = goto c Lock_own (set_mutex d None s)"
  | (lock_own) "pc s c = Lock_own \<or> pc s c = Relock_own" "mutex s c = None" "s' = goto c Test_flag (set_mutex c (Some c) s)"
  | (test) "pc s c = Test_flag" "s' = goto c (if flag s c then Unlock_own else Wait_cond) s"
  | (wait) "pc s c = Wait_cond" "s' = goto c Blocked (set_mutex c None s)"
  | (unlock_own) "pc s c = Unlock_own" "s' = goto c Running (set_mutex c None s)"
  | (init_lock) e where "pc s c = Init_lock e" "mutex s c = None" "s' = goto c (Init_clear e) (set_mutex c (Some c) s)"
  | (init_clear) e where "pc s c = Init_clear e" "s' = goto c (Init_create e) (set_flag c False s)"
  | (init_create) e where "pc s c = Init_create e" "s' = goto c Test_flag (goto e (Clear_flag c) s)"
proof -
  show thesis
    using assms that
    by (cases "pc s c") (auto simp: advance_def advance_init_def advance_switch_def wait_loop_def acquire_def
        split: if_splits)
qed

lemmas update_simps = goto_def set_flag_def set_mutex_def

lemma target_invD:
  assumes "target_inv s"
  shows "pc s c = Init_create e \<Longrightarrow> pc s e = Absent" "goal (pc s c) = Some d \<Longrightarrow> pc s d \<noteq> Absent"
    "goal (pc s c) \<noteq> Some c"
proof -
  show "pc s c = Init_create e \<Longrightarrow> pc s e = Absent"
    using assms creates.simps(3) [of e] unfolding target_inv_def by metis
  show "goal (pc s c) = Some d \<Longrightarrow> pc s d \<noteq> Absent" "goal (pc s c) \<noteq> Some c"
    using assms unfolding target_inv_def by metis+
qed

text \<open>The token moves when a flag is raised and when a thread is created.\<close>

fun passes_to :: "'c pc \<Rightarrow> 'c option" where
  "passes_to (Raise_flag d) = Some d"
| "passes_to (Init_create e) = Some e"
| "passes_to p = None"

lemma token_unique: "token_at t s \<Longrightarrow> flag s c \<or> passing (pc s c) \<or> active (pc s c) \<Longrightarrow> c = t"
  by (auto simp: token_at_def)

lemma advance_token:
  "advance c s = Some s' \<Longrightarrow> token_at t s \<Longrightarrow> target_inv s \<Longrightarrow>
     token_at (case passes_to (pc s c) of None \<Rightarrow> t | Some d \<Rightarrow> d) s'"
proof (induction rule: advance_cases)
  case (init_create e)
  then have "pc s e = Absent" "c = t" using token_unique [of t s c] by (auto simp: target_invD)
  then show ?case using init_create by (auto simp: token_at_def update_simps)
next
  case (raise d)
  then have "c = t" "d \<noteq> c" using target_invD(3) [of s c] token_unique [of t s c] by auto
  moreover have "\<not> lowered (pc s d)"
    using raise target_invD(2) [of s c d] token_unique [of t s d] calculation by (cases "pc s d") auto
  ultimately show ?case using raise by (auto simp: token_at_def update_simps)
next
  case (clear d)
  then have "c = t" using token_unique [of t s c] by simp
  then show ?case using clear by (auto simp: token_at_def update_simps)
next
  case (init_clear d)
  then have "c = t" using token_unique [of t s c] by simp
  then show ?case using init_clear by (auto simp: token_at_def update_simps)
next
  case (init_lock d)
  then have "c = t" using token_unique [of t s c] by simp
  then show ?case using init_lock by (auto simp: token_at_def update_simps)
qed (auto simp: token_at_def update_simps)

lemma mutex_invD: "mutex_inv s \<Longrightarrow> holding t (pc s t) m \<Longrightarrow> mutex s m = Some t"
  by (simp add: mutex_inv_def)

lemma mutex_keep:
  assumes "mutex_inv s" "\<And>m. holding c p m \<longleftrightarrow> holding c (pc s c) m"
  shows "mutex_inv (goto c p s)"
  using assms by (auto simp: mutex_inv_def update_simps)

lemma mutex_take:
  assumes "mutex_inv s" "mutex s m = None" "\<And>m'. \<not> holding c (pc s c) m'" "\<And>m'. holding c p m' \<longleftrightarrow> m' = m"
  shows "mutex_inv (goto c p (set_mutex m (Some c) s))"
proof -
  have "\<not> holding t (pc s t) m" for t using assms(2) mutex_invD [OF assms(1), of t m] by auto
  then show ?thesis using assms by (auto simp: mutex_inv_def update_simps)
qed

lemma mutex_release:
  assumes "mutex_inv s" "\<And>m'. holding c (pc s c) m' \<longleftrightarrow> m' = m" "\<And>m'. \<not> holding c p m'"
  shows "mutex_inv (goto c p (set_mutex m None s))"
proof -
  have "holding t (pc s t) m \<longleftrightarrow> t = c" for t
    using mutex_invD [OF assms(1), of t m] mutex_invD [OF assms(1), of c m] assms(2) by auto
  then show ?thesis using assms by (auto simp: mutex_inv_def update_simps)
qed

lemma set_flag_mutex: "mutex_inv (set_flag c b s) = mutex_inv s" "pc (set_flag c b s) = pc s" "mutex (set_flag c b s) = mutex s"
  by (simp_all add: mutex_inv_def set_flag_def)

lemma goto_pc: "pc (goto c p s) d = (if d = c then p else pc s d)"
  by (simp add: goto_def)

lemma advance_mutex: "advance c s = Some s' \<Longrightarrow> mutex_inv s \<Longrightarrow> target_inv s \<Longrightarrow> mutex_inv s'"
proof (induction rule: advance_cases)
  case (init_create e)
  then have e: "pc s e = Absent" by (simp add: target_invD)
  have "mutex_inv (goto e (Clear_flag c) s)" using init_create(3) e by (intro mutex_keep) (auto simp: holding_def)
  then have "mutex_inv (goto c Test_flag (goto e (Clear_flag c) s))"
    using init_create(1) e by (elim mutex_keep) (auto simp: holding_def goto_pc)
  then show ?case using init_create(2) by simp
next
  case (signal d)
  then have "mutex_inv (goto d Relock_own s)" by (intro mutex_keep) (auto simp: holding_def)
  moreover have "c \<noteq> d" using signal by auto
  ultimately have "mutex_inv (goto c (Unlock_target d) (goto d Relock_own s))"
    using signal(1) by (elim mutex_keep) (auto simp: holding_def goto_pc)
  then show ?case using signal(3) by simp
next
  case (lock_target d)
  then have "d \<noteq> c" using target_invD(3) [of s c] by auto
  with lock_target show ?case by (auto intro!: mutex_take simp: holding_def)
next
  case (unlock_target d)
  then show ?case by (auto intro!: mutex_release simp: holding_def)
next
  case lock_own
  then show ?case by (auto intro!: mutex_take simp: holding_def)
next
  case wait
  then show ?case by (auto intro!: mutex_release simp: holding_def)
next
  case unlock_own
  then show ?case by (auto intro!: mutex_release simp: holding_def)
next
  case (init_lock e)
  then show ?case by (auto intro!: mutex_take simp: holding_def)
qed (auto intro!: mutex_keep simp: holding_def set_flag_mutex)

lemma target_step:
  assumes "target_inv s" "\<And>k. pc s' k = Absent \<longleftrightarrow> pc s k = Absent"
    and "\<And>k d. goal (pc s' k) = Some d \<Longrightarrow> goal (pc s k) = Some d"
    and "\<And>k e. creates (pc s' k) = Some e \<Longrightarrow> creates (pc s k) = Some e"
  shows "target_inv s'"
  using assms unfolding target_inv_def by metis

lemma advance_target: "advance c s = Some s' \<Longrightarrow> target_inv s \<Longrightarrow> token_at t s \<Longrightarrow> target_inv s'"
proof (induction rule: advance_cases)
  case (init_create e)
  then have e: "pc s e = Absent" by (simp add: target_invD)
  have "creates (pc s d) = None" if "d \<noteq> c" for d
  proof -
    have "\<not> passing (pc s d)" using init_create(1,4) that token_unique [of t s] by (metis passing.simps(5))
    then show ?thesis by (cases "pc s d") simp_all
  qed
  with e show ?case using init_create by (auto simp: target_inv_def update_simps)
qed ((erule target_step; auto simp: update_simps split: if_splits)+)

lemma wakeup_step:
  assumes "wakeup_inv s"
    and "\<And>k. waits (pc s' k) \<Longrightarrow> flag s' k \<Longrightarrow>
      signals (pc s' c) = Some k \<or> waits (pc s k) \<and> flag s k \<and> signals (pc s c) \<noteq> Some k"
    and "\<And>t. t \<noteq> c \<Longrightarrow> signals (pc s t) \<noteq> None \<Longrightarrow> pc s' t = pc s t"
  shows "wakeup_inv s'"
  unfolding wakeup_inv_def
proof (intro allI impI)
  fix k assume k: "waits (pc s' k)" "flag s' k"
  show "\<exists>t. signals (pc s' t) = Some k"
  proof (cases "signals (pc s' c) = Some k")
    case False
    then have old: "waits (pc s k)" "flag s k" "signals (pc s c) \<noteq> Some k" using assms(2) [OF k] by auto
    then obtain t where t: "signals (pc s t) = Some k" using assms(1) by (auto simp: wakeup_inv_def)
    then have "t \<noteq> c" using old by auto
    with t assms(3) [of t] show ?thesis by (intro exI [of _ t]) simp
  qed blast
qed

lemma advance_wakeup: "advance c s = Some s' \<Longrightarrow> wakeup_inv s \<Longrightarrow> mutex_inv s \<Longrightarrow> target_inv s \<Longrightarrow> wakeup_inv s'"
proof (induction rule: advance_cases)
  case (no_signal d)
  have "d \<noteq> c" using no_signal target_invD(3) [of s c] by auto
  moreover have "mutex s d = Some c" using no_signal by (intro mutex_invD) (simp_all add: holding_def)
  ultimately have "pc s d \<noteq> Wait_cond" using mutex_invD [OF no_signal(5), of d d] by (auto simp: holding_def)
  then have "\<not> waits (pc s d)" using no_signal by (cases "pc s d") auto
  then show ?case using no_signal
    by (intro wakeup_step [where c = c, OF no_signal(4)]) (auto simp: update_simps split: if_splits)
next
  case (signal d)
  then show ?case
    by (intro wakeup_step [where c = c, OF signal(4)]) (auto simp: update_simps split: if_splits)
next
  case (init_create e)
  then have e: "pc s e = Absent" by (simp add: target_invD)
  with init_create show ?case
    by (intro wakeup_step [where c = c, OF init_create(3)]) (auto simp: update_simps split: if_splits)
qed ((erule wakeup_step [where c = c]; auto simp: update_simps split: if_splits)+)


section \<open>Reached states\<close>

definition contexts_inv :: "'c contexts \<Rightarrow> bool" where
  "contexts_inv s \<longleftrightarrow> (\<exists>t. token_at t s) \<and> mutex_inv s \<and> target_inv s \<and> wakeup_inv s"

lemma first_context_inv: "contexts_inv (first_context c)"
proof -
  have "token_at c (first_context c)" by (simp add: token_at_def first_context_def)
  then show ?thesis
    by (auto simp: contexts_inv_def mutex_inv_def holding_def target_inv_def wakeup_inv_def first_context_def)
qed

lemma stop_inv: "contexts_inv s \<Longrightarrow> contexts_inv (s\<lparr>stopped := b\<rparr>)"
  by (auto simp: contexts_inv_def token_at_def mutex_inv_def target_inv_def wakeup_inv_def)

lemma internal_inv: "internal s s' \<Longrightarrow> contexts_inv s \<Longrightarrow> contexts_inv s'"
  unfolding contexts_inv_def
  by (auto elim!: internal.cases intro: advance_token advance_mutex advance_target advance_wakeup)

lemma wakes_inv:
  assumes "wakes s s'" "contexts_inv s"
  shows "contexts_inv s'"
proof -
  obtain c where c: "pc s c = Blocked" "s' = goto c Relock_own s" using assms(1) by (auto elim: wakes.cases)
  have "token_at t s'" if "token_at t s" for t using that c by (auto simp: token_at_def update_simps)
  moreover have "mutex_inv s'" unfolding c(2)
    using assms(2) c(1) by (intro mutex_keep) (auto simp: contexts_inv_def holding_def)
  moreover have "target_inv s'" using assms(2) c
    by (intro target_step [of s s']) (auto simp: contexts_inv_def update_simps split: if_splits)
  moreover have "wakeup_inv s'" using assms(2) c
    by (intro wakeup_step [of s s' c]) (auto simp: contexts_inv_def update_simps split: if_splits)
  ultimately show ?thesis using assms(2) by (auto simp: contexts_inv_def)
qed

lemma call_inv:
  assumes "contexts_inv s" "pc s c = Running"
    and "p = Clear_flag d \<and> pc s d \<noteq> Absent \<and> d \<noteq> c \<or> p = Init_lock e \<and> pc s e = Absent"
  shows "contexts_inv (goto c p s)"
proof -
  obtain t where t: "token_at t s" and inv: "mutex_inv s" "target_inv s" "wakeup_inv s"
    using assms(1) by (auto simp: contexts_inv_def)
  then have "c = t" using token_unique [of t s c] assms(2) by simp
  then have "token_at t (goto c p s)" using t assms(2,3) by (auto simp: token_at_def update_simps)
  moreover have "holding c p m \<longleftrightarrow> holding c (pc s c) m" for m using assms(2,3) by (auto simp: holding_def)
  then have "mutex_inv (goto c p s)" by (rule mutex_keep [OF inv(1)])
  moreover have "target_inv (goto c p s)" using inv(2) assms(2,3) by (auto simp: target_inv_def update_simps)
  moreover have "wakeup_inv (goto c p s)"
    by (rule wakeup_step [OF inv(3), of _ c]) (use assms(2,3) in \<open>auto simp: update_simps split: if_splits\<close>)
  ultimately show ?thesis by (auto simp: contexts_inv_def)
qed

lemma calls_inv:
  assumes "calls s s'" "contexts_inv s"
  shows "contexts_inv s'"
  using assms
proof cases
  case (call_switch c d)
  then show ?thesis using assms(2) stop_inv [of s] call_inv [of s c "Clear_flag d" d] by (auto simp: switch_to_def)
next
  case (call_init c e)
  then show ?thesis using assms(2) stop_inv [of s] call_inv [of s c "Init_lock e" _ e] by (auto simp: init_context_def)
next
  case (create_fails c e)
  then show ?thesis using assms(2) stop_inv [of s] by simp
qed

lemma reached_inv: "reached root s \<Longrightarrow> contexts_inv s"
proof (induction rule: reached.induct)
  case (step s s')
  then show ?case using internal_inv [of s s'] wakes_inv [of s s'] calls_inv [of s s'] by blast
qed (rule first_context_inv)

section \<open>Handing over\<close>

text \<open>Whom the one with the token will hand it to.\<close>

definition aim :: "'c contexts \<Rightarrow> 'c \<Rightarrow> 'c" where
  "aim s t = (case pc s t of Clear_flag d \<Rightarrow> d | Raise_flag d \<Rightarrow> d | _ \<Rightarrow> t)"

lemma advance_aim:
  assumes "advance c s = Some s'" "token_at t s" "target_inv s"
  shows "aim s' (case passes_to (pc s c) of None \<Rightarrow> t | Some d \<Rightarrow> d) = aim s t"
  using assms
proof (induction rule: advance_cases)
  case (init_create e)
  then have "pc s e = Absent" "c = t" using token_unique [of t s c] by (auto simp: target_invD)
  then show ?case using init_create by (auto simp: aim_def update_simps)
next
  case (raise d)
  then have "c = t" "d \<noteq> c" using target_invD(3) [of s c] token_unique [of t s c] by auto
  moreover have "\<not> passing (pc s d)" using token_unique [of t s d] raise calculation by auto
  ultimately show ?case using raise by (cases "pc s d") (auto simp: aim_def update_simps)
next
  case (clear d)
  then have "c = t" using token_unique [of t s c] by simp
  then show ?case using clear by (simp add: aim_def update_simps)
next
  case (init_lock e)
  then have "c = t" using token_unique [of t s c] by simp
  then show ?case using init_lock by (simp add: aim_def update_simps)
next
  case (init_clear e)
  then have "c = t" using token_unique [of t s c] by simp
  then show ?case using init_clear by (simp add: aim_def update_simps)
next
  case lock_own
  then show ?case by (elim disjE) (simp_all add: aim_def update_simps)
qed (simp_all add: aim_def update_simps)

text \<open>The work left in \<^verbatim>\<open>context.cc\<close>: a signal pays for the thread it wakes.\<close>

fun rank :: "'c pc \<Rightarrow> nat" where
  "rank Absent = 0"
| "rank Running = 0"
| "rank Blocked = 0"
| "rank Unlock_own = 1"
| "rank Wait_cond = 1"
| "rank Test_flag = 2"
| "rank Lock_own = 3"
| "rank Relock_own = 3"
| "rank (Unlock_target d) = 4"
| "rank (Signal_target d) = 8"
| "rank (Lock_target d) = 9"
| "rank (Raise_flag d) = 10"
| "rank (Clear_flag d) = 11"
| "rank (Init_create e) = 14"
| "rank (Init_clear e) = 15"
| "rank (Init_lock e) = 16"

definition effort :: "'c::finite contexts \<Rightarrow> nat" where
  "effort s = (\<Sum>c\<in>UNIV. rank (pc s c))"

lemma effort_goto: "effort (goto c p s) + rank (pc s c) = effort s + rank p"
proof -
  have "(\<Sum>d\<in>UNIV - {c}. rank (pc (goto c p s) d)) = (\<Sum>d\<in>UNIV - {c}. rank (pc s d))"
    by (intro sum.cong) (auto simp: goto_pc)
  then show ?thesis by (simp add: effort_def sum.remove [of UNIV c] goto_pc)
qed

lemma effort_set: "effort (set_flag c b s) = effort s" "effort (set_mutex c m s) = effort s"
  by (simp_all add: effort_def update_simps)

lemma pc_set: "pc (set_flag c b s) = pc s" "pc (set_mutex c m s) = pc s"
  by (simp_all add: update_simps)

lemma effort_less:
  "rank p < rank (pc s c) \<Longrightarrow> effort (goto c p s) < effort s"
  "rank p < rank (pc s c) \<Longrightarrow> effort (goto c p (set_flag d b s)) < effort s"
  "rank p < rank (pc s c) \<Longrightarrow> effort (goto c p (set_mutex d m s)) < effort s"
  using effort_goto [of c p s] effort_goto [of c p "set_flag d b s"] effort_goto [of c p "set_mutex d m s"]
  by (simp_all add: effort_set pc_set)

lemma advance_effort:
  assumes "advance c s = Some s'" "target_inv s"
  shows "effort s' < effort s"
  using assms
proof (induction rule: advance_cases)
  case (init_create e)
  then have "pc s e = Absent" by (simp add: target_invD)
  moreover have "c \<noteq> e" using calculation init_create by auto
  ultimately show ?case using init_create effort_goto [of e "Clear_flag c" s] effort_goto [of c Test_flag "goto e (Clear_flag c) s"]
    by (auto simp: goto_pc)
next
  case (signal d)
  then show ?case using effort_goto [of d Relock_own s] effort_goto [of c "Unlock_target d" "goto d Relock_own s"]
    by (auto simp: goto_pc split: if_splits)
qed (auto intro!: effort_less)

lemma token_step:
  assumes "internal s s'" "token_at t s" "target_inv s"
  shows "\<exists>t'. token_at t' s' \<and> aim s' t' = aim s t"
proof -
  obtain c where c: "advance c s = Some s'" using assms(1) by (auto elim: internal.cases)
  show ?thesis using advance_token [OF c assms(2,3)] advance_aim [OF c assms(2,3)] by blast
qed

lemma wakes_step:
  assumes "wakes s s'" "token_at t s"
  shows "token_at t s' \<and> aim s' t = aim s t \<and> effort s' = effort s + 3"
proof -
  obtain c where c: "pc s c = Blocked" "s' = goto c Relock_own s" using assms(1) by (auto elim: wakes.cases)
  then show ?thesis using assms(2) effort_goto [of c Relock_own s] by (auto simp: token_at_def aim_def update_simps)
qed

text \<open>\<open>quiet n k s s'\<close>: from \<open>s\<close> to \<open>s'\<close> in \<open>n\<close> internal steps and \<open>k\<close> wake-ups, without a call.\<close>

inductive quiet :: "nat \<Rightarrow> nat \<Rightarrow> 'c contexts \<Rightarrow> 'c contexts \<Rightarrow> bool" where
  quiet_none: "quiet 0 0 s s"
| quiet_step: "quiet n k s s' \<Longrightarrow> internal s' s'' \<Longrightarrow> quiet (Suc n) k s s''"
| quiet_wake: "quiet n k s s' \<Longrightarrow> wakes s' s'' \<Longrightarrow> quiet n (Suc k) s s''"

lemma quiet_invariants:
  assumes "quiet n k s s'" "contexts_inv s" "token_at t s" "\<not> stopped s"
  shows "contexts_inv s' \<and> (\<exists>t'. token_at t' s' \<and> aim s' t' = aim s t) \<and> \<not> stopped s' \<and> n + effort s' \<le> effort s + 3 * k"
  using assms
proof (induction rule: quiet.induct)
  case (quiet_step n k s s' s'')
  then obtain t' where t': "contexts_inv s'" "token_at t' s'" "aim s' t' = aim s t" "\<not> stopped s'" "n + effort s' \<le> effort s + 3 * k"
    by blast
  then have tgt: "target_inv s'" by (simp add: contexts_inv_def)
  obtain c where c: "advance c s' = Some s''" using quiet_step.hyps(2) by (auto elim: internal.cases)
  have "stopped s'' = stopped s'" using c by (cases rule: advance_cases) (simp_all add: update_simps)
  moreover have "effort s'' < effort s'" by (rule advance_effort [OF c tgt])
  ultimately show ?case
    using token_step [OF quiet_step.hyps(2) t'(2) tgt] internal_inv [OF quiet_step.hyps(2) t'(1)] t' by auto
next
  case (quiet_wake n k s s' s'')
  then obtain t' where t': "contexts_inv s'" "token_at t' s'" "aim s' t' = aim s t" "\<not> stopped s'" "n + effort s' \<le> effort s + 3 * k"
    by blast
  have "stopped s'' = stopped s'" using quiet_wake.hyps(2) by (auto elim!: wakes.cases simp: update_simps)
  then show ?case
    using wakes_step [OF quiet_wake.hyps(2) t'(2)] wakes_inv [OF quiet_wake.hyps(2) t'(1)] t' by auto
qed auto

text \<open>A thread that cannot go on waits for a mutex, or is outside of \<^verbatim>\<open>context.cc\<close>, or is blocked.\<close>

lemma advance_None:
  "advance c s = None \<longleftrightarrow> pc s c \<in> {Absent, Running, Blocked} \<or>
     (\<exists>m. (pc s c = Lock_target m \<or> m = c \<and> (pc s c = Lock_own \<or> pc s c = Relock_own \<or> (\<exists>e. pc s c = Init_lock e)))
       \<and> mutex s m \<noteq> None)"
  by (cases "pc s c") (auto simp: advance_def advance_init_def advance_switch_def wait_loop_def acquire_def)

lemma holder_advances: "holding c (pc s c) m \<Longrightarrow> advance c s \<noteq> None"
  by (cases "pc s c") (auto simp: advance_None holding_def)

lemma stuck_runs:
  assumes "contexts_inv s" "\<not> stopped s" "\<And>s'. \<not> internal s s'" "token_at t s"
  shows "pc s t = Running" "aim s t = t" "pc s c = Running \<or> pc s c = Blocked \<or> pc s c = Absent"
proof -
  have none: "advance c s = None" for c
    using assms(2,3) by (metis internal.intros not_Some_eq)
  have "mutex s m = None" for m
  proof (rule ccontr)
    assume "mutex s m \<noteq> None"
    then obtain u where "holding u (pc s u) m" using assms(1) by (auto simp: contexts_inv_def mutex_inv_def)
    then show False using holder_advances none by metis
  qed
  then have idle: "pc s c = Running \<or> pc s c = Blocked \<or> pc s c = Absent" for c
    using none [of c] by (auto simp: advance_None)
  show "pc s c = Running \<or> pc s c = Blocked \<or> pc s c = Absent" by (rule idle)
  have "\<not> passing (pc s t)" using idle [of t] by auto
  then have f: "flag s t" using assms(4) by (simp add: token_at_def)
  have "pc s t \<noteq> Absent" using assms(4) f by (auto simp: token_at_def)
  moreover have "pc s t \<noteq> Blocked"
  proof
    assume "pc s t = Blocked"
    then have "waits (pc s t)" by simp
    then obtain u where "signals (pc s u) = Some t"
      using assms(1) f unfolding contexts_inv_def wakeup_inv_def by blast
    then show False using idle [of u] by auto
  qed
  ultimately show "pc s t = Running" using idle [of t] by blast
  then show "aim s t = t" by (simp add: aim_def)
qed

lemma arrives:
  fixes s :: "'c::finite contexts"
  assumes "contexts_inv s" "token_at t s" "\<not> stopped s" "quiet n k s s'" "\<And>s''. \<not> internal s' s''"
  shows "pc s' (aim s t) = Running"
proof -
  obtain t' where t': "contexts_inv s'" "token_at t' s'" "aim s' t' = aim s t" "\<not> stopped s'"
    using quiet_invariants [OF assms(4,1-3)] by blast
  then show ?thesis using stuck_runs [OF t'(1,4) assms(5) t'(2)] by simp
qed


section \<open>A run\<close>

text \<open>The threads make their steps in the order of a list.\<close>

fun advances :: "'c list \<Rightarrow> 'c contexts \<Rightarrow> 'c contexts option" where
  "advances [] s = Some s"
| "advances (c # cs) s = (case advance c s of None \<Rightarrow> None | Some s' \<Rightarrow> advances cs s')"

lemma advance_internal: "advance c s = Some s' \<Longrightarrow> \<not> stopped s \<Longrightarrow> internal s s' \<and> \<not> stopped s'"
  by (rule conjI, blast intro: internal.intros, induction rule: advance_cases) (simp_all add: update_simps)

lemma advances_run:
  "advances cs s = Some s' \<Longrightarrow> \<not> stopped s \<Longrightarrow> reached root s \<Longrightarrow> quiet n k t s \<Longrightarrow>
     reached root s' \<and> \<not> stopped s' \<and> quiet (n + length cs) k t s'"
proof (induction cs arbitrary: s n)
  case (Cons c cs)
  then obtain s1 where s1: "advance c s = Some s1" "advances cs s1 = Some s'" by (auto split: option.splits)
  have i: "internal s s1" "\<not> stopped s1" using advance_internal [OF s1(1) Cons.prems(2)] by auto
  have "reached root s1" "quiet (Suc n) k t s1"
    using reached.step [OF Cons.prems(3)] quiet_step [OF Cons.prems(4)] i by auto
  then show ?case using Cons.IH [OF s1(2) i(2), of "Suc n"] by simp
qed simp

text \<open>The first context creates a second one; then it switches to it.\<close>

definition two_contexts :: "bool contexts" where
  "two_contexts = the (advances [True, True, True, False, False, True, True, False, False, False, False, False, False]
     (init_context True False (first_context True)))"

definition second_runs :: "bool contexts" where
  "second_runs = the (advances [True, True, True, True, True, True, True, True, False, False, False]
     (switch_to True False two_contexts))"

lemma two_contexts: "reached True two_contexts" "\<not> stopped two_contexts" "pc two_contexts True = Running" "pc two_contexts False = Blocked"
proof -
  have a: "advances [True, True, True, False, False, True, True, False, False, False, False, False, False]
     (init_context True False (first_context True)) = Some two_contexts"
    unfolding two_contexts_def option.collapse by code_simp
  have c: "calls (first_context True) (init_context True False (first_context True))"
    by (rule call_init) (simp_all add: first_context_def)
  have "reached True (init_context True False (first_context True))" "\<not> stopped (init_context True False (first_context True))"
    by (rule reached.step [OF reached.start], use c in blast) (simp add: init_context_def first_context_def goto_def)
  then show "reached True two_contexts" "\<not> stopped two_contexts"
    using advances_run [OF a _ _ quiet_none] by auto
  show "pc two_contexts True = Running" "pc two_contexts False = Blocked" by code_simp+
qed

lemma second_runs: "quiet 11 0 (switch_to True False two_contexts) second_runs" "\<nexists>s. internal second_runs s"
proof -
  have a: "advances [True, True, True, True, True, True, True, True, False, False, False]
     (switch_to True False two_contexts) = Some second_runs"
    unfolding second_runs_def option.collapse by code_simp
  have "calls two_contexts (switch_to True False two_contexts)"
    by (rule call_switch) (simp_all add: two_contexts)
  then have "reached True (switch_to True False two_contexts)" "\<not> stopped (switch_to True False two_contexts)"
    using reached.step [OF two_contexts(1)] two_contexts(2) by (auto simp: switch_to_def goto_def)
  then show "quiet 11 0 (switch_to True False two_contexts) second_runs"
    using advances_run [OF a, of True 0 0 "switch_to True False two_contexts"] quiet_none
    by (auto simp: eval_nat_numeral)
  have "advance True second_runs = None" "advance False second_runs = None" by code_simp+
  then show "\<nexists>s. internal second_runs s" by (metis (full_types) internal.cases option.distinct(1))
qed

section \<open>The variant on \<^verbatim>\<open>ucontext\<close>\<close>

text \<open>
  Here \<^verbatim>\<open>swapcontext\<close> and \<^verbatim>\<open>makecontext\<close> of the library make a switch one step: \<open>cur\<close> is the thread-local
  variable of the code, the context that executes, and \<open>started\<close> are the contexts that have a stack. A
  failed assertion is \<open>None\<close>. The new context starts in \<^verbatim>\<open>wrapper\<close>, which switches back at once.
\<close>

record 'c coroutines =
  cur :: 'c
  started :: "'c set"

definition u_current :: "'c \<Rightarrow> 'c coroutines" where
  "u_current c = \<lparr>cur = c, started = {c}\<rparr>"

definition u_switch_to :: "'c \<Rightarrow> 'c coroutines \<Rightarrow> 'c coroutines option" where
  "u_switch_to d u = (if d = cur u then None else Some (u\<lparr>cur := d\<rparr>))"

definition u_wrapper :: "'c \<Rightarrow> 'c coroutines \<Rightarrow> 'c coroutines option" where
  "u_wrapper creator u = u_switch_to creator u"

definition u_init :: "'c \<Rightarrow> 'c coroutines \<Rightarrow> 'c coroutines option" where
  "u_init e u =
     (let creator = cur u; u = u\<lparr>started := insert e (started u)\<rparr> in
      Option.bind (u_switch_to e u) (u_wrapper creator))"

inductive u_step :: "'c coroutines \<Rightarrow> 'c coroutines \<Rightarrow> bool" where
  u_call: "d \<in> started u \<Longrightarrow> u_switch_to d u = Some u' \<Longrightarrow> u_step u u'"
| u_create: "e \<notin> started u \<Longrightarrow> u_init e u = Some u' \<Longrightarrow> u_step u u'"

text \<open>
  The threads implement these coroutines: the context that has the token, or will be handed it, is
  the one that executes, and every step of a thread is a step of the coroutines or none.
\<close>

definition alive :: "'c contexts \<Rightarrow> 'c set" where
  "alive s = {c. pc s c \<noteq> Absent}"

definition coupled :: "'c contexts \<Rightarrow> 'c coroutines \<Rightarrow> bool" where
  "coupled s u \<longleftrightarrow> (\<exists>t. token_at t s \<and> cur u = aim s t) \<and> started u = alive s"

lemma alive_mem: "c \<in> alive s \<longleftrightarrow> pc s c \<noteq> Absent"
  by (simp add: alive_def)

lemma alive_goto: "alive (goto c p s) = (if p = Absent then alive s - {c} else insert c (alive s))"
  by (auto simp: alive_def goto_def)

lemma alive_set: "alive (set_flag c b s) = alive s" "alive (set_mutex c m s) = alive s"
  by (simp_all add: alive_def set_flag_def set_mutex_def)

lemma alive_here: "pc s c \<noteq> Absent \<Longrightarrow> insert c (alive s) = alive s"
  by (auto simp: alive_def)

lemma coupled_first: "coupled (first_context c) (u_current c)"
  by (auto simp: coupled_def token_at_def first_context_def u_current_def aim_def alive_def)

lemma coupled_runs: "coupled s u \<Longrightarrow> pc s c = Running \<Longrightarrow> cur u = c"
  using token_unique [of _ s c] by (fastforce simp: coupled_def aim_def)

lemma advance_started:
  assumes "advance c s = Some s'" and "\<And>e. pc s c \<noteq> Init_create e"
  shows "alive s' = alive s"
  using assms by (cases rule: advance_cases) (auto simp: alive_goto alive_set alive_mem)

lemma internal_coupled:
  assumes i: "internal s s'" and u: "coupled s u" and inv: "contexts_inv s"
  shows "coupled s' u \<or> (\<exists>u'. coupled s' u' \<and> u_step u u')"
proof -
  have tgt: "target_inv s" using inv by (simp add: contexts_inv_def)
  obtain t where t: "token_at t s" "cur u = aim s t" and st: "started u = alive s"
    using u by (auto simp: coupled_def)
  obtain t' where t': "token_at t' s'" "aim s' t' = aim s t" using token_step [OF i t(1) tgt] by blast
  obtain c where c: "advance c s = Some s'" using i by (auto elim: internal.cases)
  show ?thesis
  proof (cases "\<exists>e. pc s c = Init_create e")
    case True
    then obtain e where e: "pc s c = Init_create e" by blast
    then have "c = t" using token_unique [OF t(1), of c] by simp
    then have cc: "cur u = c" using t(2) e by (simp add: aim_def)
    have a: "pc s e = Absent" by (rule target_invD(1) [OF tgt e])
    then have ne: "e \<noteq> c" "e \<notin> started u" using e by (auto simp: st alive_mem)
    have "s' = goto c Test_flag (goto e (Clear_flag c) s)" using c e by (simp add: advance_def advance_init_def)
    then have "alive s' = insert e (started u)" using e by (auto simp: st alive_goto alive_mem)
    then have "coupled s' (u\<lparr>started := insert e (started u)\<rparr>)" using t' t(2) by (auto simp: coupled_def)
    moreover have "u_init e u = Some (u\<lparr>started := insert e (started u)\<rparr>)"
      using cc ne by (simp add: u_init_def u_switch_to_def u_wrapper_def)
    ultimately show ?thesis using u_create [OF ne(2)] by blast
  next
    case False
    then show ?thesis using advance_started [OF c] t t' st by (auto simp: coupled_def)
  qed
qed

lemma calls_coupled:
  assumes c: "calls s s'" and u: "coupled s u" and inv: "contexts_inv s" and go: "\<not> stopped s'"
  shows "coupled s' u \<or> (\<exists>u'. coupled s' u' \<and> u_step u u')"
proof -
  obtain t where t: "token_at t s'" using calls_inv [OF c inv] by (auto simp: contexts_inv_def)
  have st: "started u = alive s" using u by (simp add: coupled_def)
  show ?thesis
    using c
  proof cases
    case (call_switch c d)
    then have n: "d \<noteq> c" and s': "s' = goto c (Clear_flag d) s" using go by (auto simp: switch_to_def split: if_splits)
    have "t = c" using token_unique [OF t, of c] s' by (simp add: goto_def)
    then have cp: "coupled s' (u\<lparr>cur := d\<rparr>)"
      using t s' st call_switch(3) by (auto simp: coupled_def aim_def goto_pc alive_goto alive_here)
    have sw: "u_switch_to d u = Some (u\<lparr>cur := d\<rparr>)"
      using n coupled_runs [OF u call_switch(3)] by (simp add: u_switch_to_def)
    have dm: "d \<in> started u" using call_switch(4) by (simp add: st alive_mem)
    show ?thesis using cp u_call [OF dm sw] by (intro disjI2 exI conjI)
  next
    case (call_init c e)
    then have s': "s' = goto c (Init_lock e) s" using go by (auto simp: init_context_def split: if_splits)
    have "t = c" using token_unique [OF t, of c] s' by (simp add: goto_def)
    then have "coupled s' u"
      using t s' st call_init(3) coupled_runs [OF u call_init(3)]
      by (auto simp: coupled_def aim_def goto_pc alive_goto alive_here)
    then show ?thesis ..
  next
    case (create_fails c e)
    then show ?thesis using go by simp
  qed
qed

lemma wakes_coupled:
  assumes w: "wakes s s'" and u: "coupled s u"
  shows "coupled s' u"
proof -
  obtain t where t: "token_at t s" "cur u = aim s t" "started u = alive s" using u by (auto simp: coupled_def)
  obtain c where c: "pc s c = Blocked" "s' = goto c Relock_own s" using w by (auto elim: wakes.cases)
  then have "alive s' = alive s" by (simp add: alive_goto alive_here)
  moreover have "token_at t s'" "aim s' t = aim s t" using t(1) c by (auto simp: token_at_def aim_def update_simps)
  ultimately show ?thesis using t(2,3) by (auto simp: coupled_def)
qed

lemma internal_from: "internal s s' \<Longrightarrow> \<not> stopped s"
  by (induction rule: internal.induct)

lemma wakes_from: "wakes s s' \<Longrightarrow> \<not> stopped s"
  by (induction rule: wakes.induct)

lemma calls_from: "calls s s' \<Longrightarrow> \<not> stopped s"
  by (induction rule: calls.induct)

lemma reached_coupled:
  assumes "reached root s" and "\<not> stopped s"
  shows "\<exists>u. u_step\<^sup>*\<^sup>* (u_current root) u \<and> coupled s u"
  using assms
proof (induction rule: reached.induct)
  case start
  show ?case by (intro exI conjI) (rule rtranclp.rtrancl_refl, rule coupled_first)
next
  case (step s s')
  have "\<not> stopped s" using step.hyps(2)
    by (elim disjE) (rule internal_from wakes_from calls_from, assumption)+
  then obtain u where u: "u_step\<^sup>*\<^sup>* (u_current root) u" "coupled s u" using step.IH by blast
  have inv: "contexts_inv s" using reached_inv [OF step.hyps(1)] .
  have "coupled s' u \<or> (\<exists>u'. coupled s' u' \<and> u_step u u')"
    using step.hyps(2) internal_coupled [OF _ u(2) inv] wakes_coupled [OF _ u(2)]
      calls_coupled [OF _ u(2) inv step.prems] by blast
  then show ?case
  proof (elim disjE exE conjE)
    fix u'
    assume "coupled s' u'" "u_step u u'"
    then show ?thesis using rtranclp.rtrancl_into_rtrancl [OF u(1)] by blast
  qed (use u(1) in blast)
qed

end
