(* ===== verification/Encoding.thy ===== *)
theory Encoding
  imports Prelude
begin

text \<open>
  The tables of \<^verbatim>\<open>encoding.h\<close>, which \<^verbatim>\<open>parse-opcodes\<close> has generated: the bits that identify every
  instruction, the control and status registers and the causes of traps. The theory shows that
  the table of instructions can be used to decode: a word that is not compressed matches at most
  one entry, and where compressed patterns meet, one is a special case of the other, or the two
  belong to different widths of the architecture.
\<close>

section \<open>Instructions\<close>

text \<open>\<^verbatim>\<open>MATCH_X\<close> and \<^verbatim>\<open>MASK_X\<close> are one entry; the literals are those of the header.\<close>

datatype opcode = Opcode (op_name: string) (op_match: int) (op_mask: int)

definition opcodes_1 :: "opcode list" where
  "opcodes_1 = [
   Opcode ''BEQ'' 0x63 0x707f, Opcode ''BNE'' 0x1063 0x707f, Opcode ''BLT'' 0x4063 0x707f,
   Opcode ''BGE'' 0x5063 0x707f, Opcode ''BLTU'' 0x6063 0x707f, Opcode ''BGEU'' 0x7063 0x707f,
   Opcode ''JALR'' 0x67 0x707f, Opcode ''JAL'' 0x6f 0x7f, Opcode ''LUI'' 0x37 0x7f,
   Opcode ''AUIPC'' 0x17 0x7f, Opcode ''ADDI'' 0x13 0x707f, Opcode ''SLLI'' 0x1013 0xfc00707f,
   Opcode ''SLTI'' 0x2013 0x707f, Opcode ''SLTIU'' 0x3013 0x707f, Opcode ''XORI'' 0x4013 0x707f,
   Opcode ''SRLI'' 0x5013 0xfc00707f, Opcode ''SRAI'' 0x40005013 0xfc00707f,
   Opcode ''ORI'' 0x6013 0x707f, Opcode ''ANDI'' 0x7013 0x707f, Opcode ''ADD'' 0x33 0xfe00707f,
   Opcode ''SUB'' 0x40000033 0xfe00707f, Opcode ''SLL'' 0x1033 0xfe00707f,
   Opcode ''SLT'' 0x2033 0xfe00707f, Opcode ''SLTU'' 0x3033 0xfe00707f, Opcode ''XOR'' 0x4033 0xfe00707f,
   Opcode ''SRL'' 0x5033 0xfe00707f, Opcode ''SRA'' 0x40005033 0xfe00707f,
   Opcode ''OR'' 0x6033 0xfe00707f, Opcode ''AND'' 0x7033 0xfe00707f, Opcode ''ADDIW'' 0x1b 0x707f,
   Opcode ''SLLIW'' 0x101b 0xfe00707f, Opcode ''SRLIW'' 0x501b 0xfe00707f,
   Opcode ''SRAIW'' 0x4000501b 0xfe00707f, Opcode ''ADDW'' 0x3b 0xfe00707f,
   Opcode ''SUBW'' 0x4000003b 0xfe00707f, Opcode ''SLLW'' 0x103b 0xfe00707f,
   Opcode ''SRLW'' 0x503b 0xfe00707f, Opcode ''SRAW'' 0x4000503b 0xfe00707f, Opcode ''LB'' 0x3 0x707f,
   Opcode ''LH'' 0x1003 0x707f, Opcode ''LW'' 0x2003 0x707f, Opcode ''LD'' 0x3003 0x707f,
   Opcode ''LBU'' 0x4003 0x707f, Opcode ''LHU'' 0x5003 0x707f, Opcode ''LWU'' 0x6003 0x707f,
   Opcode ''SB'' 0x23 0x707f, Opcode ''SH'' 0x1023 0x707f, Opcode ''SW'' 0x2023 0x707f,
   Opcode ''SD'' 0x3023 0x707f, Opcode ''FENCE'' 0xf 0x707f, Opcode ''FENCE_I'' 0x100f 0x707f,
   Opcode ''MUL'' 0x2000033 0xfe00707f, Opcode ''MULH'' 0x2001033 0xfe00707f,
   Opcode ''MULHSU'' 0x2002033 0xfe00707f, Opcode ''MULHU'' 0x2003033 0xfe00707f,
   Opcode ''DIV'' 0x2004033 0xfe00707f, Opcode ''DIVU'' 0x2005033 0xfe00707f,
   Opcode ''REM'' 0x2006033 0xfe00707f, Opcode ''REMU'' 0x2007033 0xfe00707f,
   Opcode ''MULW'' 0x200003b 0xfe00707f, Opcode ''DIVW'' 0x200403b 0xfe00707f,
   Opcode ''DIVUW'' 0x200503b 0xfe00707f, Opcode ''REMW'' 0x200603b 0xfe00707f,
   Opcode ''REMUW'' 0x200703b 0xfe00707f, Opcode ''AMOADD_W'' 0x202f 0xf800707f,
   Opcode ''AMOXOR_W'' 0x2000202f 0xf800707f, Opcode ''AMOOR_W'' 0x4000202f 0xf800707f,
   Opcode ''AMOAND_W'' 0x6000202f 0xf800707f, Opcode ''AMOMIN_W'' 0x8000202f 0xf800707f,
   Opcode ''AMOMAX_W'' 0xa000202f 0xf800707f, Opcode ''AMOMINU_W'' 0xc000202f 0xf800707f,
   Opcode ''AMOMAXU_W'' 0xe000202f 0xf800707f, Opcode ''AMOSWAP_W'' 0x800202f 0xf800707f,
   Opcode ''LR_W'' 0x1000202f 0xf9f0707f, Opcode ''SC_W'' 0x1800202f 0xf800707f]"

definition opcodes_2 :: "opcode list" where
  "opcodes_2 = [
   Opcode ''AMOADD_D'' 0x302f 0xf800707f, Opcode ''AMOXOR_D'' 0x2000302f 0xf800707f,
   Opcode ''AMOOR_D'' 0x4000302f 0xf800707f, Opcode ''AMOAND_D'' 0x6000302f 0xf800707f,
   Opcode ''AMOMIN_D'' 0x8000302f 0xf800707f, Opcode ''AMOMAX_D'' 0xa000302f 0xf800707f,
   Opcode ''AMOMINU_D'' 0xc000302f 0xf800707f, Opcode ''AMOMAXU_D'' 0xe000302f 0xf800707f,
   Opcode ''AMOSWAP_D'' 0x800302f 0xf800707f, Opcode ''LR_D'' 0x1000302f 0xf9f0707f,
   Opcode ''SC_D'' 0x1800302f 0xf800707f, Opcode ''ECALL'' 0x73 0xffffffff,
   Opcode ''EBREAK'' 0x100073 0xffffffff, Opcode ''URET'' 0x200073 0xffffffff,
   Opcode ''SRET'' 0x10200073 0xffffffff, Opcode ''MRET'' 0x30200073 0xffffffff,
   Opcode ''DRET'' 0x7b200073 0xffffffff, Opcode ''SFENCE_VMA'' 0x12000073 0xfe007fff,
   Opcode ''WFI'' 0x10500073 0xffffffff, Opcode ''CSRRW'' 0x1073 0x707f, Opcode ''CSRRS'' 0x2073 0x707f,
   Opcode ''CSRRC'' 0x3073 0x707f, Opcode ''CSRRWI'' 0x5073 0x707f, Opcode ''CSRRSI'' 0x6073 0x707f,
   Opcode ''CSRRCI'' 0x7073 0x707f, Opcode ''FADD_S'' 0x53 0xfe00007f,
   Opcode ''FSUB_S'' 0x8000053 0xfe00007f, Opcode ''FMUL_S'' 0x10000053 0xfe00007f,
   Opcode ''FDIV_S'' 0x18000053 0xfe00007f, Opcode ''FSGNJ_S'' 0x20000053 0xfe00707f,
   Opcode ''FSGNJN_S'' 0x20001053 0xfe00707f, Opcode ''FSGNJX_S'' 0x20002053 0xfe00707f,
   Opcode ''FMIN_S'' 0x28000053 0xfe00707f, Opcode ''FMAX_S'' 0x28001053 0xfe00707f,
   Opcode ''FSQRT_S'' 0x58000053 0xfff0007f, Opcode ''FADD_D'' 0x2000053 0xfe00007f,
   Opcode ''FSUB_D'' 0xa000053 0xfe00007f, Opcode ''FMUL_D'' 0x12000053 0xfe00007f,
   Opcode ''FDIV_D'' 0x1a000053 0xfe00007f, Opcode ''FSGNJ_D'' 0x22000053 0xfe00707f,
   Opcode ''FSGNJN_D'' 0x22001053 0xfe00707f, Opcode ''FSGNJX_D'' 0x22002053 0xfe00707f,
   Opcode ''FMIN_D'' 0x2a000053 0xfe00707f, Opcode ''FMAX_D'' 0x2a001053 0xfe00707f,
   Opcode ''FCVT_S_D'' 0x40100053 0xfff0007f, Opcode ''FCVT_D_S'' 0x42000053 0xfff0007f,
   Opcode ''FSQRT_D'' 0x5a000053 0xfff0007f, Opcode ''FADD_Q'' 0x6000053 0xfe00007f,
   Opcode ''FSUB_Q'' 0xe000053 0xfe00007f, Opcode ''FMUL_Q'' 0x16000053 0xfe00007f,
   Opcode ''FDIV_Q'' 0x1e000053 0xfe00007f, Opcode ''FSGNJ_Q'' 0x26000053 0xfe00707f,
   Opcode ''FSGNJN_Q'' 0x26001053 0xfe00707f, Opcode ''FSGNJX_Q'' 0x26002053 0xfe00707f,
   Opcode ''FMIN_Q'' 0x2e000053 0xfe00707f, Opcode ''FMAX_Q'' 0x2e001053 0xfe00707f,
   Opcode ''FCVT_S_Q'' 0x40300053 0xfff0007f, Opcode ''FCVT_Q_S'' 0x46000053 0xfff0007f,
   Opcode ''FCVT_D_Q'' 0x42300053 0xfff0007f, Opcode ''FCVT_Q_D'' 0x46100053 0xfff0007f,
   Opcode ''FSQRT_Q'' 0x5e000053 0xfff0007f, Opcode ''FLE_S'' 0xa0000053 0xfe00707f,
   Opcode ''FLT_S'' 0xa0001053 0xfe00707f, Opcode ''FEQ_S'' 0xa0002053 0xfe00707f,
   Opcode ''FLE_D'' 0xa2000053 0xfe00707f, Opcode ''FLT_D'' 0xa2001053 0xfe00707f,
   Opcode ''FEQ_D'' 0xa2002053 0xfe00707f, Opcode ''FLE_Q'' 0xa6000053 0xfe00707f,
   Opcode ''FLT_Q'' 0xa6001053 0xfe00707f, Opcode ''FEQ_Q'' 0xa6002053 0xfe00707f,
   Opcode ''FCVT_W_S'' 0xc0000053 0xfff0007f, Opcode ''FCVT_WU_S'' 0xc0100053 0xfff0007f,
   Opcode ''FCVT_L_S'' 0xc0200053 0xfff0007f, Opcode ''FCVT_LU_S'' 0xc0300053 0xfff0007f,
   Opcode ''FMV_X_W'' 0xe0000053 0xfff0707f]"

definition opcodes_3 :: "opcode list" where
  "opcodes_3 = [
   Opcode ''FCLASS_S'' 0xe0001053 0xfff0707f, Opcode ''FCVT_W_D'' 0xc2000053 0xfff0007f,
   Opcode ''FCVT_WU_D'' 0xc2100053 0xfff0007f, Opcode ''FCVT_L_D'' 0xc2200053 0xfff0007f,
   Opcode ''FCVT_LU_D'' 0xc2300053 0xfff0007f, Opcode ''FMV_X_D'' 0xe2000053 0xfff0707f,
   Opcode ''FCLASS_D'' 0xe2001053 0xfff0707f, Opcode ''FCVT_W_Q'' 0xc6000053 0xfff0007f,
   Opcode ''FCVT_WU_Q'' 0xc6100053 0xfff0007f, Opcode ''FCVT_L_Q'' 0xc6200053 0xfff0007f,
   Opcode ''FCVT_LU_Q'' 0xc6300053 0xfff0007f, Opcode ''FMV_X_Q'' 0xe6000053 0xfff0707f,
   Opcode ''FCLASS_Q'' 0xe6001053 0xfff0707f, Opcode ''FCVT_S_W'' 0xd0000053 0xfff0007f,
   Opcode ''FCVT_S_WU'' 0xd0100053 0xfff0007f, Opcode ''FCVT_S_L'' 0xd0200053 0xfff0007f,
   Opcode ''FCVT_S_LU'' 0xd0300053 0xfff0007f, Opcode ''FMV_W_X'' 0xf0000053 0xfff0707f,
   Opcode ''FCVT_D_W'' 0xd2000053 0xfff0007f, Opcode ''FCVT_D_WU'' 0xd2100053 0xfff0007f,
   Opcode ''FCVT_D_L'' 0xd2200053 0xfff0007f, Opcode ''FCVT_D_LU'' 0xd2300053 0xfff0007f,
   Opcode ''FMV_D_X'' 0xf2000053 0xfff0707f, Opcode ''FCVT_Q_W'' 0xd6000053 0xfff0007f,
   Opcode ''FCVT_Q_WU'' 0xd6100053 0xfff0007f, Opcode ''FCVT_Q_L'' 0xd6200053 0xfff0007f,
   Opcode ''FCVT_Q_LU'' 0xd6300053 0xfff0007f, Opcode ''FMV_Q_X'' 0xf6000053 0xfff0707f,
   Opcode ''FLW'' 0x2007 0x707f, Opcode ''FLD'' 0x3007 0x707f, Opcode ''FLQ'' 0x4007 0x707f,
   Opcode ''FSW'' 0x2027 0x707f, Opcode ''FSD'' 0x3027 0x707f, Opcode ''FSQ'' 0x4027 0x707f,
   Opcode ''FMADD_S'' 0x43 0x600007f, Opcode ''FMSUB_S'' 0x47 0x600007f,
   Opcode ''FNMSUB_S'' 0x4b 0x600007f, Opcode ''FNMADD_S'' 0x4f 0x600007f,
   Opcode ''FMADD_D'' 0x2000043 0x600007f, Opcode ''FMSUB_D'' 0x2000047 0x600007f,
   Opcode ''FNMSUB_D'' 0x200004b 0x600007f, Opcode ''FNMADD_D'' 0x200004f 0x600007f,
   Opcode ''FMADD_Q'' 0x6000043 0x600007f, Opcode ''FMSUB_Q'' 0x6000047 0x600007f,
   Opcode ''FNMSUB_Q'' 0x600004b 0x600007f, Opcode ''FNMADD_Q'' 0x600004f 0x600007f,
   Opcode ''C_NOP'' 0x1 0xffff, Opcode ''C_ADDI16SP'' 0x6101 0xef83, Opcode ''C_JR'' 0x8002 0xf07f,
   Opcode ''C_JALR'' 0x9002 0xf07f, Opcode ''C_EBREAK'' 0x9002 0xffff, Opcode ''C_LD'' 0x6000 0xe003,
   Opcode ''C_SD'' 0xe000 0xe003, Opcode ''C_ADDIW'' 0x2001 0xe003, Opcode ''C_LDSP'' 0x6002 0xe003,
   Opcode ''C_SDSP'' 0xe002 0xe003, Opcode ''C_ADDI4SPN'' 0x0 0xe003, Opcode ''C_FLD'' 0x2000 0xe003,
   Opcode ''C_LW'' 0x4000 0xe003, Opcode ''C_FLW'' 0x6000 0xe003, Opcode ''C_FSD'' 0xa000 0xe003,
   Opcode ''C_SW'' 0xc000 0xe003, Opcode ''C_FSW'' 0xe000 0xe003, Opcode ''C_ADDI'' 0x1 0xe003,
   Opcode ''C_JAL'' 0x2001 0xe003, Opcode ''C_LI'' 0x4001 0xe003, Opcode ''C_LUI'' 0x6001 0xe003,
   Opcode ''C_SRLI'' 0x8001 0xec03, Opcode ''C_SRAI'' 0x8401 0xec03, Opcode ''C_ANDI'' 0x8801 0xec03,
   Opcode ''C_SUB'' 0x8c01 0xfc63, Opcode ''C_XOR'' 0x8c21 0xfc63, Opcode ''C_OR'' 0x8c41 0xfc63,
   Opcode ''C_AND'' 0x8c61 0xfc63, Opcode ''C_SUBW'' 0x9c01 0xfc63]"

definition opcodes_4 :: "opcode list" where
  "opcodes_4 = [
   Opcode ''C_ADDW'' 0x9c21 0xfc63, Opcode ''C_J'' 0xa001 0xe003, Opcode ''C_BEQZ'' 0xc001 0xe003,
   Opcode ''C_BNEZ'' 0xe001 0xe003, Opcode ''C_SLLI'' 0x2 0xe003, Opcode ''C_FLDSP'' 0x2002 0xe003,
   Opcode ''C_LWSP'' 0x4002 0xe003, Opcode ''C_FLWSP'' 0x6002 0xe003, Opcode ''C_MV'' 0x8002 0xf003,
   Opcode ''C_ADD'' 0x9002 0xf003, Opcode ''C_FSDSP'' 0xa002 0xe003, Opcode ''C_SWSP'' 0xc002 0xe003,
   Opcode ''C_FSWSP'' 0xe002 0xe003, Opcode ''CUSTOM0'' 0xb 0x707f, Opcode ''CUSTOM0_RS1'' 0x200b 0x707f,
   Opcode ''CUSTOM0_RS1_RS2'' 0x300b 0x707f, Opcode ''CUSTOM0_RD'' 0x400b 0x707f,
   Opcode ''CUSTOM0_RD_RS1'' 0x600b 0x707f, Opcode ''CUSTOM0_RD_RS1_RS2'' 0x700b 0x707f,
   Opcode ''CUSTOM1'' 0x2b 0x707f, Opcode ''CUSTOM1_RS1'' 0x202b 0x707f,
   Opcode ''CUSTOM1_RS1_RS2'' 0x302b 0x707f, Opcode ''CUSTOM1_RD'' 0x402b 0x707f,
   Opcode ''CUSTOM1_RD_RS1'' 0x602b 0x707f, Opcode ''CUSTOM1_RD_RS1_RS2'' 0x702b 0x707f,
   Opcode ''CUSTOM2'' 0x5b 0x707f, Opcode ''CUSTOM2_RS1'' 0x205b 0x707f,
   Opcode ''CUSTOM2_RS1_RS2'' 0x305b 0x707f, Opcode ''CUSTOM2_RD'' 0x405b 0x707f,
   Opcode ''CUSTOM2_RD_RS1'' 0x605b 0x707f, Opcode ''CUSTOM2_RD_RS1_RS2'' 0x705b 0x707f,
   Opcode ''CUSTOM3'' 0x7b 0x707f, Opcode ''CUSTOM3_RS1'' 0x207b 0x707f,
   Opcode ''CUSTOM3_RS1_RS2'' 0x307b 0x707f, Opcode ''CUSTOM3_RD'' 0x407b 0x707f,
   Opcode ''CUSTOM3_RD_RS1'' 0x607b 0x707f, Opcode ''CUSTOM3_RD_RS1_RS2'' 0x707b 0x707f]"

definition opcodes :: "opcode list" where
  "opcodes = opcodes_1 @ opcodes_2 @ opcodes_3 @ opcodes_4"

text \<open>The list of \<^verbatim>\<open>DECLARE_INSN\<close>: the name of each instruction and the name of its macros.\<close>

definition declared_insns_1 :: "(string \<times> string) list" where
  "declared_insns_1 = [
   (''beq'', ''BEQ''), (''bne'', ''BNE''), (''blt'', ''BLT''), (''bge'', ''BGE''), (''bltu'', ''BLTU''),
   (''bgeu'', ''BGEU''), (''jalr'', ''JALR''), (''jal'', ''JAL''), (''lui'', ''LUI''),
   (''auipc'', ''AUIPC''), (''addi'', ''ADDI''), (''slli'', ''SLLI''), (''slti'', ''SLTI''),
   (''sltiu'', ''SLTIU''), (''xori'', ''XORI''), (''srli'', ''SRLI''), (''srai'', ''SRAI''),
   (''ori'', ''ORI''), (''andi'', ''ANDI''), (''add'', ''ADD''), (''sub'', ''SUB''), (''sll'', ''SLL''),
   (''slt'', ''SLT''), (''sltu'', ''SLTU''), (''xor'', ''XOR''), (''srl'', ''SRL''), (''sra'', ''SRA''),
   (''or'', ''OR''), (''and'', ''AND''), (''addiw'', ''ADDIW''), (''slliw'', ''SLLIW''),
   (''srliw'', ''SRLIW''), (''sraiw'', ''SRAIW''), (''addw'', ''ADDW''), (''subw'', ''SUBW''),
   (''sllw'', ''SLLW''), (''srlw'', ''SRLW''), (''sraw'', ''SRAW''), (''lb'', ''LB''), (''lh'', ''LH''),
   (''lw'', ''LW''), (''ld'', ''LD''), (''lbu'', ''LBU''), (''lhu'', ''LHU''), (''lwu'', ''LWU''),
   (''sb'', ''SB''), (''sh'', ''SH''), (''sw'', ''SW''), (''sd'', ''SD''), (''fence'', ''FENCE''),
   (''fence_i'', ''FENCE_I''), (''mul'', ''MUL''), (''mulh'', ''MULH''), (''mulhsu'', ''MULHSU''),
   (''mulhu'', ''MULHU''), (''div'', ''DIV''), (''divu'', ''DIVU''), (''rem'', ''REM''),
   (''remu'', ''REMU''), (''mulw'', ''MULW''), (''divw'', ''DIVW''), (''divuw'', ''DIVUW''),
   (''remw'', ''REMW''), (''remuw'', ''REMUW''), (''amoadd_w'', ''AMOADD_W''),
   (''amoxor_w'', ''AMOXOR_W''), (''amoor_w'', ''AMOOR_W''), (''amoand_w'', ''AMOAND_W''),
   (''amomin_w'', ''AMOMIN_W''), (''amomax_w'', ''AMOMAX_W''), (''amominu_w'', ''AMOMINU_W''),
   (''amomaxu_w'', ''AMOMAXU_W''), (''amoswap_w'', ''AMOSWAP_W''), (''lr_w'', ''LR_W''),
   (''sc_w'', ''SC_W''), (''amoadd_d'', ''AMOADD_D''), (''amoxor_d'', ''AMOXOR_D''),
   (''amoor_d'', ''AMOOR_D''), (''amoand_d'', ''AMOAND_D''), (''amomin_d'', ''AMOMIN_D''),
   (''amomax_d'', ''AMOMAX_D''), (''amominu_d'', ''AMOMINU_D''), (''amomaxu_d'', ''AMOMAXU_D''),
   (''amoswap_d'', ''AMOSWAP_D''), (''lr_d'', ''LR_D''), (''sc_d'', ''SC_D''), (''ecall'', ''ECALL''),
   (''ebreak'', ''EBREAK''), (''uret'', ''URET''), (''sret'', ''SRET''), (''mret'', ''MRET''),
   (''dret'', ''DRET''), (''sfence_vma'', ''SFENCE_VMA''), (''wfi'', ''WFI''), (''csrrw'', ''CSRRW''),
   (''csrrs'', ''CSRRS''), (''csrrc'', ''CSRRC''), (''csrrwi'', ''CSRRWI''), (''csrrsi'', ''CSRRSI''),
   (''csrrci'', ''CSRRCI''), (''fadd_s'', ''FADD_S''), (''fsub_s'', ''FSUB_S''),
   (''fmul_s'', ''FMUL_S''), (''fdiv_s'', ''FDIV_S''), (''fsgnj_s'', ''FSGNJ_S''),
   (''fsgnjn_s'', ''FSGNJN_S''), (''fsgnjx_s'', ''FSGNJX_S''), (''fmin_s'', ''FMIN_S''),
   (''fmax_s'', ''FMAX_S''), (''fsqrt_s'', ''FSQRT_S''), (''fadd_d'', ''FADD_D''),
   (''fsub_d'', ''FSUB_D''), (''fmul_d'', ''FMUL_D''), (''fdiv_d'', ''FDIV_D''),
   (''fsgnj_d'', ''FSGNJ_D''), (''fsgnjn_d'', ''FSGNJN_D''), (''fsgnjx_d'', ''FSGNJX_D''),
   (''fmin_d'', ''FMIN_D''), (''fmax_d'', ''FMAX_D''), (''fcvt_s_d'', ''FCVT_S_D''),
   (''fcvt_d_s'', ''FCVT_D_S''), (''fsqrt_d'', ''FSQRT_D''), (''fadd_q'', ''FADD_Q''),
   (''fsub_q'', ''FSUB_Q''), (''fmul_q'', ''FMUL_Q''), (''fdiv_q'', ''FDIV_Q''),
   (''fsgnj_q'', ''FSGNJ_Q''), (''fsgnjn_q'', ''FSGNJN_Q''), (''fsgnjx_q'', ''FSGNJX_Q''),
   (''fmin_q'', ''FMIN_Q''), (''fmax_q'', ''FMAX_Q''), (''fcvt_s_q'', ''FCVT_S_Q''),
   (''fcvt_q_s'', ''FCVT_Q_S''), (''fcvt_d_q'', ''FCVT_D_Q''), (''fcvt_q_d'', ''FCVT_Q_D''),
   (''fsqrt_q'', ''FSQRT_Q''), (''fle_s'', ''FLE_S''), (''flt_s'', ''FLT_S''), (''feq_s'', ''FEQ_S''),
   (''fle_d'', ''FLE_D''), (''flt_d'', ''FLT_D''), (''feq_d'', ''FEQ_D''), (''fle_q'', ''FLE_Q''),
   (''flt_q'', ''FLT_Q''), (''feq_q'', ''FEQ_Q''), (''fcvt_w_s'', ''FCVT_W_S''),
   (''fcvt_wu_s'', ''FCVT_WU_S''), (''fcvt_l_s'', ''FCVT_L_S''), (''fcvt_lu_s'', ''FCVT_LU_S''),
   (''fmv_x_w'', ''FMV_X_W'')]"

definition declared_insns_2 :: "(string \<times> string) list" where
  "declared_insns_2 = [
   (''fclass_s'', ''FCLASS_S''), (''fcvt_w_d'', ''FCVT_W_D''), (''fcvt_wu_d'', ''FCVT_WU_D''),
   (''fcvt_l_d'', ''FCVT_L_D''), (''fcvt_lu_d'', ''FCVT_LU_D''), (''fmv_x_d'', ''FMV_X_D''),
   (''fclass_d'', ''FCLASS_D''), (''fcvt_w_q'', ''FCVT_W_Q''), (''fcvt_wu_q'', ''FCVT_WU_Q''),
   (''fcvt_l_q'', ''FCVT_L_Q''), (''fcvt_lu_q'', ''FCVT_LU_Q''), (''fmv_x_q'', ''FMV_X_Q''),
   (''fclass_q'', ''FCLASS_Q''), (''fcvt_s_w'', ''FCVT_S_W''), (''fcvt_s_wu'', ''FCVT_S_WU''),
   (''fcvt_s_l'', ''FCVT_S_L''), (''fcvt_s_lu'', ''FCVT_S_LU''), (''fmv_w_x'', ''FMV_W_X''),
   (''fcvt_d_w'', ''FCVT_D_W''), (''fcvt_d_wu'', ''FCVT_D_WU''), (''fcvt_d_l'', ''FCVT_D_L''),
   (''fcvt_d_lu'', ''FCVT_D_LU''), (''fmv_d_x'', ''FMV_D_X''), (''fcvt_q_w'', ''FCVT_Q_W''),
   (''fcvt_q_wu'', ''FCVT_Q_WU''), (''fcvt_q_l'', ''FCVT_Q_L''), (''fcvt_q_lu'', ''FCVT_Q_LU''),
   (''fmv_q_x'', ''FMV_Q_X''), (''flw'', ''FLW''), (''fld'', ''FLD''), (''flq'', ''FLQ''),
   (''fsw'', ''FSW''), (''fsd'', ''FSD''), (''fsq'', ''FSQ''), (''fmadd_s'', ''FMADD_S''),
   (''fmsub_s'', ''FMSUB_S''), (''fnmsub_s'', ''FNMSUB_S''), (''fnmadd_s'', ''FNMADD_S''),
   (''fmadd_d'', ''FMADD_D''), (''fmsub_d'', ''FMSUB_D''), (''fnmsub_d'', ''FNMSUB_D''),
   (''fnmadd_d'', ''FNMADD_D''), (''fmadd_q'', ''FMADD_Q''), (''fmsub_q'', ''FMSUB_Q''),
   (''fnmsub_q'', ''FNMSUB_Q''), (''fnmadd_q'', ''FNMADD_Q''), (''c_nop'', ''C_NOP''),
   (''c_addi16sp'', ''C_ADDI16SP''), (''c_jr'', ''C_JR''), (''c_jalr'', ''C_JALR''),
   (''c_ebreak'', ''C_EBREAK''), (''c_ld'', ''C_LD''), (''c_sd'', ''C_SD''), (''c_addiw'', ''C_ADDIW''),
   (''c_ldsp'', ''C_LDSP''), (''c_sdsp'', ''C_SDSP''), (''c_addi4spn'', ''C_ADDI4SPN''),
   (''c_fld'', ''C_FLD''), (''c_lw'', ''C_LW''), (''c_flw'', ''C_FLW''), (''c_fsd'', ''C_FSD''),
   (''c_sw'', ''C_SW''), (''c_fsw'', ''C_FSW''), (''c_addi'', ''C_ADDI''), (''c_jal'', ''C_JAL''),
   (''c_li'', ''C_LI''), (''c_lui'', ''C_LUI''), (''c_srli'', ''C_SRLI''), (''c_srai'', ''C_SRAI''),
   (''c_andi'', ''C_ANDI''), (''c_sub'', ''C_SUB''), (''c_xor'', ''C_XOR''), (''c_or'', ''C_OR''),
   (''c_and'', ''C_AND''), (''c_subw'', ''C_SUBW''), (''c_addw'', ''C_ADDW''), (''c_j'', ''C_J''),
   (''c_beqz'', ''C_BEQZ''), (''c_bnez'', ''C_BNEZ''), (''c_slli'', ''C_SLLI''),
   (''c_fldsp'', ''C_FLDSP''), (''c_lwsp'', ''C_LWSP''), (''c_flwsp'', ''C_FLWSP''),
   (''c_mv'', ''C_MV''), (''c_add'', ''C_ADD''), (''c_fsdsp'', ''C_FSDSP''), (''c_swsp'', ''C_SWSP''),
   (''c_fswsp'', ''C_FSWSP''), (''custom0'', ''CUSTOM0''), (''custom0_rs1'', ''CUSTOM0_RS1''),
   (''custom0_rs1_rs2'', ''CUSTOM0_RS1_RS2''), (''custom0_rd'', ''CUSTOM0_RD''),
   (''custom0_rd_rs1'', ''CUSTOM0_RD_RS1''), (''custom0_rd_rs1_rs2'', ''CUSTOM0_RD_RS1_RS2''),
   (''custom1'', ''CUSTOM1''), (''custom1_rs1'', ''CUSTOM1_RS1''),
   (''custom1_rs1_rs2'', ''CUSTOM1_RS1_RS2''), (''custom1_rd'', ''CUSTOM1_RD''),
   (''custom1_rd_rs1'', ''CUSTOM1_RD_RS1''), (''custom1_rd_rs1_rs2'', ''CUSTOM1_RD_RS1_RS2''),
   (''custom2'', ''CUSTOM2''), (''custom2_rs1'', ''CUSTOM2_RS1''),
   (''custom2_rs1_rs2'', ''CUSTOM2_RS1_RS2''), (''custom2_rd'', ''CUSTOM2_RD''),
   (''custom2_rd_rs1'', ''CUSTOM2_RD_RS1''), (''custom2_rd_rs1_rs2'', ''CUSTOM2_RD_RS1_RS2''),
   (''custom3'', ''CUSTOM3''), (''custom3_rs1'', ''CUSTOM3_RS1''),
   (''custom3_rs1_rs2'', ''CUSTOM3_RS1_RS2''), (''custom3_rd'', ''CUSTOM3_RD''),
   (''custom3_rd_rs1'', ''CUSTOM3_RD_RS1''), (''custom3_rd_rs1_rs2'', ''CUSTOM3_RD_RS1_RS2'')]"

definition declared_insns :: "(string \<times> string) list" where
  "declared_insns = declared_insns_1 @ declared_insns_2"

definition insns :: "(string \<times> opcode) list" where
  "insns = zip (map fst declared_insns) opcodes"

definition matches :: "u32 \<Rightarrow> opcode \<Rightarrow> bool" where
  "matches w a \<longleftrightarrow> uint w AND op_mask a = op_match a"

definition decode :: "u32 \<Rightarrow> string list" where
  "decode w = map fst (filter (\<lambda>(n, a). matches w a) insns)"

lemmas opcodes_defs = opcodes_def opcodes_1_def opcodes_2_def opcodes_3_def opcodes_4_def

text \<open>Every declaration is made with the macros of one entry, and they are in the same order.\<close>

lemma declared_macros: "map snd declared_insns = map op_name opcodes"
  by (simp add: declared_insns_def declared_insns_1_def declared_insns_2_def opcodes_defs)

section \<open>Two entries that match the same word\<close>

definition clash :: "opcode \<Rightarrow> opcode \<Rightarrow> bool" where
  "clash a b \<longleftrightarrow> (op_match a XOR op_match b) AND (op_mask a AND op_mask b) = 0"

lemma matches_clash: "matches w a \<Longrightarrow> matches w b \<Longrightarrow> clash a b"
proof -
  assume "matches w a" "matches w b"
  then have m: "op_match a = uint w AND op_mask a" "op_match b = uint w AND op_mask b" by (simp_all add: matches_def)
  show "clash a b" unfolding clash_def m by (rule bit_eqI) (auto simp: bit_simps)
qed

text \<open>
  The bits that every entry fixes: the major opcode, with the function bits where an opcode has
  many entries. Entries with different keys never clash.
\<close>

definition long :: "opcode \<Rightarrow> bool" where
  "long a \<longleftrightarrow> op_match a AND 3 = 3"

definition key_mask :: "int \<Rightarrow> int" where
  "key_mask x = (if x AND 3 \<noteq> 3 then 0xe003
     else if x AND 0x7f = 0x53 then 0xfe00007f
     else if x AND 0x7f = 0x2f then 0xf800007f
     else 0x7f)"

definition op_key :: "opcode \<Rightarrow> int" where
  "op_key a = op_match a AND key_mask (op_match a)"

definition fixes_key :: "opcode \<Rightarrow> bool" where
  "fixes_key a \<longleftrightarrow> op_mask a AND key_mask (op_match a) = key_mask (op_match a)"

lemma keys_fixed: "list_all fixes_key opcodes"
  by (simp add: opcodes_defs fixes_key_def key_mask_def)

text \<open>The entries with their keys.\<close>

fun apart :: "(opcode \<Rightarrow> opcode \<Rightarrow> bool) \<Rightarrow> (int \<times> opcode) list \<Rightarrow> bool" where
  "apart r [] \<longleftrightarrow> True"
| "apart r ((k, a) # xs) \<longleftrightarrow> list_all (\<lambda>(k', b). if k = k' then r a b else True) xs \<and> apart r xs"

fun cross :: "(opcode \<Rightarrow> opcode \<Rightarrow> bool) \<Rightarrow> (int \<times> opcode) list \<Rightarrow> (int \<times> opcode) list \<Rightarrow> bool" where
  "cross r [] ys \<longleftrightarrow> True"
| "cross r ((k, a) # xs) ys \<longleftrightarrow> list_all (\<lambda>(k', b). if k = k' then r a b else True) ys \<and> cross r xs ys"

definition keyed :: "opcode list \<Rightarrow> (int \<times> opcode) list" where
  "keyed l = map (\<lambda>a. (op_key a, a)) l"

lemma apart_append: "apart r (xs @ ys) \<longleftrightarrow> apart r xs \<and> apart r ys \<and> cross r xs ys"
proof (induction xs)
  case (Cons p xs)
  then show ?case by (cases p) auto
qed simp

lemma apart_keyed: "apart r (keyed l) \<longleftrightarrow> sorted_wrt (\<lambda>a b. op_key a = op_key b \<longrightarrow> r a b) l"
  by (induction l) (auto simp: keyed_def list_all_iff)

lemmas key_defs = keyed_def long_def op_key_def key_mask_def clash_def

lemma long_apart_1: "apart (\<lambda>a b. \<not> clash a b) (keyed (filter long opcodes_1))"
  by (simp add: opcodes_1_def key_defs)

lemma long_apart_2: "apart (\<lambda>a b. \<not> clash a b) (keyed (filter long opcodes_2))"
  by (simp add: opcodes_2_def key_defs)

lemma long_apart_3: "apart (\<lambda>a b. \<not> clash a b) (keyed (filter long (opcodes_3 @ opcodes_4)))"
  by (simp add: opcodes_3_def opcodes_4_def key_defs)

lemma long_cross_1: "cross (\<lambda>a b. \<not> clash a b) (keyed (filter long opcodes_1)) (keyed (filter long opcodes_2))"
  by (simp add: opcodes_1_def opcodes_2_def key_defs)

lemma long_cross_2:
  "cross (\<lambda>a b. \<not> clash a b) (keyed (filter long opcodes_1)) (keyed (filter long (opcodes_3 @ opcodes_4)))"
  by (simp add: opcodes_1_def opcodes_3_def opcodes_4_def key_defs)

lemma long_cross_3:
  "cross (\<lambda>a b. \<not> clash a b) (keyed (filter long opcodes_2)) (keyed (filter long (opcodes_3 @ opcodes_4)))"
  by (simp add: opcodes_2_def opcodes_3_def opcodes_4_def key_defs)

text \<open>Compressed patterns: one is a special case of the other, or they are the same pattern.\<close>

definition refines :: "opcode \<Rightarrow> opcode \<Rightarrow> bool" where
  "refines a b \<longleftrightarrow> op_mask a AND op_mask b = op_mask b \<and> op_mask a \<noteq> op_mask b"

definition same_pattern :: "opcode \<Rightarrow> opcode \<Rightarrow> bool" where
  "same_pattern a b \<longleftrightarrow> op_match a = op_match b \<and> op_mask a = op_mask b \<and>
     (op_name a, op_name b) \<in> {(''C_LD'', ''C_FLW''), (''C_SD'', ''C_FSW''), (''C_ADDIW'', ''C_JAL''),
       (''C_LDSP'', ''C_FLWSP''), (''C_SDSP'', ''C_FSWSP'')}"

definition related :: "opcode \<Rightarrow> opcode \<Rightarrow> bool" where
  "related a b \<longleftrightarrow> refines a b \<or> refines b a \<or> same_pattern a b \<or> same_pattern b a"

lemma short_apart: "apart (\<lambda>a b. clash a b \<longrightarrow> related a b) (keyed (filter (\<lambda>a. \<not> long a) opcodes))"
  by (simp add: opcodes_defs key_defs related_def refines_def same_pattern_def)

section \<open>Decoding\<close>

lemma key_mask_low:
  "3 AND key_mask x = 3" "x AND 3 = 3 \<Longrightarrow> 0x7f AND key_mask x = 0x7f"
  by (simp_all add: key_mask_def)

text \<open>The key of an entry is the key of every word that it matches.\<close>

lemma matches_key:
  assumes "matches w a" and "fixes_key a"
  shows "long a \<longleftrightarrow> uint w AND 3 = 3" "op_key a = uint w AND key_mask (uint w)"
proof -
  let ?m = "op_match a" and ?k = "key_mask (op_match a)"
  have m: "?m = uint w AND op_mask a" using assms(1) by (simp add: matches_def)
  have part: "?m AND j = uint w AND j" if "j AND ?k = j" for j
  proof -
    have "?m AND j = ?m AND (j AND (op_mask a AND ?k))" using assms(2) that by (simp add: fixes_key_def)
    also have "\<dots> = (uint w AND op_mask a) AND (j AND (op_mask a AND ?k))" by (simp only: m [symmetric])
    also have "\<dots> = uint w AND (j AND (op_mask a AND ?k))" by (rule bit_eqI) (auto simp: bit_simps)
    also have "\<dots> = uint w AND j" using assms(2) that by (simp add: fixes_key_def)
    finally show ?thesis .
  qed
  have low: "?m AND 3 = uint w AND 3" by (rule part [OF key_mask_low(1)])
  then show "long a \<longleftrightarrow> uint w AND 3 = 3" by (simp add: long_def)
  have "key_mask (uint w) = ?k"
  proof (cases "?m AND 3 = 3")
    case True
    then have "?m AND 0x7f = uint w AND 0x7f" using part key_mask_low(2) by blast
    then show ?thesis using low by (simp add: key_mask_def)
  qed (use low in \<open>simp add: key_mask_def\<close>)
  moreover have "?m AND ?k = uint w AND ?k" by (rule part) simp
  ultimately show "op_key a = uint w AND key_mask (uint w)" by (simp add: op_key_def)
qed

lemma sorted_wrt_filter_one:
  assumes "sorted_wrt r l" and "\<And>a b. a \<in> set l \<Longrightarrow> b \<in> set l \<Longrightarrow> P a \<Longrightarrow> P b \<Longrightarrow> \<not> r a b"
  shows "length (filter P l) \<le> 1"
  using assms by (induction l) (auto simp: filter_empty_conv)

lemma sorted_wrt_both:
  assumes "sorted_wrt r l" and "a \<in> set l" and "b \<in> set l"
  shows "a = b \<or> r a b \<or> r b a"
  using assms by (induction l) auto

lemma filter_zip: "length ns = length l \<Longrightarrow> map snd (filter (\<lambda>(n, a). P a) (zip ns l)) = filter P l"
  by (induction ns l rule: list_induct2) auto

lemma long_sorted: "sorted_wrt (\<lambda>a b. op_key a = op_key b \<longrightarrow> \<not> clash a b) (filter long opcodes)"
proof -
  have l: "opcodes = opcodes_1 @ opcodes_2 @ (opcodes_3 @ opcodes_4)" by (simp add: opcodes_def)
  have k: "keyed (xs @ ys) = keyed xs @ keyed ys" for xs ys by (simp add: keyed_def)
  have c: "cross r xs (ys @ zs) \<longleftrightarrow> cross r xs ys \<and> cross r xs zs" for r xs ys zs
    by (induction r xs ys rule: cross.induct) auto
  show ?thesis
    unfolding apart_keyed [symmetric] l filter_append [of long opcodes_1] filter_append [of long opcodes_2] k
      apart_append c
    using long_apart_1 long_apart_2 long_apart_3 long_cross_1 long_cross_2 long_cross_3 by blast
qed

text \<open>A word that is not compressed matches at most one entry.\<close>

lemma long_unique:
  assumes "uint w AND 3 = 3"
  shows "length (filter (matches w) opcodes) \<le> 1"
proof -
  have f: "fixes_key a" if "a \<in> set opcodes" for a using keys_fixed that by (simp add: list_all_iff)
  have "filter (matches w) opcodes = filter (matches w) (filter long opcodes)"
    using assms matches_key(1) [of w] f by (auto simp: intro!: filter_cong)
  moreover have "length (filter (matches w) (filter long opcodes)) \<le> 1"
  proof (rule sorted_wrt_filter_one [OF long_sorted])
    fix a b
    assume "a \<in> set (filter long opcodes)" "b \<in> set (filter long opcodes)" "matches w a" "matches w b"
    then show "\<not> (op_key a = op_key b \<longrightarrow> \<not> clash a b)"
      using matches_key(2) [of w a] matches_key(2) [of w b] f matches_clash by auto
  qed
  ultimately show ?thesis by simp
qed

lemma short_related:
  assumes "a \<in> set opcodes" and "b \<in> set opcodes" and "matches w a" and "matches w b" and "uint w AND 3 \<noteq> 3"
  shows "a = b \<or> related a b"
proof -
  have f: "fixes_key a" "fixes_key b" using keys_fixed assms(1,2) by (auto simp: list_all_iff)
  have s: "a \<in> set (filter (\<lambda>a. \<not> long a) opcodes)" "b \<in> set (filter (\<lambda>a. \<not> long a) opcodes)"
    using assms f matches_key(1) [of w] by auto
  have k: "op_key a = op_key b" using matches_key(2) assms(3,4) f by simp
  have c: "clash a b" "clash b a" using matches_clash assms(3,4) by blast+
  show ?thesis
    using sorted_wrt_both [OF short_apart [unfolded apart_keyed] s] k c by (auto simp: related_def)
qed

lemma decode_snd: "length (decode w) = length (filter (matches w) opcodes)"
proof -
  have "length (map fst declared_insns) = length opcodes"
    using arg_cong [OF declared_macros, of length] by simp
  from filter_zip [OF this, of "matches w"] have
    "length (filter (matches w) opcodes) = length (filter (\<lambda>(n, a). matches w a) insns)"
    unfolding insns_def by (metis length_map)
  then show ?thesis by (simp add: decode_def)
qed

lemma decode_one:
  assumes "(n, a) \<in> set insns" and "matches w a" and "uint w AND 3 = 3"
  shows "decode w = [n]"
proof -
  have "n \<in> set (decode w)" using assms(1,2) by (force simp: decode_def)
  moreover have "length (decode w) \<le> 1" using long_unique [OF assms(3)] by (simp add: decode_snd)
  ultimately show ?thesis by (cases "decode w") auto
qed

section \<open>Control and status registers, causes\<close>

text \<open>\<^verbatim>\<open>CSR_X\<close>, and the list of \<^verbatim>\<open>DECLARE_CSR\<close>: the name of each register and the name of its macro.\<close>

definition csrs_1 :: "(string \<times> int) list" where
  "csrs_1 = [
   (''FFLAGS'', 0x1), (''FRM'', 0x2), (''FCSR'', 0x3), (''CYCLE'', 0xc00), (''TIME'', 0xc01),
   (''INSTRET'', 0xc02), (''HPMCOUNTER3'', 0xc03), (''HPMCOUNTER4'', 0xc04), (''HPMCOUNTER5'', 0xc05),
   (''HPMCOUNTER6'', 0xc06), (''HPMCOUNTER7'', 0xc07), (''HPMCOUNTER8'', 0xc08),
   (''HPMCOUNTER9'', 0xc09), (''HPMCOUNTER10'', 0xc0a), (''HPMCOUNTER11'', 0xc0b),
   (''HPMCOUNTER12'', 0xc0c), (''HPMCOUNTER13'', 0xc0d), (''HPMCOUNTER14'', 0xc0e),
   (''HPMCOUNTER15'', 0xc0f), (''HPMCOUNTER16'', 0xc10), (''HPMCOUNTER17'', 0xc11),
   (''HPMCOUNTER18'', 0xc12), (''HPMCOUNTER19'', 0xc13), (''HPMCOUNTER20'', 0xc14),
   (''HPMCOUNTER21'', 0xc15), (''HPMCOUNTER22'', 0xc16), (''HPMCOUNTER23'', 0xc17),
   (''HPMCOUNTER24'', 0xc18), (''HPMCOUNTER25'', 0xc19), (''HPMCOUNTER26'', 0xc1a),
   (''HPMCOUNTER27'', 0xc1b), (''HPMCOUNTER28'', 0xc1c), (''HPMCOUNTER29'', 0xc1d),
   (''HPMCOUNTER30'', 0xc1e), (''HPMCOUNTER31'', 0xc1f), (''SSTATUS'', 0x100), (''SIE'', 0x104),
   (''STVEC'', 0x105), (''SCOUNTEREN'', 0x106), (''SSCRATCH'', 0x140), (''SEPC'', 0x141),
   (''SCAUSE'', 0x142), (''STVAL'', 0x143), (''SIP'', 0x144), (''SATP'', 0x180), (''MSTATUS'', 0x300),
   (''MISA'', 0x301), (''MEDELEG'', 0x302), (''MIDELEG'', 0x303), (''MIE'', 0x304), (''MTVEC'', 0x305),
   (''MCOUNTEREN'', 0x306), (''MSCRATCH'', 0x340), (''MEPC'', 0x341), (''MCAUSE'', 0x342),
   (''MTVAL'', 0x343), (''MIP'', 0x344), (''PMPCFG0'', 0x3a0), (''PMPCFG1'', 0x3a1),
   (''PMPCFG2'', 0x3a2), (''PMPCFG3'', 0x3a3), (''PMPADDR0'', 0x3b0), (''PMPADDR1'', 0x3b1),
   (''PMPADDR2'', 0x3b2), (''PMPADDR3'', 0x3b3), (''PMPADDR4'', 0x3b4), (''PMPADDR5'', 0x3b5),
   (''PMPADDR6'', 0x3b6), (''PMPADDR7'', 0x3b7), (''PMPADDR8'', 0x3b8), (''PMPADDR9'', 0x3b9),
   (''PMPADDR10'', 0x3ba), (''PMPADDR11'', 0x3bb), (''PMPADDR12'', 0x3bc), (''PMPADDR13'', 0x3bd),
   (''PMPADDR14'', 0x3be), (''PMPADDR15'', 0x3bf), (''TSELECT'', 0x7a0), (''TDATA1'', 0x7a1),
   (''TDATA2'', 0x7a2), (''TDATA3'', 0x7a3), (''DCSR'', 0x7b0), (''DPC'', 0x7b1), (''DSCRATCH'', 0x7b2),
   (''MCYCLE'', 0xb00), (''MINSTRET'', 0xb02), (''MHPMCOUNTER3'', 0xb03), (''MHPMCOUNTER4'', 0xb04),
   (''MHPMCOUNTER5'', 0xb05), (''MHPMCOUNTER6'', 0xb06), (''MHPMCOUNTER7'', 0xb07),
   (''MHPMCOUNTER8'', 0xb08), (''MHPMCOUNTER9'', 0xb09), (''MHPMCOUNTER10'', 0xb0a),
   (''MHPMCOUNTER11'', 0xb0b), (''MHPMCOUNTER12'', 0xb0c), (''MHPMCOUNTER13'', 0xb0d),
   (''MHPMCOUNTER14'', 0xb0e), (''MHPMCOUNTER15'', 0xb0f), (''MHPMCOUNTER16'', 0xb10),
   (''MHPMCOUNTER17'', 0xb11), (''MHPMCOUNTER18'', 0xb12), (''MHPMCOUNTER19'', 0xb13),
   (''MHPMCOUNTER20'', 0xb14), (''MHPMCOUNTER21'', 0xb15), (''MHPMCOUNTER22'', 0xb16),
   (''MHPMCOUNTER23'', 0xb17), (''MHPMCOUNTER24'', 0xb18), (''MHPMCOUNTER25'', 0xb19),
   (''MHPMCOUNTER26'', 0xb1a), (''MHPMCOUNTER27'', 0xb1b), (''MHPMCOUNTER28'', 0xb1c),
   (''MHPMCOUNTER29'', 0xb1d), (''MHPMCOUNTER30'', 0xb1e), (''MHPMCOUNTER31'', 0xb1f),
   (''MHPMEVENT3'', 0x323), (''MHPMEVENT4'', 0x324), (''MHPMEVENT5'', 0x325), (''MHPMEVENT6'', 0x326),
   (''MHPMEVENT7'', 0x327), (''MHPMEVENT8'', 0x328), (''MHPMEVENT9'', 0x329), (''MHPMEVENT10'', 0x32a),
   (''MHPMEVENT11'', 0x32b), (''MHPMEVENT12'', 0x32c), (''MHPMEVENT13'', 0x32d),
   (''MHPMEVENT14'', 0x32e), (''MHPMEVENT15'', 0x32f), (''MHPMEVENT16'', 0x330),
   (''MHPMEVENT17'', 0x331), (''MHPMEVENT18'', 0x332), (''MHPMEVENT19'', 0x333),
   (''MHPMEVENT20'', 0x334), (''MHPMEVENT21'', 0x335), (''MHPMEVENT22'', 0x336),
   (''MHPMEVENT23'', 0x337), (''MHPMEVENT24'', 0x338), (''MHPMEVENT25'', 0x339),
   (''MHPMEVENT26'', 0x33a), (''MHPMEVENT27'', 0x33b), (''MHPMEVENT28'', 0x33c),
   (''MHPMEVENT29'', 0x33d), (''MHPMEVENT30'', 0x33e), (''MHPMEVENT31'', 0x33f), (''MVENDORID'', 0xf11),
   (''MARCHID'', 0xf12), (''MIMPID'', 0xf13), (''MHARTID'', 0xf14), (''CYCLEH'', 0xc80),
   (''TIMEH'', 0xc81)]"

definition csrs_2 :: "(string \<times> int) list" where
  "csrs_2 = [
   (''INSTRETH'', 0xc82), (''HPMCOUNTER3H'', 0xc83), (''HPMCOUNTER4H'', 0xc84),
   (''HPMCOUNTER5H'', 0xc85), (''HPMCOUNTER6H'', 0xc86), (''HPMCOUNTER7H'', 0xc87),
   (''HPMCOUNTER8H'', 0xc88), (''HPMCOUNTER9H'', 0xc89), (''HPMCOUNTER10H'', 0xc8a),
   (''HPMCOUNTER11H'', 0xc8b), (''HPMCOUNTER12H'', 0xc8c), (''HPMCOUNTER13H'', 0xc8d),
   (''HPMCOUNTER14H'', 0xc8e), (''HPMCOUNTER15H'', 0xc8f), (''HPMCOUNTER16H'', 0xc90),
   (''HPMCOUNTER17H'', 0xc91), (''HPMCOUNTER18H'', 0xc92), (''HPMCOUNTER19H'', 0xc93),
   (''HPMCOUNTER20H'', 0xc94), (''HPMCOUNTER21H'', 0xc95), (''HPMCOUNTER22H'', 0xc96),
   (''HPMCOUNTER23H'', 0xc97), (''HPMCOUNTER24H'', 0xc98), (''HPMCOUNTER25H'', 0xc99),
   (''HPMCOUNTER26H'', 0xc9a), (''HPMCOUNTER27H'', 0xc9b), (''HPMCOUNTER28H'', 0xc9c),
   (''HPMCOUNTER29H'', 0xc9d), (''HPMCOUNTER30H'', 0xc9e), (''HPMCOUNTER31H'', 0xc9f),
   (''MCYCLEH'', 0xb80), (''MINSTRETH'', 0xb82), (''MHPMCOUNTER3H'', 0xb83), (''MHPMCOUNTER4H'', 0xb84),
   (''MHPMCOUNTER5H'', 0xb85), (''MHPMCOUNTER6H'', 0xb86), (''MHPMCOUNTER7H'', 0xb87),
   (''MHPMCOUNTER8H'', 0xb88), (''MHPMCOUNTER9H'', 0xb89), (''MHPMCOUNTER10H'', 0xb8a),
   (''MHPMCOUNTER11H'', 0xb8b), (''MHPMCOUNTER12H'', 0xb8c), (''MHPMCOUNTER13H'', 0xb8d),
   (''MHPMCOUNTER14H'', 0xb8e), (''MHPMCOUNTER15H'', 0xb8f), (''MHPMCOUNTER16H'', 0xb90),
   (''MHPMCOUNTER17H'', 0xb91), (''MHPMCOUNTER18H'', 0xb92), (''MHPMCOUNTER19H'', 0xb93),
   (''MHPMCOUNTER20H'', 0xb94), (''MHPMCOUNTER21H'', 0xb95), (''MHPMCOUNTER22H'', 0xb96),
   (''MHPMCOUNTER23H'', 0xb97), (''MHPMCOUNTER24H'', 0xb98), (''MHPMCOUNTER25H'', 0xb99),
   (''MHPMCOUNTER26H'', 0xb9a), (''MHPMCOUNTER27H'', 0xb9b), (''MHPMCOUNTER28H'', 0xb9c),
   (''MHPMCOUNTER29H'', 0xb9d), (''MHPMCOUNTER30H'', 0xb9e), (''MHPMCOUNTER31H'', 0xb9f)]"

definition csrs :: "(string \<times> int) list" where
  "csrs = csrs_1 @ csrs_2"

definition declared_csrs_1 :: "(string \<times> string) list" where
  "declared_csrs_1 = [
   (''fflags'', ''FFLAGS''), (''frm'', ''FRM''), (''fcsr'', ''FCSR''), (''cycle'', ''CYCLE''),
   (''time'', ''TIME''), (''instret'', ''INSTRET''), (''hpmcounter3'', ''HPMCOUNTER3''),
   (''hpmcounter4'', ''HPMCOUNTER4''), (''hpmcounter5'', ''HPMCOUNTER5''),
   (''hpmcounter6'', ''HPMCOUNTER6''), (''hpmcounter7'', ''HPMCOUNTER7''),
   (''hpmcounter8'', ''HPMCOUNTER8''), (''hpmcounter9'', ''HPMCOUNTER9''),
   (''hpmcounter10'', ''HPMCOUNTER10''), (''hpmcounter11'', ''HPMCOUNTER11''),
   (''hpmcounter12'', ''HPMCOUNTER12''), (''hpmcounter13'', ''HPMCOUNTER13''),
   (''hpmcounter14'', ''HPMCOUNTER14''), (''hpmcounter15'', ''HPMCOUNTER15''),
   (''hpmcounter16'', ''HPMCOUNTER16''), (''hpmcounter17'', ''HPMCOUNTER17''),
   (''hpmcounter18'', ''HPMCOUNTER18''), (''hpmcounter19'', ''HPMCOUNTER19''),
   (''hpmcounter20'', ''HPMCOUNTER20''), (''hpmcounter21'', ''HPMCOUNTER21''),
   (''hpmcounter22'', ''HPMCOUNTER22''), (''hpmcounter23'', ''HPMCOUNTER23''),
   (''hpmcounter24'', ''HPMCOUNTER24''), (''hpmcounter25'', ''HPMCOUNTER25''),
   (''hpmcounter26'', ''HPMCOUNTER26''), (''hpmcounter27'', ''HPMCOUNTER27''),
   (''hpmcounter28'', ''HPMCOUNTER28''), (''hpmcounter29'', ''HPMCOUNTER29''),
   (''hpmcounter30'', ''HPMCOUNTER30''), (''hpmcounter31'', ''HPMCOUNTER31''),
   (''sstatus'', ''SSTATUS''), (''sie'', ''SIE''), (''stvec'', ''STVEC''),
   (''scounteren'', ''SCOUNTEREN''), (''sscratch'', ''SSCRATCH''), (''sepc'', ''SEPC''),
   (''scause'', ''SCAUSE''), (''stval'', ''STVAL''), (''sip'', ''SIP''), (''satp'', ''SATP''),
   (''mstatus'', ''MSTATUS''), (''misa'', ''MISA''), (''medeleg'', ''MEDELEG''),
   (''mideleg'', ''MIDELEG''), (''mie'', ''MIE''), (''mtvec'', ''MTVEC''),
   (''mcounteren'', ''MCOUNTEREN''), (''mscratch'', ''MSCRATCH''), (''mepc'', ''MEPC''),
   (''mcause'', ''MCAUSE''), (''mtval'', ''MTVAL''), (''mip'', ''MIP''), (''pmpcfg0'', ''PMPCFG0''),
   (''pmpcfg1'', ''PMPCFG1''), (''pmpcfg2'', ''PMPCFG2''), (''pmpcfg3'', ''PMPCFG3''),
   (''pmpaddr0'', ''PMPADDR0''), (''pmpaddr1'', ''PMPADDR1''), (''pmpaddr2'', ''PMPADDR2''),
   (''pmpaddr3'', ''PMPADDR3''), (''pmpaddr4'', ''PMPADDR4''), (''pmpaddr5'', ''PMPADDR5''),
   (''pmpaddr6'', ''PMPADDR6''), (''pmpaddr7'', ''PMPADDR7''), (''pmpaddr8'', ''PMPADDR8''),
   (''pmpaddr9'', ''PMPADDR9''), (''pmpaddr10'', ''PMPADDR10''), (''pmpaddr11'', ''PMPADDR11''),
   (''pmpaddr12'', ''PMPADDR12''), (''pmpaddr13'', ''PMPADDR13''), (''pmpaddr14'', ''PMPADDR14''),
   (''pmpaddr15'', ''PMPADDR15''), (''tselect'', ''TSELECT''), (''tdata1'', ''TDATA1''),
   (''tdata2'', ''TDATA2''), (''tdata3'', ''TDATA3''), (''dcsr'', ''DCSR''), (''dpc'', ''DPC''),
   (''dscratch'', ''DSCRATCH''), (''mcycle'', ''MCYCLE''), (''minstret'', ''MINSTRET''),
   (''mhpmcounter3'', ''MHPMCOUNTER3''), (''mhpmcounter4'', ''MHPMCOUNTER4''),
   (''mhpmcounter5'', ''MHPMCOUNTER5''), (''mhpmcounter6'', ''MHPMCOUNTER6''),
   (''mhpmcounter7'', ''MHPMCOUNTER7''), (''mhpmcounter8'', ''MHPMCOUNTER8''),
   (''mhpmcounter9'', ''MHPMCOUNTER9''), (''mhpmcounter10'', ''MHPMCOUNTER10''),
   (''mhpmcounter11'', ''MHPMCOUNTER11''), (''mhpmcounter12'', ''MHPMCOUNTER12''),
   (''mhpmcounter13'', ''MHPMCOUNTER13''), (''mhpmcounter14'', ''MHPMCOUNTER14''),
   (''mhpmcounter15'', ''MHPMCOUNTER15''), (''mhpmcounter16'', ''MHPMCOUNTER16''),
   (''mhpmcounter17'', ''MHPMCOUNTER17''), (''mhpmcounter18'', ''MHPMCOUNTER18''),
   (''mhpmcounter19'', ''MHPMCOUNTER19''), (''mhpmcounter20'', ''MHPMCOUNTER20''),
   (''mhpmcounter21'', ''MHPMCOUNTER21''), (''mhpmcounter22'', ''MHPMCOUNTER22''),
   (''mhpmcounter23'', ''MHPMCOUNTER23''), (''mhpmcounter24'', ''MHPMCOUNTER24''),
   (''mhpmcounter25'', ''MHPMCOUNTER25''), (''mhpmcounter26'', ''MHPMCOUNTER26''),
   (''mhpmcounter27'', ''MHPMCOUNTER27''), (''mhpmcounter28'', ''MHPMCOUNTER28''),
   (''mhpmcounter29'', ''MHPMCOUNTER29''), (''mhpmcounter30'', ''MHPMCOUNTER30''),
   (''mhpmcounter31'', ''MHPMCOUNTER31''), (''mhpmevent3'', ''MHPMEVENT3''),
   (''mhpmevent4'', ''MHPMEVENT4''), (''mhpmevent5'', ''MHPMEVENT5''), (''mhpmevent6'', ''MHPMEVENT6''),
   (''mhpmevent7'', ''MHPMEVENT7''), (''mhpmevent8'', ''MHPMEVENT8''), (''mhpmevent9'', ''MHPMEVENT9''),
   (''mhpmevent10'', ''MHPMEVENT10''), (''mhpmevent11'', ''MHPMEVENT11''),
   (''mhpmevent12'', ''MHPMEVENT12''), (''mhpmevent13'', ''MHPMEVENT13''),
   (''mhpmevent14'', ''MHPMEVENT14''), (''mhpmevent15'', ''MHPMEVENT15''),
   (''mhpmevent16'', ''MHPMEVENT16''), (''mhpmevent17'', ''MHPMEVENT17''),
   (''mhpmevent18'', ''MHPMEVENT18''), (''mhpmevent19'', ''MHPMEVENT19''),
   (''mhpmevent20'', ''MHPMEVENT20''), (''mhpmevent21'', ''MHPMEVENT21''),
   (''mhpmevent22'', ''MHPMEVENT22''), (''mhpmevent23'', ''MHPMEVENT23''),
   (''mhpmevent24'', ''MHPMEVENT24''), (''mhpmevent25'', ''MHPMEVENT25''),
   (''mhpmevent26'', ''MHPMEVENT26''), (''mhpmevent27'', ''MHPMEVENT27''),
   (''mhpmevent28'', ''MHPMEVENT28''), (''mhpmevent29'', ''MHPMEVENT29''),
   (''mhpmevent30'', ''MHPMEVENT30''), (''mhpmevent31'', ''MHPMEVENT31''),
   (''mvendorid'', ''MVENDORID''), (''marchid'', ''MARCHID''), (''mimpid'', ''MIMPID''),
   (''mhartid'', ''MHARTID''), (''cycleh'', ''CYCLEH''), (''timeh'', ''TIMEH'')]"

definition declared_csrs_2 :: "(string \<times> string) list" where
  "declared_csrs_2 = [
   (''instreth'', ''INSTRETH''), (''hpmcounter3h'', ''HPMCOUNTER3H''),
   (''hpmcounter4h'', ''HPMCOUNTER4H''), (''hpmcounter5h'', ''HPMCOUNTER5H''),
   (''hpmcounter6h'', ''HPMCOUNTER6H''), (''hpmcounter7h'', ''HPMCOUNTER7H''),
   (''hpmcounter8h'', ''HPMCOUNTER8H''), (''hpmcounter9h'', ''HPMCOUNTER9H''),
   (''hpmcounter10h'', ''HPMCOUNTER10H''), (''hpmcounter11h'', ''HPMCOUNTER11H''),
   (''hpmcounter12h'', ''HPMCOUNTER12H''), (''hpmcounter13h'', ''HPMCOUNTER13H''),
   (''hpmcounter14h'', ''HPMCOUNTER14H''), (''hpmcounter15h'', ''HPMCOUNTER15H''),
   (''hpmcounter16h'', ''HPMCOUNTER16H''), (''hpmcounter17h'', ''HPMCOUNTER17H''),
   (''hpmcounter18h'', ''HPMCOUNTER18H''), (''hpmcounter19h'', ''HPMCOUNTER19H''),
   (''hpmcounter20h'', ''HPMCOUNTER20H''), (''hpmcounter21h'', ''HPMCOUNTER21H''),
   (''hpmcounter22h'', ''HPMCOUNTER22H''), (''hpmcounter23h'', ''HPMCOUNTER23H''),
   (''hpmcounter24h'', ''HPMCOUNTER24H''), (''hpmcounter25h'', ''HPMCOUNTER25H''),
   (''hpmcounter26h'', ''HPMCOUNTER26H''), (''hpmcounter27h'', ''HPMCOUNTER27H''),
   (''hpmcounter28h'', ''HPMCOUNTER28H''), (''hpmcounter29h'', ''HPMCOUNTER29H''),
   (''hpmcounter30h'', ''HPMCOUNTER30H''), (''hpmcounter31h'', ''HPMCOUNTER31H''),
   (''mcycleh'', ''MCYCLEH''), (''minstreth'', ''MINSTRETH''), (''mhpmcounter3h'', ''MHPMCOUNTER3H''),
   (''mhpmcounter4h'', ''MHPMCOUNTER4H''), (''mhpmcounter5h'', ''MHPMCOUNTER5H''),
   (''mhpmcounter6h'', ''MHPMCOUNTER6H''), (''mhpmcounter7h'', ''MHPMCOUNTER7H''),
   (''mhpmcounter8h'', ''MHPMCOUNTER8H''), (''mhpmcounter9h'', ''MHPMCOUNTER9H''),
   (''mhpmcounter10h'', ''MHPMCOUNTER10H''), (''mhpmcounter11h'', ''MHPMCOUNTER11H''),
   (''mhpmcounter12h'', ''MHPMCOUNTER12H''), (''mhpmcounter13h'', ''MHPMCOUNTER13H''),
   (''mhpmcounter14h'', ''MHPMCOUNTER14H''), (''mhpmcounter15h'', ''MHPMCOUNTER15H''),
   (''mhpmcounter16h'', ''MHPMCOUNTER16H''), (''mhpmcounter17h'', ''MHPMCOUNTER17H''),
   (''mhpmcounter18h'', ''MHPMCOUNTER18H''), (''mhpmcounter19h'', ''MHPMCOUNTER19H''),
   (''mhpmcounter20h'', ''MHPMCOUNTER20H''), (''mhpmcounter21h'', ''MHPMCOUNTER21H''),
   (''mhpmcounter22h'', ''MHPMCOUNTER22H''), (''mhpmcounter23h'', ''MHPMCOUNTER23H''),
   (''mhpmcounter24h'', ''MHPMCOUNTER24H''), (''mhpmcounter25h'', ''MHPMCOUNTER25H''),
   (''mhpmcounter26h'', ''MHPMCOUNTER26H''), (''mhpmcounter27h'', ''MHPMCOUNTER27H''),
   (''mhpmcounter28h'', ''MHPMCOUNTER28H''), (''mhpmcounter29h'', ''MHPMCOUNTER29H''),
   (''mhpmcounter30h'', ''MHPMCOUNTER30H''), (''mhpmcounter31h'', ''MHPMCOUNTER31H'')]"

definition declared_csrs :: "(string \<times> string) list" where
  "declared_csrs = declared_csrs_1 @ declared_csrs_2"

text \<open>\<^verbatim>\<open>CAUSE_X\<close>, and the list of \<^verbatim>\<open>DECLARE_CAUSE\<close>: a text and the name of the macro.\<close>

definition causes :: "(string \<times> int) list" where
  "causes = [
   (''MISALIGNED_FETCH'', 0x0), (''FETCH_ACCESS'', 0x1), (''ILLEGAL_INSTRUCTION'', 0x2),
   (''BREAKPOINT'', 0x3), (''MISALIGNED_LOAD'', 0x4), (''LOAD_ACCESS'', 0x5),
   (''MISALIGNED_STORE'', 0x6), (''STORE_ACCESS'', 0x7), (''USER_ECALL'', 0x8),
   (''SUPERVISOR_ECALL'', 0x9), (''HYPERVISOR_ECALL'', 0xa), (''MACHINE_ECALL'', 0xb),
   (''FETCH_PAGE_FAULT'', 0xc), (''LOAD_PAGE_FAULT'', 0xd), (''STORE_PAGE_FAULT'', 0xf)]"

definition declared_causes :: "(string \<times> string) list" where
  "declared_causes = [
   (''misaligned fetch'', ''MISALIGNED_FETCH''), (''fetch access'', ''FETCH_ACCESS''),
   (''illegal instruction'', ''ILLEGAL_INSTRUCTION''), (''breakpoint'', ''BREAKPOINT''),
   (''misaligned load'', ''MISALIGNED_LOAD''), (''load access'', ''LOAD_ACCESS''),
   (''misaligned store'', ''MISALIGNED_STORE''), (''store access'', ''STORE_ACCESS''),
   (''user_ecall'', ''USER_ECALL''), (''supervisor_ecall'', ''SUPERVISOR_ECALL''),
   (''hypervisor_ecall'', ''HYPERVISOR_ECALL''), (''machine_ecall'', ''MACHINE_ECALL''),
   (''fetch page fault'', ''FETCH_PAGE_FAULT''), (''load page fault'', ''LOAD_PAGE_FAULT''),
   (''store page fault'', ''STORE_PAGE_FAULT'')]"

lemma declared_csrs_macros: "map snd declared_csrs = map fst csrs"
  by (simp add: declared_csrs_def declared_csrs_1_def declared_csrs_2_def csrs_def csrs_1_def csrs_2_def)

lemma declared_causes_macros: "map snd declared_causes = map fst causes"
  by (simp add: declared_causes_def causes_def)

definition csr_name :: "int \<Rightarrow> string option" where
  "csr_name k = map_of (zip (map snd csrs) (map fst declared_csrs)) k"

section \<open>Fields of registers\<close>

text \<open>
  The masks of the fields, one list per register; a mask that depends on the width of the
  registers is a function of \<open>xlen\<close>. The values that go into the fields come after them.
\<close>

definition mstatus_masks :: "(string \<times> u64) list" where
  "mstatus_masks = [(''UIE'', 0x00000001), (''SIE'', 0x00000002), (''HIE'', 0x00000004), (''MIE'', 0x00000008),
     (''UPIE'', 0x00000010), (''SPIE'', 0x00000020), (''HPIE'', 0x00000040), (''MPIE'', 0x00000080),
     (''SPP'', 0x00000100), (''HPP'', 0x00000600), (''MPP'', 0x00001800), (''FS'', 0x00006000),
     (''XS'', 0x00018000), (''MPRV'', 0x00020000), (''SUM'', 0x00040000), (''MXR'', 0x00080000),
     (''TVM'', 0x00100000), (''TW'', 0x00200000), (''TSR'', 0x00400000), (''SD32'', 0x80000000),
     (''UXL'', 0x0000000300000000), (''SXL'', 0x0000000C00000000), (''SD64'', 0x8000000000000000)]"

definition sstatus_masks :: "(string \<times> u64) list" where
  "sstatus_masks = [(''UIE'', 0x00000001), (''SIE'', 0x00000002), (''UPIE'', 0x00000010), (''SPIE'', 0x00000020),
     (''SPP'', 0x00000100), (''FS'', 0x00006000), (''XS'', 0x00018000), (''SUM'', 0x00040000),
     (''MXR'', 0x00080000), (''SD32'', 0x80000000), (''UXL'', 0x0000000300000000), (''SD64'', 0x8000000000000000)]"

definition dcsr_masks :: "(string \<times> u64) list" where
  "dcsr_masks = [(''XDEBUGVER'', push_bit 30 3), (''NDRESET'', push_bit 29 1), (''FULLRESET'', push_bit 28 1),
     (''EBREAKM'', push_bit 15 1), (''EBREAKH'', push_bit 14 1), (''EBREAKS'', push_bit 13 1),
     (''EBREAKU'', push_bit 12 1), (''STOPCYCLE'', push_bit 10 1), (''STOPTIME'', push_bit 9 1),
     (''CAUSE'', push_bit 6 7), (''DEBUGINT'', push_bit 5 1), (''HALT'', push_bit 3 1), (''STEP'', push_bit 2 1),
     (''PRV'', push_bit 0 3)]"

definition dcsr_causes :: "(string \<times> u64) list" where
  "dcsr_causes = [(''NONE'', 0), (''SWBP'', 1), (''HWBP'', 2), (''DEBUGINT'', 3), (''STEP'', 4), (''HALT'', 5)]"

definition mcontrol_masks :: "nat \<Rightarrow> (string \<times> u64) list" where
  "mcontrol_masks xlen = [(''TYPE'', push_bit (xlen - 4) 0xf), (''DMODE'', push_bit (xlen - 5) 1),
     (''MASKMAX'', push_bit (xlen - 11) 0x3f),
     (''SELECT'', push_bit 19 1), (''TIMING'', push_bit 18 1), (''ACTION'', push_bit 12 0x3f),
     (''CHAIN'', push_bit 11 1), (''MATCH'', push_bit 7 0xf), (''M'', push_bit 6 1), (''H'', push_bit 5 1),
     (''S'', push_bit 4 1), (''U'', push_bit 3 1), (''EXECUTE'', push_bit 2 1), (''STORE'', push_bit 1 1),
     (''LOAD'', push_bit 0 1)]"

definition mcontrol_types :: "(string \<times> u64) list" where
  "mcontrol_types = [(''NONE'', 0), (''MATCH'', 2)]"

definition mcontrol_actions :: "(string \<times> u64) list" where
  "mcontrol_actions = [(''DEBUG_EXCEPTION'', 0), (''DEBUG_MODE'', 1), (''TRACE_START'', 2), (''TRACE_STOP'', 3),
     (''TRACE_EMIT'', 4)]"

definition mcontrol_matches :: "(string \<times> u64) list" where
  "mcontrol_matches = [(''EQUAL'', 0), (''NAPOT'', 1), (''GE'', 2), (''LT'', 3), (''MASK_LOW'', 4),
     (''MASK_HIGH'', 5)]"

definition irqs :: "(string \<times> nat) list" where
  "irqs = [(''S_SOFT'', 1), (''H_SOFT'', 2), (''M_SOFT'', 3), (''S_TIMER'', 5), (''H_TIMER'', 6), (''M_TIMER'', 7),
     (''S_EXT'', 9), (''H_EXT'', 10), (''M_EXT'', 11), (''COP'', 12), (''HOST'', 13)]"

definition irq :: "string \<Rightarrow> nat" where
  "irq n = (case map_of irqs n of Some k \<Rightarrow> k | None \<Rightarrow> 0)"

definition mip_masks :: "(string \<times> u64) list" where
  "mip_masks = [(''SSIP'', push_bit (irq ''S_SOFT'') 1), (''HSIP'', push_bit (irq ''H_SOFT'') 1),
     (''MSIP'', push_bit (irq ''M_SOFT'') 1), (''STIP'', push_bit (irq ''S_TIMER'') 1),
     (''HTIP'', push_bit (irq ''H_TIMER'') 1), (''MTIP'', push_bit (irq ''M_TIMER'') 1),
     (''SEIP'', push_bit (irq ''S_EXT'') 1), (''HEIP'', push_bit (irq ''H_EXT'') 1),
     (''MEIP'', push_bit (irq ''M_EXT'') 1)]"

definition satp32_masks :: "(string \<times> u64) list" where
  "satp32_masks = [(''MODE'', 0x80000000), (''ASID'', 0x7FC00000), (''PPN'', 0x003FFFFF)]"

definition satp64_masks :: "(string \<times> u64) list" where
  "satp64_masks = [(''MODE'', 0xF000000000000000), (''ASID'', 0x0FFFF00000000000), (''PPN'', 0x00000FFFFFFFFFFF)]"

definition satp_modes :: "(string \<times> u64) list" where
  "satp_modes = [(''OFF'', 0), (''SV32'', 1), (''SV39'', 8), (''SV48'', 9), (''SV57'', 10), (''SV64'', 11)]"

definition pmp_masks :: "(string \<times> u64) list" where
  "pmp_masks = [(''R'', 0x01), (''W'', 0x02), (''X'', 0x04), (''A'', 0x18), (''L'', 0x80)]"

definition pmp_modes :: "(string \<times> u64) list" where
  "pmp_modes = [(''TOR'', 0x08), (''NA4'', 0x10), (''NAPOT'', 0x18)]"

definition pte_masks :: "(string \<times> u64) list" where
  "pte_masks = [(''V'', 0x001), (''R'', 0x002), (''W'', 0x004), (''X'', 0x008), (''U'', 0x010), (''G'', 0x020),
     (''A'', 0x040), (''D'', 0x080), (''SOFT'', 0x300)]"

definition pte :: "string \<Rightarrow> u64" where
  "pte n = (case map_of pte_masks n of Some m \<Rightarrow> m | None \<Rightarrow> 0)"

definition pte_table :: "u64 \<Rightarrow> bool" where
  "pte_table x \<longleftrightarrow> x AND (pte ''V'' OR pte ''R'' OR pte ''W'' OR pte ''X'') = pte ''V''"

text \<open>A list of masks with no bit in two of them; a list of masks that covers a word.\<close>

definition disjoint_masks :: "(string \<times> u64) list \<Rightarrow> bool" where
  "disjoint_masks l \<longleftrightarrow> sorted_wrt (\<lambda>(n, x) (n', y). x AND y = 0) l"

lemma masks_disjoint:
  "disjoint_masks mstatus_masks" "disjoint_masks sstatus_masks" "disjoint_masks dcsr_masks"
  "disjoint_masks (mcontrol_masks 32)" "disjoint_masks (mcontrol_masks 64)" "disjoint_masks mip_masks"
  "disjoint_masks satp32_masks" "disjoint_masks satp64_masks" "disjoint_masks pmp_masks" "disjoint_masks pte_masks"
  by code_simp+

lemma sstatus_part: "set sstatus_masks \<subseteq> set mstatus_masks"
  by (simp add: sstatus_masks_def mstatus_masks_def)

lemma satp_covers:
  "foldr (OR) (map snd satp32_masks) 0 = 0xFFFFFFFF" "foldr (OR) (map snd satp64_masks) 0 = - 1"
  by code_simp+

lemma pte_table_iff:
  "pte_table x \<longleftrightarrow> bit x 0 \<and> \<not> bit x 1 \<and> \<not> bit x 2 \<and> \<not> bit x 3"
proof -
  have p: "pte ''V'' OR pte ''R'' OR pte ''W'' OR pte ''X'' = mask 4" by code_simp
  have one: "pte ''V'' = 1" by code_simp
  have "pte_table x \<longleftrightarrow> x AND mask 4 = 1" unfolding pte_table_def p unfolding one ..
  also have "\<dots> \<longleftrightarrow> (\<forall>n < 64. bit x n \<and> n < 4 \<longleftrightarrow> n = 0)"
    unfolding bit_eq_iff [of "x AND mask 4" 1] by (auto simp add: bit_simps bit_1_iff)
  also have "\<dots> \<longleftrightarrow> (\<forall>n < 4. bit x n = (n = 0))"
  proof (rule iffI; rule allI; rule impI)
    fix n :: nat
    assume "\<forall>n < 64. (bit x n \<and> n < 4) = (n = 0)" "n < 4"
    then show "bit x n = (n = 0)" by (auto dest: spec [of _ n])
  next
    fix n :: nat
    assume "\<forall>n < 4. bit x n = (n = 0)" "n < 64"
    then show "(bit x n \<and> n < 4) = (n = 0)" by (cases "n < 4") auto
  qed
  also have "\<dots> \<longleftrightarrow> bit x 0 \<and> \<not> bit x 1 \<and> \<not> bit x 2 \<and> \<not> bit x 3"
    by (auto simp add: numeral_eq_Suc All_less_Suc simp del: bit_0)
  finally show ?thesis .
qed

end
