(* ===== verification/Dtm_encoding.thy ===== *)
theory Dtm_encoding
  imports Dtm_facts Encoding
begin

text \<open>
  The literals in the instruction macros of \<^verbatim>\<open>dtm.cc\<close> against the table of \<^verbatim>\<open>encoding.h\<close>: every
  word that the transport puts into a program buffer decodes to one instruction, the one it
  is named after.
\<close>

text \<open>The fields that the masks of these instructions select.\<close>

definition funct7_of :: "u32 \<Rightarrow> 7 word" where "funct7_of i = ucast (drop_bit 25 i)"

definition imm_j_of :: "u32 \<Rightarrow> 21 word" where
  "imm_j_of i = push_bit 1 (ucast (rv_x i 21 10)) OR push_bit 11 (ucast (rv_x i 20 1))
     OR push_bit 12 (ucast (rv_x i 12 8)) OR push_bit 20 (ucast (rv_x i 31 1))"

lemmas jump_simps = JUMP_def [folded shl_def] SRL_def [folded shl_def] encode_ujtype_imm_def [folded shl_def]
  funct7_of_def imm_j_of_def [folded shl_def]

lemma jump_fields:
  assumes "\<not> bit (there - here) 0"
  shows "opcode_of (JUMP there here) = 0x6f" "rd_of (JUMP there here) = 0"
    "imm_j_of (JUMP there here) = ucast (there - here)"
  using assms by (simp_all add: decode_simps jump_simps del: bit_0)

lemma jump_opcode: "opcode_of (JUMP there here) = 0x6f"
  by (simp add: decode_simps jump_simps del: bit_0)

lemma srl_fields:
  fixes d b s :: "5 word"
  shows "opcode_of (SRL (ucast d) (ucast b) (ucast s)) = 0x33" "rd_of (SRL (ucast d) (ucast b) (ucast s)) = d"
    "rs1_of (SRL (ucast d) (ucast b) (ucast s)) = b" "rs2_of (SRL (ucast d) (ucast b) (ucast s)) = s"
    "funct3_of (SRL (ucast d) (ucast b) (ucast s)) = 5" "funct7_of (SRL (ucast d) (ucast b) (ucast s)) = 0"
  by (simp_all add: decode_simps jump_simps)

lemma low_fields:
  "w AND 0x7f = ucast (opcode_of w)"
  "w AND 0x707f = ucast (opcode_of w) OR shl 12 (ucast (funct3_of w))"
  "w AND 0xfe00707f = ucast (opcode_of w) OR shl 12 (ucast (funct3_of w)) OR shl 25 (ucast (funct7_of w))"
  by (simp_all add: decode_simps jump_simps)

lemma uint_and_eq: "0 \<le> k \<Longrightarrow> k < 2 ^ 32 \<Longrightarrow> uint (w :: u32) AND k = uint (w AND word_of_int k)"
  by (simp add: uint_and uint_word_of_int take_bit_int_eq_self)

lemma known_insns:
  "(''jal'', Opcode ''JAL'' 0x6f 0x7f) \<in> set insns"
  "(''bne'', Opcode ''BNE'' 0x1063 0x707f) \<in> set insns"
  "(''lw'', Opcode ''LW'' 0x2003 0x707f) \<in> set insns"
  "(''ld'', Opcode ''LD'' 0x3003 0x707f) \<in> set insns"
  "(''sw'', Opcode ''SW'' 0x2023 0x707f) \<in> set insns"
  "(''sd'', Opcode ''SD'' 0x3023 0x707f) \<in> set insns"
  "(''addi'', Opcode ''ADDI'' 0x13 0x707f) \<in> set insns"
  "(''srl'', Opcode ''SRL'' 0x5033 0xfe00707f) \<in> set insns"
  "(''fence_i'', Opcode ''FENCE_I'' 0x100f 0x707f) \<in> set insns"
  "(''ebreak'', Opcode ''EBREAK'' 0x100073 0xffffffff) \<in> set insns"
  "(''csrrw'', Opcode ''CSRRW'' 0x1073 0x707f) \<in> set insns"
  "(''csrrs'', Opcode ''CSRRS'' 0x2073 0x707f) \<in> set insns"
  "(''csrrc'', Opcode ''CSRRC'' 0x3073 0x707f) \<in> set insns"
  by (simp_all add: insns_def opcodes_defs declared_insns_def declared_insns_1_def declared_insns_2_def)

lemma decode_major:
  assumes "(n, Opcode k m 0x7f) \<in> set insns" and "opcode_of w = op" and "m = uint (ucast op :: u32)" and "m AND 3 = 3"
  shows "decode w = [n]"
proof (rule decode_one [OF assms(1)])
  have a: "uint w AND 0x7f = m" using assms(2,3) by (simp add: uint_and_eq low_fields(1))
  then show "matches w (Opcode k m 0x7f)" by (simp add: matches_def)
  have "uint w AND 3 = (uint w AND 0x7f) AND 3" by (simp add: and.assoc)
  then show "uint w AND 3 = 3" using a assms(4) by simp
qed

lemma decode_funct3:
  assumes "(n, Opcode k m 0x707f) \<in> set insns" and "opcode_of w = op" and "funct3_of w = f"
    and "m = uint ((ucast op :: u32) OR shl 12 (ucast f))" and "m AND 3 = 3"
  shows "decode w = [n]"
proof (rule decode_one [OF assms(1)])
  have a: "uint w AND 0x707f = m" using assms(2-4) by (simp add: uint_and_eq low_fields(2))
  then show "matches w (Opcode k m 0x707f)" by (simp add: matches_def)
  have "uint w AND 3 = (uint w AND 0x707f) AND 3" by (simp add: and.assoc)
  then show "uint w AND 3 = 3" using a assms(5) by simp
qed

lemma decode_funct7:
  assumes "(n, Opcode k m 0xfe00707f) \<in> set insns" and "opcode_of w = op" and "funct3_of w = f" and "funct7_of w = g"
    and "m = uint ((ucast op :: u32) OR shl 12 (ucast f) OR shl 25 (ucast g))" and "m AND 3 = 3"
  shows "decode w = [n]"
proof (rule decode_one [OF assms(1)])
  have a: "uint w AND 0xfe00707f = m" using assms(2-5) by (simp add: uint_and_eq low_fields(3))
  then show "matches w (Opcode k m 0xfe00707f)" by (simp add: matches_def)
  have "uint w AND 3 = (uint w AND 0xfe00707f) AND 3" by (simp add: and.assoc)
  then show "uint w AND 3 = 3" using a assms(6) by simp
qed

lemma decode_transfers:
  fixes d b :: "5 word"
  shows "decode (LOAD xl (ucast d) (ucast b) imm) = (if xl = 64 then [''ld''] else [''lw''])"
    and "decode (STORE xl (ucast d) (ucast b) imm) = (if xl = 64 then [''sd''] else [''sw''])"
  using decode_funct3 [OF known_insns(4) load_fields(1) load_fields(5), of 64]
    decode_funct3 [OF known_insns(3) load_fields(1) load_fields(5), of xl]
    decode_funct3 [OF known_insns(6) store_fields(1) store_fields(5), of 64]
    decode_funct3 [OF known_insns(5) store_fields(1) store_fields(5), of xl]
  by (auto simp: shl_def)

lemma decode_others:
  fixes d b s :: "5 word"
  shows "decode (ADDI (ucast d) (ucast b) imm) = [''addi'']"
    and "decode (SRL (ucast d) (ucast b) (ucast s)) = [''srl'']"
    and "decode (JUMP there here) = [''jal'']"
    and "\<not> bit (there - here) 0 \<Longrightarrow> decode (BNE (ucast d) (ucast b) there here) = [''bne'']"
    and "decode FENCE_I = [''fence_i'']" and "decode EBREAK = [''ebreak'']"
proof -
  show "decode (ADDI (ucast d) (ucast b) imm) = [''addi'']"
    by (rule decode_funct3 [OF known_insns(7) addi_fields(1,5)]) (simp_all add: shl_def)
  show "decode (SRL (ucast d) (ucast b) (ucast s)) = [''srl'']"
    by (rule decode_funct7 [OF known_insns(8) srl_fields(1,5,6)]) (simp_all add: shl_def)
  show "decode (JUMP there here) = [''jal'']"
    by (rule decode_major [OF known_insns(1) jump_opcode]) simp_all
  show "\<not> bit (there - here) 0 \<Longrightarrow> decode (BNE (ucast d) (ucast b) there here) = [''bne'']"
    by (rule decode_funct3 [OF known_insns(2) bne_fields(1,4)]) (simp_all add: shl_def)
  show "decode FENCE_I = [''fence_i'']"
    by (rule decode_one [OF known_insns(9)]) (simp_all add: matches_def FENCE_I_def)
  show "decode EBREAK = [''ebreak'']"
    by (rule decode_one [OF known_insns(10)]) (simp_all add: matches_def EBREAK_def)
qed

lemma decode_csr:
  fixes d b :: "5 word" and csr :: "12 word"
  shows "decode (CSRRx csr_write (ucast d) (ucast csr) (ucast b)) = [''csrrw'']"
    and "decode (CSRRx csr_set (ucast d) (ucast csr) (ucast b)) = [''csrrs'']"
    and "decode (CSRRx csr_clear (ucast d) (ucast csr) (ucast b)) = [''csrrc'']"
proof -
  have t: "csr_write = ucast (1 :: 2 word)" "csr_set = ucast (2 :: 2 word)" "csr_clear = ucast (3 :: 2 word)"
    by (simp_all add: csr_write_def csr_set_def csr_clear_def)
  show "decode (CSRRx csr_write (ucast d) (ucast csr) (ucast b)) = [''csrrw'']" unfolding t
    by (rule decode_funct3 [OF known_insns(11) csr_fields(1,4)]) (simp_all add: shl_def)
  show "decode (CSRRx csr_set (ucast d) (ucast csr) (ucast b)) = [''csrrs'']" unfolding t
    by (rule decode_funct3 [OF known_insns(12) csr_fields(1,4)]) (simp_all add: shl_def)
  show "decode (CSRRx csr_clear (ucast d) (ucast csr) (ucast b)) = [''csrrc'']" unfolding t
    by (rule decode_funct3 [OF known_insns(13) csr_fields(1,4)]) (simp_all add: shl_def)
qed

end
