(* ===== verification/Debug_registers.thy ===== *)
theory Debug_registers
  imports Dtm_facts
begin

text \<open>
  The registers of \<^verbatim>\<open>debug_defines.h\<close>, generated from the debug specification: the address of each
  register and its fields. Every field is declared three times, as an offset, as a length and as
  a mask; the theory shows that the three agree, that the fields of a register do not overlap, and
  hence that the macros \<^verbatim>\<open>get_field\<close> and \<^verbatim>\<open>set_field\<close> of \<^verbatim>\<open>dtm.cc\<close> work on every one of them.
\<close>

section \<open>Registers\<close>

datatype 'w reg_field =
  Field (field_name: string) (field_offset: nat) (field_length: nat) (field_bits: 'w)

record 'w debug_register =
  reg_name :: string
  reg_address :: "int option"
  reg_fields :: "'w reg_field list"

text \<open>
  Masks are 32-bit numbers unless the header makes them \<^verbatim>\<open>long\<close>. Some depend on the width \<open>xl\<close> of
  the registers or on the number \<open>abits\<close> of address bits, which the header leaves open.
\<close>

definition DTM_IDCODE_reg :: "u32 debug_register" where
  "DTM_IDCODE_reg = \<lparr>reg_name = ''DTM_IDCODE'', reg_address = Some 0x01, reg_fields = [
     Field ''VERSION'' 28 4 (push_bit 28 0xf), Field ''PARTNUMBER'' 12 16 (push_bit 12 0xffff),
     Field ''MANUFID'' 1 11 (push_bit 1 0x7ff), Field ''1'' 0 1 (push_bit 0 0x1)]\<rparr>"

definition DTM_DTMCS_reg :: "u32 debug_register" where
  "DTM_DTMCS_reg = \<lparr>reg_name = ''DTM_DTMCS'', reg_address = Some 0x10, reg_fields = [
     Field ''DMIHARDRESET'' 17 1 (push_bit 17 0x1), Field ''DMIRESET'' 16 1 (push_bit 16 0x1),
     Field ''IDLE'' 12 3 (push_bit 12 0x7), Field ''DMISTAT'' 10 2 (push_bit 10 0x3),
     Field ''ABITS'' 4 6 (push_bit 4 0x3f), Field ''VERSION'' 0 4 (push_bit 0 0xf)]\<rparr>"

definition DTM_DMI_reg :: "nat \<Rightarrow> u64 debug_register" where
  "DTM_DMI_reg abits = \<lparr>reg_name = ''DTM_DMI'', reg_address = Some 0x11, reg_fields = [
     Field ''ADDRESS'' 34 abits (push_bit 34 (push_bit abits 1 - 1)),
     Field ''DATA'' 2 32 (push_bit 2 0xffffffff), Field ''OP'' 0 2 (push_bit 0 0x3)]\<rparr>"

definition CSR_DCSR_reg :: "u32 debug_register" where
  "CSR_DCSR_reg = \<lparr>reg_name = ''CSR_DCSR'', reg_address = Some 0x7b0, reg_fields = [
     Field ''XDEBUGVER'' 28 4 (push_bit 28 0xf), Field ''EBREAKM'' 15 1 (push_bit 15 0x1),
     Field ''EBREAKH'' 14 1 (push_bit 14 0x1), Field ''EBREAKS'' 13 1 (push_bit 13 0x1),
     Field ''EBREAKU'' 12 1 (push_bit 12 0x1), Field ''STOPCOUNT'' 10 1 (push_bit 10 0x1),
     Field ''STOPTIME'' 9 1 (push_bit 9 0x1), Field ''CAUSE'' 6 3 (push_bit 6 0x7),
     Field ''STEP'' 2 1 (push_bit 2 0x1), Field ''PRV'' 0 2 (push_bit 0 0x3)]\<rparr>"

definition CSR_DPC_reg :: "nat \<Rightarrow> u64 debug_register" where
  "CSR_DPC_reg xl = \<lparr>reg_name = ''CSR_DPC'', reg_address = Some 0x7b1, reg_fields = [
     Field ''DPC'' 0 xl (push_bit 0 (push_bit xl 1 - 1))]\<rparr>"

definition CSR_DSCRATCH0_reg :: "u32 debug_register" where
  "CSR_DSCRATCH0_reg = \<lparr>reg_name = ''CSR_DSCRATCH0'', reg_address = Some 0x7b2, reg_fields = []\<rparr>"

definition CSR_DSCRATCH1_reg :: "u32 debug_register" where
  "CSR_DSCRATCH1_reg = \<lparr>reg_name = ''CSR_DSCRATCH1'', reg_address = Some 0x7b3, reg_fields = []\<rparr>"

definition CSR_TSELECT_reg :: "nat \<Rightarrow> u64 debug_register" where
  "CSR_TSELECT_reg xl = \<lparr>reg_name = ''CSR_TSELECT'', reg_address = Some 0x7a0, reg_fields = [
     Field ''INDEX'' 0 xl (push_bit 0 (push_bit xl 1 - 1))]\<rparr>"

definition CSR_TDATA1_reg :: "nat \<Rightarrow> u64 debug_register" where
  "CSR_TDATA1_reg xl = \<lparr>reg_name = ''CSR_TDATA1'', reg_address = Some 0x7a1, reg_fields = [
     Field ''TYPE'' (xl - 4) 4 (push_bit (xl - 4) 0xf), Field ''HMODE'' (xl - 5) 1 (push_bit (xl - 5) 0x1),
     Field ''DATA'' 0 (xl - 5) (push_bit 0 (push_bit (xl - 5) 1 - 1))]\<rparr>"

definition CSR_TDATA2_reg :: "nat \<Rightarrow> u64 debug_register" where
  "CSR_TDATA2_reg xl = \<lparr>reg_name = ''CSR_TDATA2'', reg_address = Some 0x7a2, reg_fields = [
     Field ''DATA'' 0 xl (push_bit 0 (push_bit xl 1 - 1))]\<rparr>"

definition CSR_TDATA3_reg :: "nat \<Rightarrow> u64 debug_register" where
  "CSR_TDATA3_reg xl = \<lparr>reg_name = ''CSR_TDATA3'', reg_address = Some 0x7a3, reg_fields = [
     Field ''DATA'' 0 xl (push_bit 0 (push_bit xl 1 - 1))]\<rparr>"

definition CSR_MCONTROL_reg :: "nat \<Rightarrow> u64 debug_register" where
  "CSR_MCONTROL_reg xl = \<lparr>reg_name = ''CSR_MCONTROL'', reg_address = Some 0x7a1, reg_fields = [
     Field ''TYPE'' (xl - 4) 4 (push_bit (xl - 4) 0xf), Field ''DMODE'' (xl - 5) 1 (push_bit (xl - 5) 0x1),
     Field ''MASKMAX'' (xl - 11) 6 (push_bit (xl - 11) 0x3f), Field ''SELECT'' 19 1 (push_bit 19 0x1),
     Field ''TIMING'' 18 1 (push_bit 18 0x1), Field ''ACTION'' 12 6 (push_bit 12 0x3f),
     Field ''CHAIN'' 11 1 (push_bit 11 0x1), Field ''MATCH'' 7 4 (push_bit 7 0xf),
     Field ''M'' 6 1 (push_bit 6 0x1), Field ''H'' 5 1 (push_bit 5 0x1), Field ''S'' 4 1 (push_bit 4 0x1),
     Field ''U'' 3 1 (push_bit 3 0x1), Field ''EXECUTE'' 2 1 (push_bit 2 0x1),
     Field ''STORE'' 1 1 (push_bit 1 0x1), Field ''LOAD'' 0 1 (push_bit 0 0x1)]\<rparr>"

definition CSR_ICOUNT_reg :: "nat \<Rightarrow> u64 debug_register" where
  "CSR_ICOUNT_reg xl = \<lparr>reg_name = ''CSR_ICOUNT'', reg_address = Some 0x7a1, reg_fields = [
     Field ''TYPE'' (xl - 4) 4 (push_bit (xl - 4) 0xf), Field ''DMODE'' (xl - 5) 1 (push_bit (xl - 5) 0x1),
     Field ''COUNT'' 10 14 (push_bit 10 0x3fff), Field ''M'' 9 1 (push_bit 9 0x1),
     Field ''H'' 8 1 (push_bit 8 0x1), Field ''S'' 7 1 (push_bit 7 0x1), Field ''U'' 6 1 (push_bit 6 0x1),
     Field ''ACTION'' 0 6 (push_bit 0 0x3f)]\<rparr>"

definition DMI_DMSTATUS_reg :: "u32 debug_register" where
  "DMI_DMSTATUS_reg = \<lparr>reg_name = ''DMI_DMSTATUS'', reg_address = Some 0x11, reg_fields = [
     Field ''ALLRESUMEACK'' 17 1 (push_bit 17 0x1), Field ''ANYRESUMEACK'' 16 1 (push_bit 16 0x1),
     Field ''ALLNONEXISTENT'' 15 1 (push_bit 15 0x1), Field ''ANYNONEXISTENT'' 14 1 (push_bit 14 0x1),
     Field ''ALLUNAVAIL'' 13 1 (push_bit 13 0x1), Field ''ANYUNAVAIL'' 12 1 (push_bit 12 0x1),
     Field ''ALLRUNNING'' 11 1 (push_bit 11 0x1), Field ''ANYRUNNING'' 10 1 (push_bit 10 0x1),
     Field ''ALLHALTED'' 9 1 (push_bit 9 0x1), Field ''ANYHALTED'' 8 1 (push_bit 8 0x1),
     Field ''AUTHENTICATED'' 7 1 (push_bit 7 0x1), Field ''AUTHBUSY'' 6 1 (push_bit 6 0x1),
     Field ''CFGSTRVALID'' 4 1 (push_bit 4 0x1), Field ''VERSION'' 0 4 (push_bit 0 0xf)]\<rparr>"

definition DMI_DMCONTROL_reg :: "u32 debug_register" where
  "DMI_DMCONTROL_reg = \<lparr>reg_name = ''DMI_DMCONTROL'', reg_address = Some 0x10, reg_fields = [
     Field ''HALTREQ'' 31 1 (push_bit 31 0x1), Field ''RESUMEREQ'' 30 1 (push_bit 30 0x1),
     Field ''HARTRESET'' 29 1 (push_bit 29 0x1), Field ''HASEL'' 26 1 (push_bit 26 0x1),
     Field ''HARTSEL'' 16 10 (push_bit 16 0x3ff), Field ''NDMRESET'' 1 1 (push_bit 1 0x1),
     Field ''DMACTIVE'' 0 1 (push_bit 0 0x1)]\<rparr>"

definition DMI_HARTINFO_reg :: "u32 debug_register" where
  "DMI_HARTINFO_reg = \<lparr>reg_name = ''DMI_HARTINFO'', reg_address = Some 0x12, reg_fields = [
     Field ''NSCRATCH'' 20 4 (push_bit 20 0xf), Field ''DATAACCESS'' 16 1 (push_bit 16 0x1),
     Field ''DATASIZE'' 12 4 (push_bit 12 0xf), Field ''DATAADDR'' 0 12 (push_bit 0 0xfff)]\<rparr>"

definition DMI_HALTSUM_reg :: "u32 debug_register" where
  "DMI_HALTSUM_reg = \<lparr>reg_name = ''DMI_HALTSUM'', reg_address = Some 0x13, reg_fields = [
     Field ''HALT1023_992'' 31 1 (push_bit 31 0x1), Field ''HALT991_960'' 30 1 (push_bit 30 0x1),
     Field ''HALT959_928'' 29 1 (push_bit 29 0x1), Field ''HALT927_896'' 28 1 (push_bit 28 0x1),
     Field ''HALT895_864'' 27 1 (push_bit 27 0x1), Field ''HALT863_832'' 26 1 (push_bit 26 0x1),
     Field ''HALT831_800'' 25 1 (push_bit 25 0x1), Field ''HALT799_768'' 24 1 (push_bit 24 0x1),
     Field ''HALT767_736'' 23 1 (push_bit 23 0x1), Field ''HALT735_704'' 22 1 (push_bit 22 0x1),
     Field ''HALT703_672'' 21 1 (push_bit 21 0x1), Field ''HALT671_640'' 20 1 (push_bit 20 0x1),
     Field ''HALT639_608'' 19 1 (push_bit 19 0x1), Field ''HALT607_576'' 18 1 (push_bit 18 0x1),
     Field ''HALT575_544'' 17 1 (push_bit 17 0x1), Field ''HALT543_512'' 16 1 (push_bit 16 0x1),
     Field ''HALT511_480'' 15 1 (push_bit 15 0x1), Field ''HALT479_448'' 14 1 (push_bit 14 0x1),
     Field ''HALT447_416'' 13 1 (push_bit 13 0x1), Field ''HALT415_384'' 12 1 (push_bit 12 0x1),
     Field ''HALT383_352'' 11 1 (push_bit 11 0x1), Field ''HALT351_320'' 10 1 (push_bit 10 0x1),
     Field ''HALT319_288'' 9 1 (push_bit 9 0x1), Field ''HALT287_256'' 8 1 (push_bit 8 0x1),
     Field ''HALT255_224'' 7 1 (push_bit 7 0x1), Field ''HALT223_192'' 6 1 (push_bit 6 0x1),
     Field ''HALT191_160'' 5 1 (push_bit 5 0x1), Field ''HALT159_128'' 4 1 (push_bit 4 0x1),
     Field ''HALT127_96'' 3 1 (push_bit 3 0x1), Field ''HALT95_64'' 2 1 (push_bit 2 0x1),
     Field ''HALT63_32'' 1 1 (push_bit 1 0x1), Field ''HALT31_0'' 0 1 (push_bit 0 0x1)]\<rparr>"

definition DMI_HAWINDOWSEL_reg :: "u32 debug_register" where
  "DMI_HAWINDOWSEL_reg = \<lparr>reg_name = ''DMI_HAWINDOWSEL'', reg_address = Some 0x14, reg_fields = [
     Field ''HAWINDOWSEL'' 0 5 (push_bit 0 0x1f)]\<rparr>"

definition DMI_HAWINDOW_reg :: "u32 debug_register" where
  "DMI_HAWINDOW_reg = \<lparr>reg_name = ''DMI_HAWINDOW'', reg_address = Some 0x15, reg_fields = [
     Field ''MASKDATA'' 0 32 (push_bit 0 0xffffffff)]\<rparr>"

definition DMI_ABSTRACTCS_reg :: "u32 debug_register" where
  "DMI_ABSTRACTCS_reg = \<lparr>reg_name = ''DMI_ABSTRACTCS'', reg_address = Some 0x16, reg_fields = [
     Field ''PROGSIZE'' 24 5 (push_bit 24 0x1f), Field ''BUSY'' 12 1 (push_bit 12 0x1),
     Field ''CMDERR'' 8 3 (push_bit 8 0x7), Field ''DATACOUNT'' 0 5 (push_bit 0 0x1f)]\<rparr>"

definition DMI_COMMAND_reg :: "u32 debug_register" where
  "DMI_COMMAND_reg = \<lparr>reg_name = ''DMI_COMMAND'', reg_address = Some 0x17, reg_fields = [
     Field ''CMDTYPE'' 24 8 (push_bit 24 0xff), Field ''CONTROL'' 0 24 (push_bit 0 0xffffff)]\<rparr>"

definition DMI_ABSTRACTAUTO_reg :: "u32 debug_register" where
  "DMI_ABSTRACTAUTO_reg = \<lparr>reg_name = ''DMI_ABSTRACTAUTO'', reg_address = Some 0x18, reg_fields = [
     Field ''AUTOEXECPROGBUF'' 16 16 (push_bit 16 0xffff), Field ''AUTOEXECDATA'' 0 12 (push_bit 0 0xfff)]\<rparr>"

definition DMI_CFGSTRADDR0_reg :: "u32 debug_register" where
  "DMI_CFGSTRADDR0_reg = \<lparr>reg_name = ''DMI_CFGSTRADDR0'', reg_address = Some 0x19, reg_fields = [
     Field ''ADDR'' 0 32 (push_bit 0 0xffffffff)]\<rparr>"

definition DMI_CFGSTRADDR1_reg :: "u32 debug_register" where
  "DMI_CFGSTRADDR1_reg = \<lparr>reg_name = ''DMI_CFGSTRADDR1'', reg_address = Some 0x1a, reg_fields = []\<rparr>"

definition DMI_CFGSTRADDR2_reg :: "u32 debug_register" where
  "DMI_CFGSTRADDR2_reg = \<lparr>reg_name = ''DMI_CFGSTRADDR2'', reg_address = Some 0x1b, reg_fields = []\<rparr>"

definition DMI_CFGSTRADDR3_reg :: "u32 debug_register" where
  "DMI_CFGSTRADDR3_reg = \<lparr>reg_name = ''DMI_CFGSTRADDR3'', reg_address = Some 0x1c, reg_fields = []\<rparr>"

definition DMI_DATA0_reg :: "u32 debug_register" where
  "DMI_DATA0_reg = \<lparr>reg_name = ''DMI_DATA0'', reg_address = Some 0x04, reg_fields = [
     Field ''DATA'' 0 32 (push_bit 0 0xffffffff)]\<rparr>"

definition DMI_DATA11_reg :: "u32 debug_register" where
  "DMI_DATA11_reg = \<lparr>reg_name = ''DMI_DATA11'', reg_address = Some 0x0f, reg_fields = []\<rparr>"

definition DMI_PROGBUF0_reg :: "u32 debug_register" where
  "DMI_PROGBUF0_reg = \<lparr>reg_name = ''DMI_PROGBUF0'', reg_address = Some 0x20, reg_fields = [
     Field ''DATA'' 0 32 (push_bit 0 0xffffffff)]\<rparr>"

definition DMI_PROGBUF15_reg :: "u32 debug_register" where
  "DMI_PROGBUF15_reg = \<lparr>reg_name = ''DMI_PROGBUF15'', reg_address = Some 0x2f, reg_fields = []\<rparr>"

definition DMI_AUTHDATA_reg :: "u32 debug_register" where
  "DMI_AUTHDATA_reg = \<lparr>reg_name = ''DMI_AUTHDATA'', reg_address = Some 0x30, reg_fields = [
     Field ''DATA'' 0 32 (push_bit 0 0xffffffff)]\<rparr>"

definition DMI_SERCS_reg :: "u32 debug_register" where
  "DMI_SERCS_reg = \<lparr>reg_name = ''DMI_SERCS'', reg_address = Some 0x34, reg_fields = [
     Field ''SERIALCOUNT'' 28 4 (push_bit 28 0xf), Field ''SERIAL'' 24 3 (push_bit 24 0x7),
     Field ''ERROR7'' 23 1 (push_bit 23 0x1), Field ''VALID7'' 22 1 (push_bit 22 0x1),
     Field ''FULL7'' 21 1 (push_bit 21 0x1), Field ''ERROR6'' 20 1 (push_bit 20 0x1),
     Field ''VALID6'' 19 1 (push_bit 19 0x1), Field ''FULL6'' 18 1 (push_bit 18 0x1),
     Field ''ERROR5'' 17 1 (push_bit 17 0x1), Field ''VALID5'' 16 1 (push_bit 16 0x1),
     Field ''FULL5'' 15 1 (push_bit 15 0x1), Field ''ERROR4'' 14 1 (push_bit 14 0x1),
     Field ''VALID4'' 13 1 (push_bit 13 0x1), Field ''FULL4'' 12 1 (push_bit 12 0x1),
     Field ''ERROR3'' 11 1 (push_bit 11 0x1), Field ''VALID3'' 10 1 (push_bit 10 0x1),
     Field ''FULL3'' 9 1 (push_bit 9 0x1), Field ''ERROR2'' 8 1 (push_bit 8 0x1),
     Field ''VALID2'' 7 1 (push_bit 7 0x1), Field ''FULL2'' 6 1 (push_bit 6 0x1),
     Field ''ERROR1'' 5 1 (push_bit 5 0x1), Field ''VALID1'' 4 1 (push_bit 4 0x1),
     Field ''FULL1'' 3 1 (push_bit 3 0x1), Field ''ERROR0'' 2 1 (push_bit 2 0x1),
     Field ''VALID0'' 1 1 (push_bit 1 0x1), Field ''FULL0'' 0 1 (push_bit 0 0x1)]\<rparr>"

definition DMI_SERTX_reg :: "u32 debug_register" where
  "DMI_SERTX_reg = \<lparr>reg_name = ''DMI_SERTX'', reg_address = Some 0x35, reg_fields = [
     Field ''DATA'' 0 32 (push_bit 0 0xffffffff)]\<rparr>"

definition DMI_SERRX_reg :: "u32 debug_register" where
  "DMI_SERRX_reg = \<lparr>reg_name = ''DMI_SERRX'', reg_address = Some 0x36, reg_fields = [
     Field ''DATA'' 0 32 (push_bit 0 0xffffffff)]\<rparr>"

definition DMI_SBCS_reg :: "u32 debug_register" where
  "DMI_SBCS_reg = \<lparr>reg_name = ''DMI_SBCS'', reg_address = Some 0x38, reg_fields = [
     Field ''SBSINGLEREAD'' 20 1 (push_bit 20 0x1), Field ''SBACCESS'' 17 3 (push_bit 17 0x7),
     Field ''SBAUTOINCREMENT'' 16 1 (push_bit 16 0x1), Field ''SBAUTOREAD'' 15 1 (push_bit 15 0x1),
     Field ''SBERROR'' 12 3 (push_bit 12 0x7), Field ''SBASIZE'' 5 7 (push_bit 5 0x7f),
     Field ''SBACCESS128'' 4 1 (push_bit 4 0x1), Field ''SBACCESS64'' 3 1 (push_bit 3 0x1),
     Field ''SBACCESS32'' 2 1 (push_bit 2 0x1), Field ''SBACCESS16'' 1 1 (push_bit 1 0x1),
     Field ''SBACCESS8'' 0 1 (push_bit 0 0x1)]\<rparr>"

definition DMI_SBADDRESS0_reg :: "u32 debug_register" where
  "DMI_SBADDRESS0_reg = \<lparr>reg_name = ''DMI_SBADDRESS0'', reg_address = Some 0x39, reg_fields = [
     Field ''ADDRESS'' 0 32 (push_bit 0 0xffffffff)]\<rparr>"

definition DMI_SBADDRESS1_reg :: "u32 debug_register" where
  "DMI_SBADDRESS1_reg = \<lparr>reg_name = ''DMI_SBADDRESS1'', reg_address = Some 0x3a, reg_fields = [
     Field ''ADDRESS'' 0 32 (push_bit 0 0xffffffff)]\<rparr>"

definition DMI_SBADDRESS2_reg :: "u32 debug_register" where
  "DMI_SBADDRESS2_reg = \<lparr>reg_name = ''DMI_SBADDRESS2'', reg_address = Some 0x3b, reg_fields = [
     Field ''ADDRESS'' 0 32 (push_bit 0 0xffffffff)]\<rparr>"

definition DMI_SBDATA0_reg :: "u32 debug_register" where
  "DMI_SBDATA0_reg = \<lparr>reg_name = ''DMI_SBDATA0'', reg_address = Some 0x3c, reg_fields = [
     Field ''DATA'' 0 32 (push_bit 0 0xffffffff)]\<rparr>"

definition DMI_SBDATA1_reg :: "u32 debug_register" where
  "DMI_SBDATA1_reg = \<lparr>reg_name = ''DMI_SBDATA1'', reg_address = Some 0x3d, reg_fields = [
     Field ''DATA'' 0 32 (push_bit 0 0xffffffff)]\<rparr>"

definition DMI_SBDATA2_reg :: "u32 debug_register" where
  "DMI_SBDATA2_reg = \<lparr>reg_name = ''DMI_SBDATA2'', reg_address = Some 0x3e, reg_fields = [
     Field ''DATA'' 0 32 (push_bit 0 0xffffffff)]\<rparr>"

definition DMI_SBDATA3_reg :: "u32 debug_register" where
  "DMI_SBDATA3_reg = \<lparr>reg_name = ''DMI_SBDATA3'', reg_address = Some 0x3f, reg_fields = [
     Field ''DATA'' 0 32 (push_bit 0 0xffffffff)]\<rparr>"

definition TRACE_reg :: "u32 debug_register" where
  "TRACE_reg = \<lparr>reg_name = ''TRACE'', reg_address = Some 0x728, reg_fields = [
     Field ''WRAPPED'' 24 1 (push_bit 24 0x1), Field ''EMITTIMESTAMP'' 23 1 (push_bit 23 0x1),
     Field ''EMITSTOREDATA'' 22 1 (push_bit 22 0x1), Field ''EMITLOADDATA'' 21 1 (push_bit 21 0x1),
     Field ''EMITSTOREADDR'' 20 1 (push_bit 20 0x1), Field ''EMITLOADADDR'' 19 1 (push_bit 19 0x1),
     Field ''EMITPRIV'' 18 1 (push_bit 18 0x1), Field ''EMITBRANCH'' 17 1 (push_bit 17 0x1),
     Field ''EMITPC'' 16 1 (push_bit 16 0x1), Field ''FULLACTION'' 8 2 (push_bit 8 0x3),
     Field ''DESTINATION'' 4 2 (push_bit 4 0x3), Field ''STALL'' 2 1 (push_bit 2 0x1),
     Field ''DISCARD'' 1 1 (push_bit 1 0x1), Field ''SUPPORTED'' 0 1 (push_bit 0 0x1)]\<rparr>"

definition TBUFSTART_reg :: "u32 debug_register" where
  "TBUFSTART_reg = \<lparr>reg_name = ''TBUFSTART'', reg_address = Some 0x729, reg_fields = []\<rparr>"

definition TBUFEND_reg :: "u32 debug_register" where
  "TBUFEND_reg = \<lparr>reg_name = ''TBUFEND'', reg_address = Some 0x72a, reg_fields = []\<rparr>"

definition TBUFWRITE_reg :: "u32 debug_register" where
  "TBUFWRITE_reg = \<lparr>reg_name = ''TBUFWRITE'', reg_address = Some 0x72b, reg_fields = []\<rparr>"

definition SHORTNAME_reg :: "u32 debug_register" where
  "SHORTNAME_reg = \<lparr>reg_name = ''SHORTNAME'', reg_address = Some 0x123, reg_fields = [
     Field ''FIELD'' 0 8 (push_bit 0 0xff)]\<rparr>"

definition AC_ACCESS_REGISTER_reg :: "u32 debug_register" where
  "AC_ACCESS_REGISTER_reg = \<lparr>reg_name = ''AC_ACCESS_REGISTER'', reg_address = None, reg_fields = [
     Field ''CMDTYPE'' 24 8 (push_bit 24 0xff), Field ''SIZE'' 20 3 (push_bit 20 0x7),
     Field ''POSTEXEC'' 18 1 (push_bit 18 0x1), Field ''TRANSFER'' 17 1 (push_bit 17 0x1),
     Field ''WRITE'' 16 1 (push_bit 16 0x1), Field ''REGNO'' 0 16 (push_bit 0 0xffff)]\<rparr>"

definition AC_QUICK_ACCESS_reg :: "u32 debug_register" where
  "AC_QUICK_ACCESS_reg = \<lparr>reg_name = ''AC_QUICK_ACCESS'', reg_address = None, reg_fields = [
     Field ''CMDTYPE'' 24 8 (push_bit 24 0xff)]\<rparr>"

definition VIRT_PRIV_reg :: "u32 debug_register" where
  "VIRT_PRIV_reg = \<lparr>reg_name = ''VIRT_PRIV'', reg_address = None, reg_fields = [
     Field ''PRV'' 0 2 (push_bit 0 0x3)]\<rparr>"

definition dmi_registers :: "u32 debug_register list" where
  "dmi_registers = [
     DMI_DMSTATUS_reg, DMI_DMCONTROL_reg, DMI_HARTINFO_reg, DMI_HALTSUM_reg, DMI_HAWINDOWSEL_reg,
     DMI_HAWINDOW_reg, DMI_ABSTRACTCS_reg, DMI_COMMAND_reg, DMI_ABSTRACTAUTO_reg, DMI_CFGSTRADDR0_reg,
     DMI_CFGSTRADDR1_reg, DMI_CFGSTRADDR2_reg, DMI_CFGSTRADDR3_reg, DMI_DATA0_reg, DMI_DATA11_reg,
     DMI_PROGBUF0_reg, DMI_PROGBUF15_reg, DMI_AUTHDATA_reg, DMI_SERCS_reg, DMI_SERTX_reg, DMI_SERRX_reg,
     DMI_SBCS_reg, DMI_SBADDRESS0_reg, DMI_SBADDRESS1_reg, DMI_SBADDRESS2_reg, DMI_SBDATA0_reg,
     DMI_SBDATA1_reg, DMI_SBDATA2_reg, DMI_SBDATA3_reg]"

definition other_registers :: "u32 debug_register list" where
  "other_registers = [
     DTM_IDCODE_reg, DTM_DTMCS_reg, CSR_DCSR_reg, CSR_DSCRATCH0_reg, CSR_DSCRATCH1_reg, TRACE_reg,
     TBUFSTART_reg, TBUFEND_reg, TBUFWRITE_reg, SHORTNAME_reg, AC_ACCESS_REGISTER_reg, AC_QUICK_ACCESS_reg,
     VIRT_PRIV_reg]"

definition wide_registers :: "nat \<Rightarrow> nat \<Rightarrow> u64 debug_register list" where
  "wide_registers xl abits = [
     DTM_DMI_reg abits, CSR_DPC_reg xl, CSR_TSELECT_reg xl, CSR_TDATA1_reg xl, CSR_TDATA2_reg xl,
     CSR_TDATA3_reg xl, CSR_MCONTROL_reg xl, CSR_ICOUNT_reg xl]"

lemmas register_defs =
  DTM_IDCODE_reg_def DTM_DTMCS_reg_def CSR_DCSR_reg_def CSR_DSCRATCH0_reg_def CSR_DSCRATCH1_reg_def 
  DMI_DMSTATUS_reg_def DMI_DMCONTROL_reg_def DMI_HARTINFO_reg_def DMI_HALTSUM_reg_def 
  DMI_HAWINDOWSEL_reg_def DMI_HAWINDOW_reg_def DMI_ABSTRACTCS_reg_def DMI_COMMAND_reg_def 
  DMI_ABSTRACTAUTO_reg_def DMI_CFGSTRADDR0_reg_def DMI_CFGSTRADDR1_reg_def DMI_CFGSTRADDR2_reg_def 
  DMI_CFGSTRADDR3_reg_def DMI_DATA0_reg_def DMI_DATA11_reg_def DMI_PROGBUF0_reg_def 
  DMI_PROGBUF15_reg_def DMI_AUTHDATA_reg_def DMI_SERCS_reg_def DMI_SERTX_reg_def DMI_SERRX_reg_def 
  DMI_SBCS_reg_def DMI_SBADDRESS0_reg_def DMI_SBADDRESS1_reg_def DMI_SBADDRESS2_reg_def 
  DMI_SBDATA0_reg_def DMI_SBDATA1_reg_def DMI_SBDATA2_reg_def DMI_SBDATA3_reg_def TRACE_reg_def 
  TBUFSTART_reg_def TBUFEND_reg_def TBUFWRITE_reg_def SHORTNAME_reg_def AC_ACCESS_REGISTER_reg_def 
  AC_QUICK_ACCESS_reg_def VIRT_PRIV_reg_def

lemmas wide_defs =
  DTM_DMI_reg_def CSR_DPC_reg_def CSR_TSELECT_reg_def CSR_TDATA1_reg_def CSR_TDATA2_reg_def 
  CSR_TDATA3_reg_def CSR_MCONTROL_reg_def CSR_ICOUNT_reg_def

section \<open>Well-formed registers\<close>

definition field_ok :: "'w::len word reg_field \<Rightarrow> bool" where
  "field_ok f \<longleftrightarrow> 0 < field_length f \<and> field_offset f + field_length f \<le> LENGTH('w) \<and>
     field_bits f = push_bit (field_offset f) (mask (field_length f))"

definition fields_apart :: "'w reg_field \<Rightarrow> 'w reg_field \<Rightarrow> bool" where
  "fields_apart f g \<longleftrightarrow> field_offset f + field_length f \<le> field_offset g \<or>
     field_offset g + field_length g \<le> field_offset f"

definition register_ok :: "'w::len word debug_register \<Rightarrow> bool" where
  "register_ok r \<longleftrightarrow> list_all field_ok (reg_fields r) \<and> sorted_wrt fields_apart (reg_fields r)"

lemma registers_ok: "list_all register_ok (dmi_registers @ other_registers)"
  by (simp add: dmi_registers_def other_registers_def register_defs register_ok_def field_ok_def fields_apart_def
      mask_eq_exp_minus_1)

lemma wide_registers_ok: "list_all register_ok (wide_registers 32 7)"
  by (simp add: wide_registers_def wide_defs register_ok_def field_ok_def fields_apart_def mask_eq_exp_minus_1)

lemma dmi_addresses: "distinct (map reg_address dmi_registers)"
  by (simp add: dmi_registers_def register_defs)

lemma fields_of_register:
  assumes "register_ok r" and "f \<in> set (reg_fields r)" and "g \<in> set (reg_fields r)"
  shows "field_ok f" "f = g \<or> fields_apart f g"
proof -
  show "field_ok f" using assms by (simp add: register_ok_def list_all_iff)
  have "sorted_wrt fields_apart l \<Longrightarrow> f \<in> set l \<Longrightarrow> g \<in> set l \<Longrightarrow> f = g \<or> fields_apart f g" for l
    by (induction l) (auto simp: fields_apart_def)
  then show "f = g \<or> fields_apart f g" using assms unfolding register_ok_def by blast
qed

text \<open>The masks and addresses that \<^verbatim>\<open>dtm.cc\<close> uses are those of the table.\<close>

definition reg_mask :: "u32 debug_register \<Rightarrow> string \<Rightarrow> u32 option" where
  "reg_mask r n = map_option field_bits (find (\<lambda>f. field_name f = n) (reg_fields r))"

lemma dtm_masks:
  "reg_mask DMI_DMSTATUS_reg ''ALLRESUMEACK'' = Some DMI_DMSTATUS_ALLRESUMEACK"
  "reg_mask DMI_DMSTATUS_reg ''ANYNONEXISTENT'' = Some DMI_DMSTATUS_ANYNONEXISTENT"
  "reg_mask DMI_DMSTATUS_reg ''ALLHALTED'' = Some DMI_DMSTATUS_ALLHALTED"
  "reg_mask DMI_DMCONTROL_reg ''HALTREQ'' = Some DMI_DMCONTROL_HALTREQ"
  "reg_mask DMI_DMCONTROL_reg ''RESUMEREQ'' = Some DMI_DMCONTROL_RESUMEREQ"
  "reg_mask DMI_DMCONTROL_reg ''HARTSEL'' = Some DMI_DMCONTROL_HARTSEL"
  "reg_mask DMI_DMCONTROL_reg ''DMACTIVE'' = Some DMI_DMCONTROL_DMACTIVE"
  "reg_mask DMI_HARTINFO_reg ''NSCRATCH'' = Some DMI_HARTINFO_NSCRATCH"
  "reg_mask DMI_HARTINFO_reg ''DATAACCESS'' = Some DMI_HARTINFO_DATAACCESS"
  "reg_mask DMI_HARTINFO_reg ''DATAADDR'' = Some DMI_HARTINFO_DATAADDR"
  "reg_mask DMI_ABSTRACTCS_reg ''PROGSIZE'' = Some DMI_ABSTRACTCS_PROGSIZE"
  "reg_mask DMI_ABSTRACTCS_reg ''BUSY'' = Some DMI_ABSTRACTCS_BUSY"
  "reg_mask DMI_ABSTRACTCS_reg ''CMDERR'' = Some DMI_ABSTRACTCS_CMDERR"
  "reg_mask DMI_ABSTRACTCS_reg ''DATACOUNT'' = Some DMI_ABSTRACTCS_DATACOUNT"
  "reg_mask AC_ACCESS_REGISTER_reg ''POSTEXEC'' = Some AC_ACCESS_REGISTER_POSTEXEC"
  "reg_mask AC_ACCESS_REGISTER_reg ''TRANSFER'' = Some AC_ACCESS_REGISTER_TRANSFER"
  "reg_mask AC_ACCESS_REGISTER_reg ''WRITE'' = Some AC_ACCESS_REGISTER_WRITE"
  by (simp_all add: reg_mask_def register_defs mask_literals AC_ACCESS_REGISTER_POSTEXEC_def field_mask_def
      mask_eq_exp_minus_1)

lemma dtm_addresses:
  "map (map_option of_int \<circ> reg_address) [DMI_DMSTATUS_reg, DMI_DMCONTROL_reg, DMI_HARTINFO_reg, DMI_ABSTRACTCS_reg,
      DMI_COMMAND_reg, DMI_ABSTRACTAUTO_reg, DMI_DATA0_reg, DMI_PROGBUF0_reg] =
    map Some [DMI_DMSTATUS, DMI_DMCONTROL, DMI_HARTINFO, DMI_ABSTRACTCS, DMI_COMMAND, DMI_ABSTRACTAUTO, DMI_DATA0,
      DMI_PROGBUF0]"
  by (simp add: register_defs DMI_DMSTATUS_def DMI_DMCONTROL_def DMI_HARTINFO_def DMI_ABSTRACTCS_def DMI_COMMAND_def
      DMI_ABSTRACTAUTO_def DMI_DATA0_def DMI_PROGBUF0_def)

lemma wide_registers_64: "list_all register_ok [DTM_DMI_reg 7, CSR_TDATA1_reg 64, CSR_MCONTROL_reg 64, CSR_ICOUNT_reg 64]"
  by (simp add: wide_defs register_ok_def field_ok_def fields_apart_def mask_eq_exp_minus_1)

text \<open>The macros of \<^verbatim>\<open>dtm.cc\<close> on the fields of the table.\<close>

lemma field_ok_mask: "field_ok f \<Longrightarrow> field_bits f = field_mask (field_offset f) (field_length f)"
  by (simp add: field_ok_def field_mask_def)

lemma register_get_set:
  assumes "register_ok r" and "f \<in> set (reg_fields r)" and "g \<in> set (reg_fields r)"
  shows "get_field (set_field w (field_bits f) v) (field_bits f) = take_bit (field_length f) v"
    and "f \<noteq> g \<Longrightarrow> get_field (set_field w (field_bits f) v) (field_bits g) = get_field w (field_bits g)"
proof -
  note f = fields_of_register(1) [OF assms] and g = fields_of_register(1) [OF assms(1,3,2)]
  have d: "0 < field_length f" "field_offset f + field_length f \<le> 32"
    "0 < field_length g" "field_offset g + field_length g \<le> 32" using f g by (simp_all add: field_ok_def)
  show "get_field (set_field w (field_bits f) v) (field_bits f) = take_bit (field_length f) v"
    unfolding field_ok_mask [OF f] by (rule get_set_field [OF d(1,2)])
  assume "f \<noteq> g"
  then have "fields_apart f g" using fields_of_register(2) [OF assms] by blast
  then show "get_field (set_field w (field_bits f) v) (field_bits g) = get_field w (field_bits g)"
    unfolding field_ok_mask [OF f] field_ok_mask [OF g] fields_apart_def by (rule get_set_other [OF d])
qed

end
