(* ===== verification/Spec2Isabelle.thy ===== *)
theory Spec2Isabelle
  imports Instances Demo_elf Dtm_facts Htif_pthread Option_parser Ref_module Dtm_start Context_switch Dtm_encoding Debug_registers
begin

text \<open>
  A model of riscv-fesvr, the RISC-V front-end server: the program on the host that loads a
  binary into a target (a simulated or real RISC-V machine), answers the target's requests
  (system calls, disk, terminal, frame buffer) and returns its exit code.

  \<^bold>\<open>How the program is put together.\<close> The target is reached only through its memory. A
  transport (\<^verbatim>\<open>src/fesvr/tsi.cc\<close> over a serial adapter, \<^verbatim>\<open>dtm.cc\<close> over the debug module,
  \<^verbatim>\<open>htif_hexwriter.cc\<close> over an image in host memory) reads, writes and clears aligned chunks;
  \<^verbatim>\<open>memif.cc\<close> makes of them accesses of any address and length. \<^verbatim>\<open>htif.cc\<close> loads the program with
  \<^verbatim>\<open>elfloader.cc\<close> and polls the word \<^verbatim>\<open>tohost\<close>: a command found there goes to the device list of
  \<^verbatim>\<open>device.cc\<close>, whose handlers (the system-call proxy \<^verbatim>\<open>syscall.cc\<close>, the terminal, disks,
  the frame buffer \<^verbatim>\<open>rfb.cc\<close>) read and write target memory and queue responses, which the
  loop stores into \<^verbatim>\<open>fromhost\<close> one by one.

  \<^bold>\<open>The theories, in the order of their imports.\<close>
    \<^item> \<open>Prelude\<close>: the monad \<open>('s, 'a) M = 's \<Rightarrow> (error + 'a \<times> 's) option\<close> in which all stateful code is
      written (\<open>None\<close>: does not return; \<open>Inl\<close>: an exception, a failed assertion or the end of the
      process; \<open>Inr\<close>: the result and the new state), its rewrite rules \<open>monad_simps\<close>, the loops
      \<open>do_while\<close> and \<open>while_loop\<close>, little-endian bytes, byte-addressed memory (\<open>load\<close>, \<open>store\<close>).
    \<^item> \<open>Memif\<close> (\<^verbatim>\<open>memif.h\<close>, \<^verbatim>\<open>memif.cc\<close>): \<open>chunked_memif\<close>, \<open>memif_read\<close>, \<open>memif_write\<close>, the typed
      accessors; the locales \<open>chunk_rw\<close> and \<open>chunk_provider\<close> state what a transport promises and
      hold the refinement of byte-wise memory, proved once for all transports.
    \<^item> \<open>Htif_hexwriter\<close>, \<open>Elf2hex\<close> (\<^verbatim>\<open>htif_hexwriter.cc\<close>, \<^verbatim>\<open>elf2hex.cc\<close>): the image, its transfer laws, its
      output and the decoding of that output.
    \<^item> \<open>Htif_chunk\<close> (\<^verbatim>\<open>htif.cc\<close>, \<^verbatim>\<open>clear_chunk\<close>), \<open>Tsi\<close> (\<^verbatim>\<open>tsi.cc\<close>): the default clearing loop; the
      serial protocol, with a locale \<open>sai_target\<close> for a target that obeys it and a reference target.
    \<^item> \<open>Context_switch\<close> (\<^verbatim>\<open>context.cc\<close>): contexts with their flags and mutexes, a step relation
      with one step per access to them, its invariants, the progress of a switch, and the refinement of
      the variant on \<^verbatim>\<open>ucontext\<close>.
    \<^item> \<open>Host_os\<close>, \<open>Term\<close> (\<^verbatim>\<open>term.cc\<close>): the operating system as a record \<open>posix\<close> of functions on a host
      state; the terminal and the restoring of its attributes.
    \<^item> \<open>Device\<close> (\<^verbatim>\<open>device.h\<close>, \<^verbatim>\<open>device.cc\<close>): command words, the handler table, disk and terminal.
    \<^item> \<open>Syscall\<close> (\<^verbatim>\<open>syscall.cc\<close>): one definition per system call, \<open>dispatch\<close>, the descriptor table
      with its abstract view \<open>fd_view\<close>, the emulated root directory.
    \<^item> \<open>Elf\<close>, \<open>Elf_facts\<close> (\<^verbatim>\<open>elf.h\<close>, \<^verbatim>\<open>elfloader.cc\<close>): the headers of both classes as records over their
      word type, \<open>load_segments\<close>, \<open>read_symbols\<close>, \<open>load_elf\<close>; what a file says (\<open>image_mem\<close>,
      \<open>image_symbols\<close>, \<open>image_entry\<close>) and that loading a well-formed file does it.
    \<^item> \<open>Rfb\<close>, \<open>Rfb_thread\<close> (\<^verbatim>\<open>rfb.cc\<close>): the frame buffer's device, its two buffers and its messages; the
      server thread, the interleaving of both threads and the invariant of the stream to the client,
      over a host with the laws of the locale \<open>socket_host\<close>.
    \<^item> \<open>Htif\<close>, \<open>Htif_facts\<close> (\<^verbatim>\<open>htif.h\<close>, \<^verbatim>\<open>htif.cc\<close>): construction, arguments, \<open>load_program\<close>, \<open>run\<close>, \<open>stop\<close>.
    \<^item> \<open>Htif_pthread\<close>, \<open>Option_parser\<close>: the byte-stream variant and the command-line parser.
    \<^item> \<open>Dtm\<close>, \<open>Dtm_facts\<close> (\<^verbatim>\<open>dtm.cc\<close>, \<^verbatim>\<open>debug_defines.h\<close>): the debug transport module with the debug
      module interface as a parameter of type \<open>dmi\<close>.
    \<^item> \<open>Encoding\<close>, \<open>Debug_registers\<close> (\<^verbatim>\<open>encoding.h\<close>, \<^verbatim>\<open>debug_defines.h\<close>): the generated tables of
      instructions, control registers and register fields, in lists that follow the headers. Decoding is
      unambiguous, fields do not overlap, and \<open>Dtm_encoding\<close> shows that the macros of \<^verbatim>\<open>dtm.cc\<close> agree with
      the table of instructions.
    \<^item> \<open>Debug_module\<close>: what the transport relies on, as a locale \<open>debug_module\<close>: a debug module that
      answers every request after a finite time, its registers, the program buffer, abstract commands
      with automatic execution, and harts that run the few RV64 instructions the transport writes there.
      The rules \<open>sees\<close>, \<open>does\<close> and \<open>polls\<close> are total-correctness triples over one request.
    \<^item> \<open>Dtm_runs\<close>, \<open>Dtm_chunks\<close>, \<open>Dtm_start\<close>: the triples of the transport's operations, from halting a
      hart to whole chunks, and of the start of the host thread. A sublocale makes the transport a
      \<open>chunk_provider\<close>, so that the theorems of \<open>Memif\<close> hold of it.
    \<^item> \<open>Ref_module\<close>: a debug module with slow answers that obeys every law of the locale.
    \<^item> \<open>Instances\<close>, \<open>Demo_elf\<close>: concrete states, and instances of the interfaces, at which the
      properties are applied.

  \<^bold>\<open>How state and code correspond.\<close> A C++ object is a record; a base class is an extensible
  record, so a method of the base works on every subclass. A virtual call is a field of an
  operations record (\<open>chunked_memif\<close>, \<open>sub_htif\<close>). Methods are state transformers in the monad, in
  the order of the code's effects. The state of a run is one record (\<open>machine\<close> \<open>\<rightarrow>\<close> \<open>proxy\<close> \<open>\<rightarrow>\<close> \<open>htif\<close>) with
  the transport's state \<open>chunks\<close>, the host's state \<open>host\<close>, the queue \<open>fromhost_queue\<close> and the objects.
  Words have the width of the code; sizes and indices of containers are natural numbers where
  the code cannot overflow them and words where it can. The host is little-endian with a
  64-bit \<^verbatim>\<open>size_t\<close>.

  \<^bold>\<open>The debug module.\<close> The module and the hart behind \<^verbatim>\<open>dtm.cc\<close> are hardware, not code of the
  repository; the locale takes from the debug specification what the code uses. Against it are
  proved the chunk transfers and the start for 64-bit harts. Harts that are not halted are assumed
  idle, and the window through which a hart sees the data registers is not part of the locale: so
  the access to control registers, \<^verbatim>\<open>fence_i\<close> and \<^verbatim>\<open>reset\<close>, which go through it, are modelled, and what
  is proved of them does not involve the module.

  \<^bold>\<open>Loops.\<close> No fuel is used. Loops over data are structural; loops that wait for the other side
  (polling the debug module, the serial queue, the main loop) are partial functions into
  \<open>option\<close>, so waiting for ever is the value \<open>None\<close>, and the properties below state that a
  result is returned wherever the code returns one.

  \<^bold>\<open>Threads.\<close> \<open>Context_switch\<close> models the coroutines with all interleavings of their threads and
  shows that one context executes at a time; the other theories rest on this when they treat the other
  side of a transport as a parameter (\<open>tgt\<close>, \<open>hst\<close>) that runs while this side waits. The frame
  buffer's server thread is the only code that runs beside the main thread: \<open>Rfb_thread\<close>.

  \<^bold>\<open>Not modelled.\<close> The empty function of \<^verbatim>\<open>dummy.cc\<close>; the build scripts; and the macros for
  assembler code (under \<^verbatim>\<open>__riscv\<close>) of \<^verbatim>\<open>encoding.h\<close>, which the program does not compile. Files,
  sockets, threads and the terminal are the fields of \<open>posix\<close>.
\<close>

section \<open>Target memory behind a chunk interface\<close>

text \<open>
  C2. A read of any address and length, through any interface that obeys the transfer laws,
  returns the bytes of the abstract memory and leaves the memory as it was: alignment and
  splitting into chunks cannot be observed.
\<close>

theorem memif_read_correct:
  assumes "chunk_rw c mem invar valid k mx" and "invar s" and "\<forall>i<n. valid (a + of_nat i)"
  shows "\<exists>s'. memif_read c a n s = Some (Inr (load (mem s) a n, s')) \<and> invar s' \<and> mem s' = mem s"
  by (rule chunk_rw.read_correct [OF assms])

theorem memif_read_correct_witness:
  "\<exists>s'. memif_read ref_ops 0x80000003 100 (tsi_with (\<lambda>_. 7)) = Some (Inr (load (\<lambda>_. 7) 0x80000003 100, s'))"
  using memif_read_correct [OF ref_rw tsi_with_invar, of 100 "0x80000003" "\<lambda>_. 7"] by auto

text \<open>
  C1. A write of any address and length, aligned or not, zeros included, through an interface
  that also obeys the clearing law, stores exactly these bytes and changes no other byte.
\<close>

theorem memif_write_correct:
  assumes "chunk_provider c mem invar valid k mx" and "invar s" and "length bs \<le> 2 ^ 64"
    and "\<forall>i<length bs. valid (a + of_nat i)"
  shows "\<exists>s'. memif_write c a bs s = Some (Inr ((), s')) \<and> invar s' \<and> mem s' = store (mem s) a bs"
  by (rule chunk_provider.write_correct [OF assms])

theorem memif_write_correct_witness:
  "\<exists>s'. memif_write ref_ops 0x80000001 [1, 0, 0, 0, 0, 0, 0, 0, 9] (tsi_with (\<lambda>_. 7)) = Some (Inr ((), s'))
    \<and> ref_mem s' = store (\<lambda>_. 7) 0x80000001 [1, 0, 0, 0, 0, 0, 0, 0, 9]"
  using memif_write_correct [OF ref_provider tsi_with_invar, of "[1, 0, 0, 0, 0, 0, 0, 0, 9]" "0x80000001" "\<lambda>_. 7"]
  by auto

text \<open>
  C3. What was written is read back, whatever the alignment and the length of the block.
\<close>

theorem memif_write_read:
  assumes "chunk_provider c mem invar valid k mx" and "invar s" and "length bs \<le> 2 ^ 64"
    and "\<forall>i<length bs. valid (a + of_nat i)"
  shows "\<exists>s'. bindM (memif_write c a bs) (\<lambda>_. memif_read c a (length bs)) s = Some (Inr (bs, s'))"
  using chunk_provider.write_read [OF assms] by blast

theorem memif_write_read_witness:
  "\<exists>s'. bindM (memif_write ref_ops 5 [1, 2, 3]) (\<lambda>_. memif_read ref_ops 5 3) (tsi_with (\<lambda>_. 0)) = Some (Inr ([1, 2, 3], s'))"
  using memif_write_read [OF ref_provider tsi_with_invar, of "[1, 2, 3]" 5 "\<lambda>_. 0"]
  by (simp add: numeral_3_eq_3)

text \<open>
  C20. The typed accessors: at an aligned address an integer of any width of whole bytes is
  written and read back unchanged; at a misaligned address both refuse with the runtime error.
\<close>

theorem memif_val_roundtrip:
  fixes x :: "'a::len word"
  assumes cp: "chunk_provider c mem invar valid k mx" and s: "invar s" and w: "8 dvd LENGTH('a)"
    "LENGTH('a) div 8 \<le> 2 ^ 64" and v: "\<forall>i<LENGTH('a) div 8. valid (a + of_nat i)"
  shows "if a AND (of_nat (LENGTH('a) div 8) - 1) = 0
    then \<exists>s'. bindM (memif_write_val c a x) (\<lambda>_. memif_read_val c a) s = Some (Inr (x, s'))
    else memif_write_val c a x s = Some (Inl (Runtime_error ''misaligned address''))
      \<and> (memif_read_val c a :: ('s, 'a word) M) s = Some (Inl (Runtime_error ''misaligned address''))"
proof (cases "a AND (of_nat (LENGTH('a) div 8) - 1) = 0")
  case True
  obtain s1 where s1: "memif_write c a (le_bytes x) s = Some (Inr ((), s1))" "invar s1"
    "mem s1 = store (mem s) a (le_bytes x)"
    using chunk_provider.write_correct [OF cp s, of "le_bytes x" a] w v by auto
  obtain s2 where s2: "memif_read c a (LENGTH('a) div 8) s1 = Some (Inr (load (mem s1) a (LENGTH('a) div 8), s2))"
    using chunk_rw.read_correct [OF chunk_provider.axioms(1) [OF cp] s1(2) v] by blast
  have "load (mem s1) a (LENGTH('a) div 8) = le_bytes x"
    using load_store_same [of "le_bytes x" "mem s" a] s1(3) w(2) by simp
  then show ?thesis using True s1(1) s2 le_word_le_bytes [OF w(1), of x]
    by (auto simp: memif_write_val_def memif_read_val_def Let_def monad_simps)
next
  case False
  then show ?thesis by (simp add: memif_write_val_def memif_read_val_def Let_def monad_simps)
qed

theorem memif_val_roundtrip_witness:
  "(\<exists>s'. bindM (memif_write_val ref_ops 0x80000010 (0x1122334455667788 :: u64)) (\<lambda>_. memif_read_val ref_ops 0x80000010)
      (tsi_with (\<lambda>_. 0)) = Some (Inr (0x1122334455667788 :: u64, s')))
   \<and> memif_write_val ref_ops 0x80000012 (5 :: u32) (tsi_with (\<lambda>_. 0)) = Some (Inl (Runtime_error ''misaligned address''))"
  using memif_val_roundtrip [OF ref_provider tsi_with_invar, where a = "0x80000010" and x = "0x1122334455667788 :: u64"]
    memif_val_roundtrip [OF ref_provider tsi_with_invar, where a = "0x80000012" and x = "5 :: u32"]
  by simp

section \<open>Chunk providers\<close>

text \<open>
  C4. The serial interface: with a target that follows the protocol, every write through
  \<^verbatim>\<open>memif_t\<close> and \<^verbatim>\<open>tsi_t\<close> stores its bytes in the memory the target will hold, every read
  returns (it does not wait for ever) and returns these bytes, and no word is left unread.
\<close>

theorem tsi_memory:
  assumes "sai_target tgt outs final settled work" and "tsi_invar settled outs s"
    and "length bs \<le> 2 ^ 64" and "n \<le> 2 ^ 64"
  shows "\<exists>s1 s2. memif_write (tsi_ops tgt) a bs s = Some (Inr ((), s1))
    \<and> memif_read (tsi_ops tgt) b n s1 = Some (Inr (load (store (tsi_mem final s) a bs) b n, s2))
    \<and> tsi_invar settled outs s2 \<and> tsi_mem final s2 = store (tsi_mem final s) a bs"
proof -
  note cp = sai_target.provider [OF assms(1)]
  obtain s1 where "memif_write (tsi_ops tgt) a bs s = Some (Inr ((), s1))" "tsi_invar settled outs s1"
    "tsi_mem final s1 = store (tsi_mem final s) a bs"
    using chunk_provider.write_correct [OF cp assms(2,3)] by blast
  then show ?thesis
    using chunk_rw.read_correct [OF chunk_provider.axioms(1) [OF cp], of s1 n b] by auto
qed

theorem tsi_memory_witness:
  "\<exists>s1 s2. memif_write ref_ops 0x80000000 [1, 2, 3, 4, 5] (tsi_with (\<lambda>_. 0)) = Some (Inr ((), s1))
    \<and> memif_read ref_ops 0x80000002 2 s1 = Some (Inr (load (store (\<lambda>_. 0) 0x80000000 [1, 2, 3, 4, 5]) 0x80000002 2, s2))"
  using tsi_memory [OF ref_sai tsi_with_invar [of "\<lambda>_. 0"], where bs = "[1, 2, 3, 4, 5]" and n = 2
    and a = "0x80000000" and b = "0x80000002"] by auto

text \<open>
  \<^verbatim>\<open>tsi_t::reset\<close> sends the software interrupt: the word at the address of hart 0's
  interrupt register becomes 1 and nothing else changes.
\<close>

theorem tsi_reset_interrupts:
  assumes "sai_target tgt outs final settled work" and "tsi_invar settled outs s"
  shows "\<exists>s'. tsi_reset s = Some (Inr ((), s')) \<and> tsi_invar settled outs s'
    \<and> tsi_mem final s' = store (tsi_mem final s) 0x2000000 [1, 0, 0, 0]"
proof -
  have "le_bytes (1 :: u32) = [1, 0, 0, 0]" by (simp add: le_bytes_def upt_rec)
  moreover have "4 dvd Suc (Suc (Suc (Suc 0)))" by presburger
  ultimately show ?thesis
    using chunk_rw.write_chunk [OF sai_target.provider_rw [OF assms(1)] assms(2), of "0x2000000" "[1, 0, 0, 0]"]
    by (simp add: tsi_reset_def msip_base_def tsi_ops_def)
qed

theorem tsi_reset_interrupts_witness:
  "\<exists>s'. tsi_reset (tsi_with (\<lambda>_. 9)) = Some (Inr ((), s')) \<and> ref_mem s' = store (\<lambda>_. 9) 0x2000000 [1, 0, 0, 0]"
  using tsi_reset_interrupts [OF ref_sai tsi_with_invar, of "\<lambda>_. 9"] by auto

text \<open>
  C16. The default \<^verbatim>\<open>htif_t::clear_chunk\<close> zeroes exactly the given range, of any multiple of the
  alignment and however many chunks it takes, for every subclass that obeys the transfer laws.
\<close>

theorem default_clear_zeroes:
  assumes "chunk_rw c mem invar valid k mx" and "clear_chunk c = htif_clear_chunk (write_chunk c) (chunk_max_size c)"
    and "invar s" and "a AND (2 ^ k - 1) = 0" and "2 ^ k dvd n" and "n \<le> 2 ^ 64" and "\<forall>i<n. valid (a + of_nat i)"
  shows "\<exists>s'. clear_chunk c a n s = Some (Inr ((), s')) \<and> invar s' \<and> mem s' = store (mem s) a (replicate n 0)"
proof -
  have "htif_chunks c mem invar valid k mx"
    using assms(1,2) by (simp add: htif_chunks_def htif_chunks_axioms_def)
  from htif_chunks.clear_loop [OF this assms(3,4,5) _ _ assms(6,7), of 0] show ?thesis
    using assms(2) chunk_rw.max_size [OF assms(1,3)] by (simp add: htif_clear_chunk_def monad_simps)
qed

theorem default_clear_zeroes_witness:
  "\<exists>s'. chunked_memif.clear_chunk ref_ops 0x1000 4096 (tsi_with (\<lambda>_. 9)) = Some (Inr ((), s'))
    \<and> ref_mem s' = store (\<lambda>_. 9) 0x1000 (replicate 4096 0)"
  using default_clear_zeroes [OF ref_rw _ tsi_with_invar, of "0x1000" 4096 "\<lambda>_. 9"] by (auto simp: tsi_ops_def)

text \<open>
  \<^verbatim>\<open>elf2hex\<close> accepts only geometries (a width and a base that fit) for which the fresh image it
  builds obeys the transfer laws of the memory interface.
\<close>

theorem elf2hex_geometry:
  fixes width depth :: u32 and base :: u64
  assumes "width \<noteq> 0" and "width AND (width - 1) = 0" and "base AND ucast (width - 1) = 0"
  shows "\<exists>k. chunk_rw hex_ops hex_mem (hex_invar base k (ucast depth)) (hex_valid base k (ucast depth)) k (2 ^ k)
    \<and> hex_invar base k (ucast depth) (hexwriter_init base (ucast width) (ucast depth))"
  using accepted_geometry [OF assms] hex_chunk_rw by blast

theorem elf2hex_geometry_witness:
  "\<exists>k. chunk_rw hex_ops hex_mem (hex_invar 0x80000000 k 4096) (hex_valid 0x80000000 k 4096) k (2 ^ k)
    \<and> hex_invar 0x80000000 k 4096 (hexwriter_init 0x80000000 16 4096)"
  using elf2hex_geometry [of 16 "0x80000000" 4096] by simp

text \<open>
  C23. Writing into a part of the image that is still zero, of any alignment and with zeros inside,
  leaves exactly the written bytes in the image, and the line of the output that belongs to a
  word of the image decodes to the bytes of that word, most significant first.
\<close>

theorem hex_write_output:
  assumes g: "hex_geometry b k d" and h: "hex_invar b k d h" and len: "length bs \<le> 2 ^ 64"
    and v: "\<forall>i<length bs. hex_valid b k d (a + of_nat i)" and fresh: "\<forall>i<length bs. hex_mem h (a + of_nat i) = 0"
    and i: "i < unat d"
  shows "\<exists>h'. memif_write hex_ops a bs h = Some (Inr ((), h')) \<and> hex_mem h' = store (hex_mem h) a bs
    \<and> unhex (take (2 * 2 ^ k) (drop (i * (2 * 2 ^ k + 1)) (hex_output h')))
        = rev (load (store (hex_mem h) a bs) (b + of_nat (i * 2 ^ k)) (2 ^ k))"
proof -
  have "clears hex_ops (hex_invar b k d) hex_mem s1 (a + of_nat j) n"
    if "hex_invar b k d s1" "j + n \<le> length bs"
      "\<forall>i<n. hex_mem s1 (a + of_nat j + of_nat i) = hex_mem h (a + of_nat j + of_nat i)" for s1 j n
  proof (rule hex_clears_zero [OF that(1)])
    show "n \<le> 2 ^ 64" using that(2) len by simp
    show "\<forall>i<n. hex_mem s1 (a + of_nat j + of_nat i) = 0"
    proof (intro allI impI)
      fix i assume "i < n"
      then have "j + i < length bs" using that(2) by simp
      then have "hex_mem h (a + of_nat (j + i)) = 0" using fresh by blast
      then show "hex_mem s1 (a + of_nat j + of_nat i) = 0" using that(3) \<open>i < n\<close> by (simp add: add.assoc)
    qed
  qed
  then obtain h' where "memif_write hex_ops a bs h = Some (Inr ((), h'))" "hex_invar b k d h'"
    "hex_mem h' = store (hex_mem h) a bs"
    using chunk_rw.write_correct_if [OF hex_chunk_rw [OF g] h len v] by blast
  then show ?thesis using hex_output_decodes [OF g _ i, of h'] by auto
qed

theorem hex_write_output_witness:
  "\<exists>h'. memif_write hex_ops 0x80000003 [1, 2, 3] (hexwriter_init 0x80000000 16 4096) = Some (Inr ((), h'))
    \<and> unhex (take 32 (hex_output h')) = rev (load (store (\<lambda>_. 0) 0x80000003 [1, 2, 3]) 0x80000000 16)"
proof -
  let ?h = "hexwriter_init 0x80000000 16 4096"
  have m: "hex_mem ?h = (\<lambda>_. 0)" by (rule ext) (simp add: hex_mem_def hexwriter_init_def)
  have i: "hex_invar 0x80000000 4 4096 ?h" by (simp add: hex_invar_def hexwriter_init_def)
  have v: "\<forall>i<length [1, 2, 3 :: u8]. hex_valid 0x80000000 4 4096 (0x80000003 + of_nat i)"
    by (simp add: hex_valid_def All_less_Suc)
  show ?thesis
    using hex_write_output [OF dram_geometry i _ v, of 0] unfolding m by auto
qed

text \<open>
  A limit of the hex writer: its \<^verbatim>\<open>clear_chunk\<close> does nothing, so an aligned block of zeros
  written over other data is lost, although the write reports success.
\<close>

theorem hex_zero_write_lost:
  assumes "hex_invar b k d h" and "k < 64" and "a AND (2 ^ k - 1) = 0"
  shows "memif_write hex_ops a (replicate (2 ^ k) 0) h = Some (Inr ((), h))"
proof -
  have "unat (width h) = 2 ^ k" using assms(1,2) unat_pow2 by (simp add: hex_invar_def)
  then have al: "chunk_align hex_ops h = 2 ^ k" by (simp add: hex_ops_def)
  then show ?thesis
    using assms(3) nat_and_align [of "2 ^ k" k]
    by (simp add: memif_write_def monad_simps memif_write_aligned_def memif_write_middle_def Let_def
        hex_ops_def hex_clear_chunk_def list_all_iff nat_and_align_Suc)
qed

theorem hex_zero_write_lost_witness:
  "memif_write hex_ops 0x80000000 (replicate 16 0) (hex_touch 0 (hexwriter_init 0x80000000 16 4096))
    = Some (Inr ((), hex_touch 0 (hexwriter_init 0x80000000 16 4096)))"
  using hex_zero_write_lost [of "0x80000000" 4 4096 "hex_touch 0 (hexwriter_init 0x80000000 16 4096)" "0x80000000"]
  by (simp add: hex_invar_def hexwriter_init_def hex_touch_def hex_slot_def)


section \<open>Devices\<close>

text \<open>
  The command word splits into its device, command and payload without loss, and a response
  carries the device and the command of its request and the low 48 bits of the result.
\<close>

theorem command_word:
  "tohost c = push_bit 56 (ucast (cmd_device c)) OR push_bit 48 (ucast (cmd_cmd c)) OR cmd_payload c
   \<and> unat (cmd_payload c) < 2 ^ 48
   \<and> cmd_device \<lparr>tohost = response c r\<rparr> = cmd_device c \<and> cmd_cmd \<lparr>tohost = response c r\<rparr> = cmd_cmd c
   \<and> cmd_payload \<lparr>tohost = response c r\<rparr> = take_bit 48 r"
  by (intro conjI command_fields payload_bound response_fields)


text \<open>
  C34. Terminal input is answered in the order of the requests: over any interleaving of read
  requests and ticks, and whatever the terminal delivers, the responses sent, followed by the
  requests still waiting, are the requests in the order they came; none is lost or repeated.
\<close>

theorem bcd_answers_in_order:
  "\<exists>b' s'. bcd_run os es b s = Some (Inr (b', s')) \<and>
    map cmd_header (fromhost_queue s') @ map (cmd_header \<circ> tohost) (pending_reads b') =
    map cmd_header (fromhost_queue s) @ map (cmd_header \<circ> tohost) (pending_reads b @ requests es)"
  by (rule bcd_run_order)

text \<open>
  The identify command stores the 64-byte name of the device, or of one of its commands, at
  the address in the payload and responds with 1; it touches no other byte.
\<close>

theorem identify_command:
  assumes "chunk_provider c mem invar valid k mx" and "device_wf d" and "length identity < identity_size"
    and "invar (chunks s)" and "addr = cmd_payload x div 256" "addr mod 64 = 0"
    and "what = unat (cmd_payload x mod 256)" and "\<forall>i<64. valid (addr + of_nat i)"
  shows "\<exists>m. handle_identify c identity d x s = Some (Inr ((),
      s\<lparr>chunks := m, fromhost_queue := fromhost_queue s @ [response x 1]\<rparr>))
    \<and> invar m \<and> mem m = store (mem (chunks s)) addr
        (id_buffer (if what = 255 then identity else command_names d ! what))"
  by (rule chunk_provider.identify_writes [OF assms])

theorem identify_command_witness:
  "\<exists>b m. bcd_ctor raw_bcd = Some (Inr ((), b)) \<and>
    handle_identify ref_ops bcd_identity (bcd_device b) \<lparr>tohost = 0x01FF0000001000FF\<rparr> (demo_proxy (\<lambda>_. 7)) = Some (Inr ((),
      (demo_proxy (\<lambda>_. 7))\<lparr>chunks := m, fromhost_queue := [response \<lparr>tohost = 0x01FF0000001000FF\<rparr> 1]\<rparr>))
    \<and> ref_mem m = store (\<lambda>_. 7) 0x1000 (id_buffer ''bcd'')"
proof -
  obtain b where b: "bcd_ctor raw_bcd = Some (Inr ((), b))" "device_wf (bcd_device b)" using bcd_ctor_wf by blast
  have "cmd_payload \<lparr>tohost = 0x01FF0000001000FF\<rparr> = 0x1000FF" by (simp add: cmd_payload_def)
  with identify_command [OF ref_provider b(2), where identity = bcd_identity and s = "demo_proxy (\<lambda>_. 7)"
    and x = "\<lparr>tohost = 0x01FF0000001000FF\<rparr>" and addr = "0x1000" and what = 255] b
  show ?thesis by (auto simp: demo_proxy_def bcd_identity_def identity_size_def)
qed

text \<open>
  C19. A disk read: the request is taken from target memory, exactly the bytes the host returned
  are stored at its address, and the response carries its tag.
\<close>

theorem disk_read:
  fixes s :: "('a, 'o, 'z) machine_scheme"
  assumes "chunk_provider c mem invar valid k mx" and "invar (chunks s)"
    and "\<forall>i<32. valid (cmd_payload x + of_nat i)"
    and "req = parse_request (load (mem (chunks s)) (cmd_payload x) 32)" "unat (rq_size req) < 2 ^ 63"
    and "os_pread os (disk_fd d) (replicate (unat (rq_size req)) 0) (rq_offset req) (host s) = ((rq_size req, buf), h)"
      "length buf = unat (rq_size req)"
    and "\<forall>i<unat (rq_size req). valid (rq_addr req + of_nat i)"
  shows "\<exists>m. disk_handle_read c os d x s = Some (Inr ((), s\<lparr>chunks := m, host := h,
      fromhost_queue := fromhost_queue s @ [response x (rq_tag req)]\<rparr>)) \<and> invar m
    \<and> mem m = store (mem (chunks s)) (rq_addr req) buf"
  by (rule chunk_provider.disk_read_OK [OF assms])

theorem disk_read_witness:
  "let q = le_bytes (0x2000 :: u64) @ le_bytes (0 :: u64) @ le_bytes (4 :: u64) @ le_bytes (9 :: u64);
       s = demo_proxy (store (\<lambda>_. 0) 0x1000 q) in
   \<exists>m. disk_handle_read ref_ops demo_os raw_disk \<lparr>tohost = 0x0200000000001000\<rparr> s = Some (Inr ((),
      s\<lparr>chunks := m, fromhost_queue := [response \<lparr>tohost = 0x0200000000001000\<rparr> 9]\<rparr>))
    \<and> ref_mem m = store (store (\<lambda>_. 0) 0x1000 q) 0x2000 [0, 0, 0, 0]"
proof -
  define q where "q = le_bytes (0x2000 :: u64) @ le_bytes (0 :: u64) @ le_bytes (4 :: u64) @ le_bytes (9 :: u64)"
  let ?s = "demo_proxy (store (\<lambda>_. 0) 0x1000 q)" and ?c = "\<lparr>tohost = 0x0200000000001000\<rparr> :: command_t"
  have "length q = 32" by (simp add: q_def)
  then have "load (store (\<lambda>_. 0) 0x1000 q) 0x1000 32 = q"
    using load_store_same [of q "\<lambda>_. 0" "0x1000"] by simp
  then have r: "parse_request (load (ref_mem (chunks ?s)) 0x1000 32)
      = \<lparr>rq_addr = 0x2000, rq_offset = 0, rq_size = 4, rq_tag = 9\<rparr>"
    by (simp add: parse_request_def demo_proxy_def q_def le_word_le_bytes)
  have p: "cmd_payload ?c = 0x1000" by (simp add: cmd_payload_def)
  have e: "replicate 4 (0 :: u8) = [0, 0, 0, 0]" by (simp add: numeral_eq_Suc)
  show ?thesis
    using disk_read [OF ref_provider, where s = ?s and x = ?c and os = demo_os and d = raw_disk
      and buf = "[0, 0, 0, 0]" and h = "()", unfolded p r, OF _ _ refl] e
    unfolding q_def [symmetric] Let_def by (auto simp: demo_proxy_def)
qed

text \<open>
  Registration: the proxy becomes device 0, the character device device 1, the others follow
  in the order of the options, and every other number stays the null device. No other state is
  touched. (The list holds 255 devices; one more fails the assertion.)
\<close>

theorem device_numbers:
  assumes "num_devices (device_list s) = 0" and "devices (device_list s) = replicate 256 Dev_null"
    and "length (dynamic_devices s) \<le> 253"
  shows "\<exists>s'. register_devices s = Some (Inr ((), s')) \<and> num_devices (device_list s') = length (dynamic_devices s) + 2
    \<and> devices (device_list s') = Dev_syscall # Dev_bcd # map Dev_dynamic [0..<length (dynamic_devices s)]
        @ replicate (254 - length (dynamic_devices s)) Dev_null
    \<and> null_device (device_list s') = null_device (device_list s) \<and> machine.truncate s' = machine.truncate s
    \<and> syscall_proxy s' = syscall_proxy s \<and> bcd s' = bcd s \<and> dynamic_devices s' = dynamic_devices s"
  by (rule register_devices_OK [OF assms])

theorem device_numbers_witness:
  "\<exists>s'. register_devices ((demo_htif (\<lambda>_. 0))\<lparr>device_list := device_list_new raw_device,
      dynamic_devices := [Dyn_disk raw_disk]\<rparr>) = Some (Inr ((), s'))
    \<and> devices (device_list s') = Dev_syscall # Dev_bcd # Dev_dynamic 0 # replicate 253 Dev_null"
  using device_numbers [of "(demo_htif (\<lambda>_. 0))\<lparr>device_list := device_list_new raw_device,
      dynamic_devices := [Dyn_disk raw_disk]\<rparr>"]
  by (auto simp: device_list_new_def max_commands_def)

section \<open>System calls\<close>

text \<open>
  C17. Descriptors: allocation takes the lowest free number, a live descriptor is never handed
  out again and keeps its meaning, and closing the new one restores the table.
\<close>

theorem descriptor_table:
  assumes "fd_room l" and "fd \<noteq> -1" and "fds_alloc fd l = (i, l')"
  shows "fd_view l i = None \<and> (\<forall>j < i. fd_view l j \<noteq> None) \<and> fd_view l' = (fd_view l)(i \<mapsto> fd)
    \<and> fds_lookup i l' = fd \<and> (\<exists>l''. fds_dealloc i l' = Inr l'' \<and> fd_view l'' = fd_view l)"
  using fds_alloc_view [OF assms] fdt.lookup_alloc(1) [OF assms] fdt.alloc_dealloc [OF assms] by blast

theorem descriptor_table_witness:
  "fds_alloc 9 [3, 4, -1, 5] = (2, [3, 4, 9, 5]) \<and> fds_lookup 2 [3, 4, 9, 5] = 9
   \<and> fd_view [3, 4, -1, 5] 2 = None"
proof -
  have e: "fds_alloc 9 [3, 4, -1, 5] = (2, [3, 4, 9, 5])" by (simp add: fds_alloc_def)
  show ?thesis using descriptor_table [OF _ _ e] e by (simp add: fd_room_def)
qed

text \<open>
  C14. A whole \<^verbatim>\<open>write\<close> call, from the command word to the response: the bytes handed to the host
  are those of target memory at the given address, the first word of the frame becomes the
  result (or the negated error number), the seven other words and all other memory stay, and
  exactly one response is queued.
\<close>

theorem write_system_call:
  fixes s :: "('a, 'o, 'z) proxy_scheme" and cmd :: command_t
  assumes "mm = cmd_payload cmd" and "frame = dwords (load (mem (chunks s)) mm 64)"
    and "chunk_provider c mem invar valid k mx" and "invar (chunks s)"
    and "table (syscall_proxy s) = syscall_table"
    and "mm AND 1 = 0" "\<forall>i<64. valid (mm + of_nat i)" and "frame ! 0 = 64"
    and "unat (frame ! 3) < 2 ^ 63" and "\<forall>i<unat (frame ! 3). valid (frame ! 2 + of_nat i)"
    and "os_write os (fds_lookup (frame ! 1) (fds (syscall_proxy s)))
      (load (mem (chunks s)) (frame ! 2) (unat (frame ! 3))) (host s) = (ret, h)"
    and "r = (if ret = -1 then scast (- os_errno os h) else ret)"
  shows "\<exists>m. handle_syscall c os cmd s = Some (Inr ((), s\<lparr>chunks := m, host := h,
      fromhost_queue := fromhost_queue s @ [response cmd 1]\<rparr>)) \<and> invar m
    \<and> mem m = store (mem (chunks s)) mm (le_bytes r @ drop 8 (load (mem (chunks s)) mm 64))"
  using chunk_provider.write_call [OF assms(3,4,5), of cmd os ret h r] assms(6-) unfolding assms(1,2) by blast

theorem write_system_call_witness:
  "let f = concat (map le_bytes [64, 1, 0x2000, 3, 0, 0, 0, 0 :: u64]); s = demo_proxy (store (\<lambda>_. 0) 0x1000 f) in
   \<exists>m. handle_syscall ref_ops demo_os \<lparr>tohost = 0x1000\<rparr> s = Some (Inr ((), s\<lparr>chunks := m,
      fromhost_queue := [response \<lparr>tohost = 0x1000\<rparr> 1]\<rparr>))
    \<and> ref_mem m = store (store (\<lambda>_. 0) 0x1000 f) 0x1000 (le_bytes (3 :: u64) @ drop 8 f)"
proof -
  define f where "f = concat (map le_bytes [64, 1, 0x2000, 3, 0, 0, 0, 0 :: u64])"
  let ?s = "demo_proxy (store (\<lambda>_. 0) 0x1000 f)" and ?c = "\<lparr>tohost = 0x1000\<rparr> :: command_t"
  have "length f = 64" by (simp add: f_def)
  then have l: "load (ref_mem (chunks ?s)) 0x1000 64 = f"
    using load_store_same [of f "\<lambda>_. 0" "0x1000"] by (simp add: demo_proxy_def)
  have d: "dwords f = [64, 1, 0x2000, 3, 0, 0, 0, 0]" unfolding f_def by (rule bytes_dwords)
  have p: "cmd_payload ?c = 0x1000" by (simp add: cmd_payload_def)
  have "\<exists>m. handle_syscall ref_ops demo_os ?c ?s = Some (Inr ((), ?s\<lparr>chunks := m, host := (),
      fromhost_queue := fromhost_queue ?s @ [response ?c 1]\<rparr>)) \<and> ref_invar m
    \<and> ref_mem m = store (ref_mem (chunks ?s)) 0x1000 (le_bytes (3 :: u64) @ drop 8 f)"
    using write_system_call [OF p [symmetric] _ ref_provider, where frame = "dwords f" and s = ?s and os = demo_os and ret = 3 and h = "()" and r = 3,
        unfolded p l d]
    by (simp add: demo_proxy_def demo_syscall_def)
  then show ?thesis unfolding f_def [symmetric] Let_def by (auto simp: demo_proxy_def)
qed

text \<open>
  A system call number outside the table, or without an entry, stops the host with an error
  that names it; nothing is called and nothing is written.
\<close>

theorem unknown_system_call:
  fixes s :: "('a, 'o, 'z) proxy_scheme"
  assumes "chunk_provider c mem invar valid k mx" and "invar (chunks s)" and "\<forall>i<64. valid (mm + of_nat i)"
    and "n = dwords (load (mem (chunks s)) mm 64) ! 0"
      "length (table (syscall_proxy s)) \<le> unat n \<or> table (syscall_proxy s) ! unat n = None"
  shows "dispatch c os mm s = Some (Inl (Runtime_error (''bad syscall #'' @ to_string (unat n))))"
  by (rule chunk_provider.dispatch_bad [OF assms])

theorem unknown_system_call_witness:
  "dispatch ref_ops demo_os 0x1000 (demo_proxy (store (\<lambda>_. 0) 0x1000 (concat (map le_bytes (replicate 8 (2048 :: u64))))))
    = Some (Inl (Runtime_error (''bad syscall #'' @ to_string 2048)))"
proof -
  define f where "f = concat (map le_bytes (replicate 8 (2048 :: u64)))"
  let ?s = "demo_proxy (store (\<lambda>_. 0) 0x1000 f)"
  have "length f = 64" unfolding f_def length_concat_le_bytes by simp
  then have l: "load (ref_mem (chunks ?s)) 0x1000 64 = f"
    using load_store_same [of f "\<lambda>_. 0" "0x1000"] by (simp add: demo_proxy_def)
  have "dwords f ! 0 = 2048" unfolding f_def bytes_dwords by simp
  with unknown_system_call [OF ref_provider, where s = ?s and mm = "0x1000" and n = 2048 and os = demo_os, unfolded l]
  show ?thesis unfolding f_def [symmetric] by (simp add: demo_proxy_def demo_syscall_def)
qed



text \<open>\<^verbatim>\<open>close\<close> of a live descriptor closes the host's file, forgets this descriptor and no other.\<close>

theorem close_call:
  fixes s :: "('m, 'o, 'z) proxy_scheme"
  assumes "fd_view (fds (syscall_proxy s)) fd = Some hfd" and "fd_ok (fds (syscall_proxy s))"
    and "os_close os hfd (host s) = (r, h)" "0 \<le> sint r"
  shows "\<exists>l. sys_close os fd s = Some (Inr (0, s\<lparr>host := h, syscall_proxy := (syscall_proxy s)\<lparr>fds := l\<rparr>\<rparr>))
    \<and> fd_view l = (fd_view (fds (syscall_proxy s)))(fd := None)"
  by (rule close_result [OF assms])

theorem close_call_witness:
  "\<exists>l. sys_close demo_os 3 (demo_proxy (\<lambda>_. 0)) = Some (Inr (0,
      (demo_proxy (\<lambda>_. 0))\<lparr>syscall_proxy := demo_syscall\<lparr>fds := l\<rparr>\<rparr>))
    \<and> fd_view l = (fd_view [3, 4, -1, 5])(3 := None)"
  using close_call [where s = "demo_proxy (\<lambda>_. 0)" and fd = 3 and hfd = 5 and os = demo_os and r = 0 and h = "()"]
  by (simp add: demo_proxy_def demo_syscall_def fd_view_def fd_ok_def)

text \<open>
  C26. \<^verbatim>\<open>read\<close>: when the host returns data, exactly the bytes it returned are stored in the target's
  buffer; when it returns none or fails, memory is not touched and the target sees 0 or the
  negated error number.
\<close>

theorem read_call:
  fixes s :: "('a, 'o, 'z) proxy_scheme"
  assumes "chunk_provider c mem invar valid k mx" and "invar (chunks s)" and "unat n < 2 ^ 63"
    and "os_read os (fds_lookup fd (fds (syscall_proxy s))) (replicate (unat n) 0) (host s) = ((ret, buf), h)"
    and "length buf = unat n" "0 < sint ret \<Longrightarrow> unat ret \<le> unat n \<and> (\<forall>i<unat ret. valid (pbuf + of_nat i))"
  shows "\<exists>m. sys_read c os fd pbuf n s = Some (Inr (if ret = -1 then scast (- os_errno os h) else ret,
      s\<lparr>host := h, chunks := m\<rparr>)) \<and> invar m
    \<and> mem m = (if 0 < sint ret then store (mem (chunks s)) pbuf (take (unat ret) buf) else mem (chunks s))"
proof (cases "0 < sint ret")
  case True
  then have "ret \<noteq> -1" by auto
  then show ?thesis using True assms(6) chunk_provider.read_result [OF assms(1-5) _ True, of pbuf] by simp
next
  case False
  then show ?thesis using chunk_provider.read_no_data [OF assms(1,3,4), where pbuf = pbuf] assms(2)
    by (intro exI [of _ "chunks s"]) simp
qed

theorem read_call_witness:
  "\<exists>m. sys_read ref_ops demo_os 0 0x2000 4 (demo_proxy (\<lambda>_. 7)) = Some (Inr (2, (demo_proxy (\<lambda>_. 7))\<lparr>chunks := m\<rparr>))
    \<and> ref_mem m = store (\<lambda>_. 7) 0x2000 [0x68, 0x69]"
proof -
  have "replicate 2 (0 :: u8) = [0, 0]" "take 2 [0x68, 0x69, 0, 0 :: u8] = [0x68, 0x69]"
    by (simp_all add: numeral_2_eq_2)
  then show ?thesis
    using read_call [OF ref_provider, where s = "demo_proxy (\<lambda>_. 7)" and os = demo_os and fd = 0 and n = 4
        and ret = 2 and buf = "[0x68, 0x69, 0, 0]" and h = "()" and pbuf = "0x2000"]
    by (auto simp: demo_proxy_def)
qed

text \<open>
  C39. \<^verbatim>\<open>fstat\<close> stores the target's stat structure also when the host's call failed (unless the
  error number is 1): the result is compared with -1 after it was replaced by the negated error
  number. What is then stored is the contents \<open>st\<close> that the failed call left in the structure.
\<close>

theorem fstat_writes_on_failure:
  fixes s :: "('a, 'o, 'z) proxy_scheme"
  assumes "chunk_provider c mem invar valid k mx" and "invar (chunks s)" and "\<forall>i<128. valid (pbuf + of_nat i)"
    and "os_fstat os (fds_lookup fd (fds (syscall_proxy s))) (host s) = ((r, st), h)"
    and "ret = (if r = -1 then scast (- os_errno os h) else scast r)"
    and "r = -1 \<Longrightarrow> os_errno os h \<noteq> 1"
  shows "\<exists>m. sys_fstat c os fd pbuf s = Some (Inr (ret, s\<lparr>host := h, chunks := m\<rparr>)) \<and> invar m
    \<and> mem m = store (mem (chunks s)) pbuf (riscv_stat_bytes (riscv_stat_of st))"
  by (rule chunk_provider.fstat_result [OF assms])

theorem fstat_writes_on_failure_witness:
  "\<exists>m. sys_fstat ref_ops demo_os 99 0x2000 (demo_proxy (\<lambda>_. 7)) = Some (Inr (- 9, (demo_proxy (\<lambda>_. 7))\<lparr>chunks := m\<rparr>))
    \<and> ref_mem m = store (\<lambda>_. 7) 0x2000 (riscv_stat_bytes (riscv_stat_of demo_stat))"
proof -
  have l: "fds_lookup 99 (fds (syscall_proxy (demo_proxy (\<lambda>_. 7)))) = -1"
    by (simp add: demo_proxy_def demo_syscall_def fds_lookup_def riscv_at_fdcwd_def)
  show ?thesis
    using fstat_writes_on_failure [OF ref_provider, where s = "demo_proxy (\<lambda>_. 7)" and os = demo_os and fd = 99
        and r = "-1" and st = demo_stat and h = "()" and ret = "-9" and pbuf = "0x2000"] l
    by (auto simp: demo_proxy_def)
qed

text \<open>
  C18. \<^verbatim>\<open>getmainvars\<close>: the block stored at \<open>pbuf\<close> holds the number of arguments, a pointer to each
  argument and two null words, and every pointer leads to its NUL-terminated argument.
\<close>

theorem main_arguments:
  fixes s :: "('a, 'o, 'z) proxy_scheme"
  assumes "chunk_provider c mem invar valid k mx" and "invar (chunks s)" and "\<forall>a \<in> set (targs s). 0 \<notin> set a"
    and "length (main_block pbuf (targs s)) < 2 ^ 63" "length (main_block pbuf (targs s)) \<le> unat limit"
    and "\<forall>i<length (main_block pbuf (targs s)). valid (pbuf + of_nat i)" and "i < length (targs s)"
  shows "\<exists>m p. sys_getmainvars c pbuf limit s = Some (Inr (0, s\<lparr>chunks := m\<rparr>)) \<and> invar m
    \<and> mem m = store (mem (chunks s)) pbuf (main_block pbuf (targs s))
    \<and> load (mem m) pbuf 8 = le_bytes (of_nat (length (targs s)) :: u64)
    \<and> load (mem m) (pbuf + of_nat (8 * (i + 1))) 8 = le_bytes (p :: u64)
    \<and> load (mem m) p (length (targs s ! i) + 1) = targs s ! i @ [0]
    \<and> load (mem m) (pbuf + of_nat (8 * (length (targs s) + 1))) 8 = le_bytes (0 :: u64)"
proof -
  let ?as = "targs s" and ?b = "main_block pbuf (targs s)"
  have len: "length ?b \<le> 2 ^ 64" using assms(4) by simp
  obtain m where m: "sys_getmainvars c pbuf limit s = Some (Inr (0, s\<lparr>chunks := m\<rparr>))" "invar m"
    "mem m = store (mem (chunks s)) pbuf ?b"
    using chunk_provider.getmainvars_result [OF assms(1-6)] by blast
  have "load (mem m) pbuf 8 = le_bytes (of_nat (length ?as) :: u64)"
    using main_block_word [OF _ len, of 0 "mem (chunks s)"] m(3) by (simp add: main_words_def)
  moreover have "load (mem m) (pbuf + of_nat (8 * (i + 1))) 8 = le_bytes (main_words pbuf ?as ! (i + 1))"
    using main_block_word [OF _ len, of "i + 1" "mem (chunks s)"] m(3) assms(7) by simp
  moreover have "load (mem m) (main_words pbuf ?as ! (i + 1)) (length (?as ! i) + 1) = ?as ! i @ [0]"
    using main_block_arg [OF assms(7) len] m(3) by simp
  moreover have "load (mem m) (pbuf + of_nat (8 * (length ?as + 1))) 8 = le_bytes (0 :: u64)"
    using main_block_word [OF _ len, of "length ?as + 1" "mem (chunks s)"] m(3)
    by (simp add: main_words_def nth_append)
  ultimately show ?thesis using m by blast
qed

theorem main_arguments_witness:
  "\<exists>m p. sys_getmainvars ref_ops 0x4000 4096 (demo_proxy (\<lambda>_. 0)) = Some (Inr (0, (demo_proxy (\<lambda>_. 0))\<lparr>chunks := m\<rparr>))
    \<and> load (ref_mem m) (0x4000 + 16) 8 = le_bytes (p :: u64) \<and> load (ref_mem m) p 3 = [0x62, 0x63, 0]"
proof -
  have t: "targs (demo_proxy (\<lambda>_. 0)) = [[0x61], [0x62, 0x63]]" by (simp add: demo_proxy_def)
  have "length (main_block p [[0x61], [0x62, 0x63]]) = 45" for p
    by (simp add: main_block_def length_main_words)
  then show ?thesis
    using main_arguments [OF ref_provider, of "demo_proxy (\<lambda>_. 0)" "0x4000" 4096 1, unfolded t]
    by (auto simp: demo_proxy_def numeral_3_eq_3)
qed

text \<open>
  C32. \<^verbatim>\<open>chdir\<close> reads the name byte by byte up to its NUL, for a name of any length, hands exactly
  the characters before it to the host and leaves memory as it was. Both loops of the call end.
\<close>

theorem chdir_call:
  fixes s :: "('a, 'o, 'z) proxy_scheme"
  assumes "chunk_provider c mem invar valid k mx" and "invar (chunks s)"
    and "\<forall>i<length name + 1. valid (path + of_nat i)" and "0 \<notin> set name"
      "load (mem (chunks s)) path (length name + 1) = name @ [0]" "length name + 1 < 2 ^ 63"
    and "os_chdir os name (host s) = (r, h)"
  shows "\<exists>m. sys_chdir c os path s =
      Some (Inr (if r = -1 then scast (- os_errno os h) else scast r, s\<lparr>chunks := m, host := h\<rparr>))
    \<and> invar m \<and> mem m = mem (chunks s)"
  by (rule chunk_provider.chdir_result [OF assms])

theorem chdir_call_witness:
  "\<exists>m. sys_chdir ref_ops demo_os 0x1000 (demo_proxy (store (\<lambda>_. 1) 0x1000 [0x2F, 0x62, 0]))
    = Some (Inr (0, (demo_proxy (store (\<lambda>_. 1) 0x1000 [0x2F, 0x62, 0]))\<lparr>chunks := m\<rparr>))"
proof -
  have "load (store (\<lambda>_. 1) 0x1000 [0x2F, 0x62, 0]) 0x1000 (length [0x2F, 0x62, 0 :: u8]) = [0x2F, 0x62, 0]"
    by (rule load_store_same) simp
  then show ?thesis
    using chdir_call [OF ref_provider, where s = "demo_proxy (store (\<lambda>_. 1) 0x1000 [0x2F, 0x62, 0])"
        and name = "[0x2F, 0x62]" and path = "0x1000" and os = demo_os and r = 0 and h = "()"]
    by (auto simp: demo_proxy_def)
qed

text \<open>
  The emulated root: an absolute name mapped into the root and back is unchanged, and what
  the target sees of any absolute path of the host is absolute, \<^verbatim>\<open>/\<close> when it lies outside the root.
\<close>

theorem chroot_paths:
  assumes "root \<noteq> []" and "last root \<noteq> slash" and "hd root = slash" and "hd p = slash" "p \<noteq> []"
  shows "undo_chroot root (do_chroot root p) = p \<and> (\<exists>q. undo_chroot root p = slash # q)
    \<and> (take (length root) p \<noteq> root \<longrightarrow> undo_chroot root p = [slash])"
proof -
  obtain p' where p': "p = slash # p'" using assms(4,5) by (cases p) auto
  have "undo_chroot root (do_chroot root p) = p" using undo_do_chroot [OF assms(1,2) p'] .
  moreover have "\<exists>q. undo_chroot root p = slash # q" using undo_chroot_absolute [OF assms(4,5)] assms(3) by blast
  ultimately show ?thesis using assms(1) by (simp add: undo_chroot_def)
qed

theorem chroot_paths_witness:
  "undo_chroot (str ''/r'') (do_chroot (str ''/r'') (str ''/a'')) = str ''/a''
   \<and> undo_chroot (str ''/r'') (str ''/etc'') = [slash]"
  using chroot_paths [of "str ''/r''" "str ''/a''"] chroot_paths [of "str ''/r''" "str ''/etc''"]
  by (simp add: str_def slash_def of_char_def)



text \<open>
  The exit call: the run ends (the exit code word is odd, so not 0) and the process status is
  the target's code, of which the 31 low bits survive, sign-extended.
\<close>

theorem exit_status:
  fixes s :: "('m, 'o, 'z) proxy_scheme"
  shows "\<exists>s'. sys_exit code s = Some (Inr (0, s')) \<and> exitcode s' \<noteq> 0
    \<and> exit_code s' = scast (ucast code :: 31 word)"
  by (rule sys_exit_result)

section \<open>The main loop\<close>

text \<open>
  C15. The end of a run: when the target has stored an exit word (device 0, command 0, an odd
  payload), the loop takes it, runs that one step to its end, and returns with the payload as
  exit code. It neither goes on nor waits for ever.
\<close>

theorem exit_ends_run:
  fixes s :: "('a, 'o, 'z) htif_scheme"
  assumes "chunk_provider c mem invar valid k mx" and "sub_chunks sub = c" and "invar (chunks s)"
    and "tohost_addr s AND 7 = 0" "\<forall>i<8. valid (tohost_addr s + of_nat i)"
    and "fromhost_addr s AND 7 = 0" "\<forall>i<8. valid (fromhost_addr s + of_nat i)"
    and "le_word (load (mem (chunks s)) (tohost_addr s) 8) = w" "w \<noteq> 0"
      "cmd_device \<lparr>tohost = w\<rparr> = 0" "cmd_cmd \<lparr>tohost = w\<rparr> = 0" "cmd_payload \<lparr>tohost = w\<rparr> AND 1 \<noteq> 0"
    and "num_devices (device_list s) = 2" "devices (device_list s) ! 0 = Dev_syscall"
      "devices (device_list s) ! 1 = Dev_bcd"
      "command_handlers (sc_device (syscall_proxy s)) ! 0 = Some Syscall_handle"
    and "exitcode s = 0" and "os_signal_exit os (host s) = (False, h)"
  shows "\<exists>s'. run_loop sub os s = Some (Inr ((), s')) \<and> exitcode s' = ucast (cmd_payload \<lparr>tohost = w\<rparr>)
    \<and> exitcode s' \<noteq> 0"
proof -
  obtain s1 where s1: "run_step sub os (s\<lparr>host := h\<rparr>) = Some (Inr ((), s1))"
    "exitcode s1 = ucast (cmd_payload \<lparr>tohost = w\<rparr>)"
    using chunk_provider.exit_step [OF assms(1,2), of "s\<lparr>host := h\<rparr>" w os] assms(3-16) by auto
  have nz: "exitcode s1 \<noteq> 0" using odd_exit [OF assms(12)] s1(2) by simp
  have "run_loop sub os s = run_loop sub os s1" using run_loop_again [OF assms(17,18) s1(1)] .
  also have "\<dots> = Some (Inr ((), s1\<lparr>host := snd (os_signal_exit os (host s1))\<rparr>))" using nz by (rule run_loop_stop)
  finally show ?thesis using s1(2) nz by auto
qed

theorem exit_ends_run_witness:
  "let s = (demo_htif (store (\<lambda>_. 0) 0x1000 (le_bytes (0x2B :: u64)))) in
   \<exists>s'. run_loop demo_sub demo_os s = Some (Inr ((), s')) \<and> exitcode s' = 0x2B"
proof -
  define m where "m = store (\<lambda>_. 0) 0x1000 (le_bytes (0x2B :: u64))"
  have "load m 0x1000 (length (le_bytes (0x2B :: u64))) = le_bytes (0x2B :: u64)"
    unfolding m_def by (rule load_store_same) simp
  then have w: "le_word (load (ref_mem (chunks (demo_htif m))) 0x1000 8) = (0x2B :: u64)"
    by (simp add: demo_htif_def le_word_le_bytes)
  have p: "cmd_payload \<lparr>tohost = 0x2B\<rparr> = 0x2B" "cmd_device \<lparr>tohost = 0x2B\<rparr> = 0" "cmd_cmd \<lparr>tohost = 0x2B\<rparr> = 0"
    by (simp_all add: cmd_payload_def cmd_device_def cmd_cmd_def)
  have f: "tohost_addr (demo_htif m) = 0x1000" "fromhost_addr (demo_htif m) = 0x1008" "exitcode (demo_htif m) = 0"
    "host (demo_htif m) = ()" "ref_invar (chunks (demo_htif m))" "syscall_proxy (demo_htif m) = demo_syscall"
    "num_devices (device_list (demo_htif m)) = 2" "devices (device_list (demo_htif m)) ! 0 = Dev_syscall"
    "devices (device_list (demo_htif m)) ! 1 = Dev_bcd"
    by (simp_all add: demo_htif_def)
  have "sub_chunks demo_sub = ref_ops" by (simp add: demo_sub_def)
  from exit_ends_run [OF ref_provider this, of "demo_htif m" "0x2B" demo_os "()"] w p f
  show ?thesis unfolding m_def [symmetric] by (auto simp: demo_syscall_def)
qed

text \<open>
  C33. Responses are delivered one at a time and only when the target has cleared the word for
  them: then the oldest is stored there and leaves the queue, otherwise nothing changes.
\<close>

theorem responses_delivered:
  fixes s :: "('a, 'o, 'z) htif_scheme"
  assumes "chunk_provider c mem invar valid k mx" and "sub_chunks sub = c" and "invar (chunks s)"
    and "fromhost_addr s AND 7 = 0" "\<forall>i<8. valid (fromhost_addr s + of_nat i)"
  shows "\<exists>m q. deliver sub s = Some (Inr ((), s\<lparr>chunks := m, fromhost_queue := q\<rparr>)) \<and> invar m \<and>
    (if fromhost_queue s \<noteq> [] \<and> le_word (load (mem (chunks s)) (fromhost_addr s) 8) = (0 :: u64)
     then mem m = store (mem (chunks s)) (fromhost_addr s) (le_bytes (hd (fromhost_queue s))) \<and> q = tl (fromhost_queue s)
     else mem m = mem (chunks s) \<and> q = fromhost_queue s)"
  by (rule chunk_provider.deliver_OK [OF assms])

theorem responses_delivered_witness:
  "\<exists>m. deliver demo_sub (demo_htif (\<lambda>_. 0)) = Some (Inr ((), (demo_htif (\<lambda>_. 0))\<lparr>chunks := m, fromhost_queue := []\<rparr>))
    \<and> ref_mem m = store (\<lambda>_. 0) 0x1008 (le_bytes (0x1234 :: u64))"
proof -
  have "load (\<lambda>_. 0) a n = replicate n 0" for a n by (simp add: load_def map_replicate_trivial)
  moreover have "(le_word (replicate n 0) :: u64) = 0" for n by (induction n) (simp_all add: le_word.simps)
  moreover have "sub_chunks demo_sub = ref_ops" by (simp add: demo_sub_def)
  ultimately show ?thesis
    using responses_delivered [OF ref_provider, of demo_sub "demo_htif (\<lambda>_. 0)"] by (auto simp: demo_htif_def)
qed

section \<open>Loading\<close>

text \<open>
  Loading a file of either class: when every loadable segment lies in the file and in the
  address space, memory becomes what the program headers say, in their order: the file's bytes
  at the physical address and zeros up to the size in memory; nothing else is written.
\<close>

theorem segments_loaded:
  fixes cls :: "'w::len word elf_class" and s :: "('a, 'o, 'z) machine_scheme"
  assumes "chunk_provider c mem invar valid k mx" and "LENGTH('w) \<le> 64" and "invar (chunks s)"
    and "unat (e_phoff eh) + unat (e_phnum eh) * snd (phdr_t cls) \<le> length buf" "length buf < 2 ^ 64"
    and "\<forall>ph \<in> set (phdrs cls buf eh). segment_ok buf ph
      \<and> (loads ph \<longrightarrow> (\<forall>j<unat (p_memsz ph). valid (ucast (p_paddr ph) + of_nat j)))"
  shows "\<exists>m. load_segments (mem_write c) cls buf eh s = Some (Inr ((), s\<lparr>chunks := m\<rparr>)) \<and> invar m
    \<and> mem m = fold (segment_mem buf) (phdrs cls buf eh) (mem (chunks s))"
  by (rule chunk_provider.load_segments_OK [OF assms])

text \<open>One program header at offset 0: 4 bytes from offset 32 to 0x80000000, 6 bytes in memory.\<close>

theorem segments_loaded_witness:
  "let buf = [1 :: u8, 0, 0, 0, 32, 0, 0, 0, 0, 0, 0, 0, 0, 0, 0, 128, 4, 0, 0, 0, 6, 0, 0, 0, 0, 0, 0, 0, 0, 0, 0, 0, 10, 11, 12, 13];
       eh = \<lparr>e_ident = [], e_type = 0, e_machine = 0, e_version = 0, e_entry = 0, e_phoff = 0, e_shoff = 0, e_flags = 0,
         e_ehsize = 0, e_phentsize = 0, e_phnum = 1, e_shentsize = 0, e_shnum = 0, e_shstrndx = 0\<rparr> in
   \<exists>m. load_segments (mem_write ref_ops) elf32 buf eh (demo_proxy (\<lambda>_. 7)) = Some (Inr ((), (demo_proxy (\<lambda>_. 7))\<lparr>chunks := m\<rparr>))
    \<and> ref_mem m = store (\<lambda>_. 7) 0x80000000 [10, 11, 12, 13, 0, 0]"
proof -
  define buf where "buf = [1 :: u8, 0, 0, 0, 32, 0, 0, 0, 0, 0, 0, 0, 0, 0, 0, 128, 4, 0, 0, 0, 6, 0, 0, 0, 0, 0, 0, 0, 0, 0, 0, 0, 10, 11, 12, 13]"
  define eh :: "32 word ehdr" where "eh = \<lparr>e_ident = [], e_type = 0, e_machine = 0, e_version = 0, e_entry = 0,
    e_phoff = 0, e_shoff = 0, e_flags = 0, e_ehsize = 0, e_phentsize = 0, e_phnum = 1, e_shentsize = 0, e_shnum = 0,
    e_shstrndx = 0\<rparr>"
  let ?ph = "\<lparr>p_type = 1, p_flags = 0, p_offset = 32, p_vaddr = 0, p_paddr = 0x80000000, p_filesz = 4, p_memsz = 6,
    p_align = 0\<rparr> :: 32 word phdr"
  have "phdr32 (take 32 buf) = ?ph" by (simp add: phdr32_def at_def buf_def le_word.simps)
  then have ph: "phdrs elf32 buf eh = [?ph]" by (simp add: phdrs_def elf32_def eh_def)
  have b: "take 4 (drop 32 buf) = [10, 11, 12, 13]" "length buf = 36" by (simp_all add: buf_def)
  have "replicate 2 (0 :: u8) = [0, 0]" by (simp add: numeral_2_eq_2)
  with b(1) have m: "segment_mem buf ?ph (\<lambda>_. 7) = store (\<lambda>_. 7) 0x80000000 [10, 11, 12, 13, 0, 0]"
    by (simp add: segment_mem_def loads_def pt_load_def segment_bytes_def)
  have ok: "segment_ok buf ?ph" using b by (simp add: segment_ok_def)
  have h: "e_phoff eh = 0" "e_phnum eh = 1" "snd (phdr_t elf32) = 32" by (simp_all add: eh_def elf32_def)
  have s: "ref_invar (chunks (demo_proxy (\<lambda>_. 7)))" "ref_mem (chunks (demo_proxy (\<lambda>_. 7))) = (\<lambda>_. 7)"
    by (simp_all add: demo_proxy_def)
  have "\<exists>m. load_segments (mem_write ref_ops) elf32 buf eh (demo_proxy (\<lambda>_. 7))
      = Some (Inr ((), (demo_proxy (\<lambda>_. 7))\<lparr>chunks := m\<rparr>)) \<and> ref_invar m
    \<and> ref_mem m = fold (segment_mem buf) (phdrs elf32 buf eh) (ref_mem (chunks (demo_proxy (\<lambda>_. 7))))"
    by (rule segments_loaded [OF ref_provider _ s(1)]) (simp_all add: h b ph ok)
  then show ?thesis unfolding buf_def [symmetric] eh_def [symmetric] Let_def by (auto simp: ph m s)
qed

text \<open>
  C38. Files shorter than a header and files without an ELF magic number and a known class are
  refused: the loader stops with a failed assertion and no byte of memory has been written.
\<close>

theorem foreign_files_refused:
  assumes "length buf < 64 \<or> \<not> (is_elf32 buf \<or> is_elf64 buf)"
  shows "\<exists>msg. load_image w buf s = Some (Inl (Assert_failed msg))"
  by (rule load_image_refuses [OF assms])

theorem foreign_files_refused_witness:
  "\<exists>msg. load_image (mem_write ref_ops) (replicate 100 0) (demo_proxy (\<lambda>_. 7)) = Some (Inl (Assert_failed msg))"
  using foreign_files_refused [of "replicate 100 0"] by (simp add: is_elf32_def is_elf64_def is_elf_def)

text \<open>
  C37. A segment that runs past the end of the file is never loaded. Normally the size check stops
  the program; but the sum of offset and size wraps at the width of the class, and when it then
  looks small the check passes and the loader reads outside the mapped file.
\<close>

theorem segment_past_end_of_file:
  fixes ph :: "'a::len word phdr"
  defines "e \<equiv> unat (p_offset ph) + unat (p_filesz ph)"
  assumes "loads ph" and "p_filesz ph \<noteq> 0" and "length buf < e"
  shows "load_segment w buf ph s = Some (Inl (if 2 ^ LENGTH('a) \<le> e \<and> e - 2 ^ LENGTH('a) \<le> length buf then Out_of_bounds
    else Assert_failed ''size >= ph[i].p_offset + ph[i].p_filesz''))"
proof -
  have "unat (p_filesz ph) < 2 ^ LENGTH('a)" "unat (p_offset ph) < 2 ^ LENGTH('a)" by simp_all
  then have "e - 2 ^ LENGTH('a) < 2 ^ LENGTH('a)" unfolding e_def by linarith
  then have "unat (p_offset ph + p_filesz ph) = (if e < 2 ^ LENGTH('a) then e else e - 2 ^ LENGTH('a))"
    unfolding e_def by (simp add: unat_word_ariths le_mod_geq)
  then show ?thesis using assms(2-4) unfolding e_def
    by (auto simp: load_segment_def loads_def bindM_assoc monad_simps bytes_at_def)
qed

theorem segment_past_end_of_file_witness:
  "load_segment (mem_write ref_ops) (replicate 64 0) \<lparr>p_type = 1, p_flags = 0, p_offset = 0xfffffff0, p_vaddr = 0,
    p_paddr = 0, p_filesz = 32, p_memsz = 32, p_align = 0 :: u32\<rparr> (demo_proxy (\<lambda>_. 7)) = Some (Inl Out_of_bounds)"
  using segment_past_end_of_file [of "\<lparr>p_type = 1, p_flags = 0, p_offset = 0xfffffff0, p_vaddr = 0,
    p_paddr = 0, p_filesz = 32, p_memsz = 32, p_align = 0 :: u32\<rparr>" "replicate 64 0"]
  by (simp add: loads_def pt_load_def)

section \<open>The frame buffer\<close>

text \<open>
  C24. A frame: after as many ticks as the frame has blocks, the buffer that is shown holds the
  bytes of target memory at the frame's address, the two buffers have changed places, and the
  next frame starts at its beginning. Memory is only read.
\<close>

theorem frame_shown:
  fixes s :: "('a, 'o, 'z) machine_scheme"
  assumes "chunk_provider c mem invar valid k mx" and "invar (chunks s)" and "rfb_invar r" and "rfb_memif r"
    and "read_pos r = 0" and "fb_bytes r = 256 * n" "0 < n" and "\<forall>i<fb_bytes r. valid (rfb_addr r + of_nat i)"
  shows "\<exists>r' s'. rfb_ticks c os n r s = Some (Inr (r', s')) \<and> invar (chunks s') \<and> mem (chunks s') = mem (chunks s)
    \<and> read_pos r' = 0 \<and> fb1 r' = Some (load (mem (chunks s)) (rfb_addr r) (fb_bytes r)) \<and> fb2 r' = fb1 r"
proof -
  have "fb_bytes r \<noteq> 0" using assms(6,7) by simp
  then obtain buf where "fb2 r = Some buf" "length buf = fb_bytes r"
    using assms(3) by (auto simp: rfb_invar_def split: option.splits)
  then show ?thesis
    using chunk_provider.ticks_frame [OF assms(1,2,4), of buf n] assms(5-8) by simp
qed

theorem frame_shown_witness:
  "\<exists>r' s'. rfb_ticks ref_ops demo_os 1 \<lparr>rfb_device = raw_device, afd = -1, rfb_memif = True, rfb_addr = 0x1000,
      rfb_width = 8, rfb_height = 8, rfb_bpp = 32, display = 0, fb1 = Some (replicate 256 0), fb2 = Some (replicate 256 0),
      read_pos = 0\<rparr> (demo_proxy (\<lambda>_. 7)) = Some (Inr (r', s')) \<and> fb1 r' = Some (load (\<lambda>_. 7) 0x1000 256)"
proof -
  let ?r = "\<lparr>rfb_device = raw_device, afd = -1, rfb_memif = True, rfb_addr = 0x1000,
      rfb_width = 8, rfb_height = 8, rfb_bpp = 32, display = 0, fb1 = Some (replicate 256 0), fb2 = Some (replicate 256 0),
      read_pos = 0\<rparr>"
  have b: "fb_bytes ?r = 256" by (simp add: fb_bytes_def)
  then have "rfb_invar ?r" by (simp add: rfb_invar_def fb_align_def)
  from frame_shown [OF ref_provider _ this, of "demo_proxy (\<lambda>_. 7)" 1 demo_os] b
  show ?thesis by (auto simp: demo_proxy_def)
qed

section \<open>The debug transport module\<close>

text \<open>
  The field macros: for every field of a debug register, reading a field back gives the low
  bits of what was set, and setting one field leaves every disjoint field as it was.
\<close>

theorem register_fields:
  assumes "0 < n" and "k + n \<le> 32" and "0 < n'" "k' + n' \<le> 32" and "k + n \<le> k' \<or> k' + n' \<le> k"
  shows "get_field (set_field reg (field_mask k n) v) (field_mask k n) = take_bit n v
    \<and> get_field (set_field reg (field_mask k n) v) (field_mask k' n') = get_field reg (field_mask k' n')"
  using get_set_field [OF assms(1,2)] get_set_other [OF assms] by blast

theorem register_fields_witness:
  "get_field (set_field 0x80000001 DMI_DMCONTROL_HARTSEL 1029) DMI_DMCONTROL_HARTSEL = 5
   \<and> get_field (set_field 0x80000001 DMI_DMCONTROL_HARTSEL 1029) DMI_DMCONTROL_HALTREQ = get_field 0x80000001 DMI_DMCONTROL_HALTREQ"
  using register_fields [of 10 16 1 31 "0x80000001" 1029] unfolding mask_literals by simp

text \<open>
  Halting: the word written to the control register selects exactly the hart asked for, asks
  it to halt and not to resume, and keeps the debug module active.
\<close>

theorem halt_request:
  fixes w :: u32
  assumes "hart < 1024"
    and "w = set_field (DMI_DMCONTROL_HALTREQ OR DMI_DMCONTROL_DMACTIVE) DMI_DMCONTROL_HARTSEL (of_nat hart)"
  shows "get_field w DMI_DMCONTROL_HARTSEL = of_nat hart \<and> get_field w DMI_DMCONTROL_HALTREQ = 1
    \<and> get_field w DMI_DMCONTROL_RESUMEREQ = 0 \<and> get_field w DMI_DMCONTROL_DMACTIVE = 1"
  using halt_word [OF assms] by blast

theorem halt_request_witness:
  "get_field (set_field (DMI_DMCONTROL_HALTREQ OR DMI_DMCONTROL_DMACTIVE) DMI_DMCONTROL_HARTSEL 3) DMI_DMCONTROL_HARTSEL = 3"
  using halt_request [of 3] by simp

text \<open>
  The instructions placed in the program buffer decode, by the fields of the instruction-set
  manual, to the load, store, addition and register access they are meant to be, for all
  registers, offsets and register numbers.
\<close>

theorem instructions_decode:
  fixes d b :: "5 word" and csr :: "12 word" and type :: "2 word"
  shows "opcode_of (LOAD xl (ucast d) (ucast b) imm) = 0x03 \<and> rd_of (LOAD xl (ucast d) (ucast b) imm) = d
    \<and> rs1_of (LOAD xl (ucast d) (ucast b) imm) = b \<and> imm_i_of (LOAD xl (ucast d) (ucast b) imm) = ucast imm
    \<and> funct3_of (LOAD xl (ucast d) (ucast b) imm) = (if xl = 64 then 3 else 2)
    \<and> opcode_of (STORE xl (ucast d) (ucast b) imm) = 0x23 \<and> rs2_of (STORE xl (ucast d) (ucast b) imm) = d
    \<and> rs1_of (STORE xl (ucast d) (ucast b) imm) = b \<and> imm_s_of (STORE xl (ucast d) (ucast b) imm) = ucast imm
    \<and> funct3_of (STORE xl (ucast d) (ucast b) imm) = (if xl = 64 then 3 else 2)
    \<and> opcode_of (ADDI (ucast d) (ucast b) imm) = 0x13 \<and> rd_of (ADDI (ucast d) (ucast b) imm) = d
    \<and> rs1_of (ADDI (ucast d) (ucast b) imm) = b \<and> imm_i_of (ADDI (ucast d) (ucast b) imm) = ucast imm
    \<and> opcode_of (CSRRx (ucast type) (ucast d) (ucast csr) (ucast b)) = 0x73
    \<and> imm_i_of (CSRRx (ucast type) (ucast d) (ucast csr) (ucast b)) = csr
    \<and> funct3_of (CSRRx (ucast type) (ucast d) (ucast csr) (ucast b)) = ucast type"
  by (simp only: load_fields store_fields addi_fields csr_fields simp_thms)

text \<open>
  The branch that closes the clearing loop: its registers and its condition are as asked and
  its offset is the distance to the target, negative distances included.
\<close>

theorem branch_decodes:
  fixes d b :: "5 word"
  assumes "\<not> bit (there - here) 0"
  shows "opcode_of (BNE (ucast d) (ucast b) there here) = 0x63 \<and> rs1_of (BNE (ucast d) (ucast b) there here) = d
    \<and> rs2_of (BNE (ucast d) (ucast b) there here) = b \<and> funct3_of (BNE (ucast d) (ucast b) there here) = 1
    \<and> imm_b_of (BNE (ucast d) (ucast b) there here) = ucast (there - here)"
  using bne_fields [OF assms] by blast

theorem branch_decodes_witness:
  "rs1_of (BNE S0 S1 0 8) = 8 \<and> rs2_of (BNE S0 S1 0 8) = 9 \<and> imm_b_of (BNE S0 S1 0 8) = - 8"
proof -
  have "\<not> bit (0 - 8 :: u32) 0" by code_simp
  moreover have "(ucast (0 - 8 :: u32) :: 13 word) = - 8" by code_simp
  ultimately show ?thesis using branch_decodes [of 0 8 8 9] by (simp add: S0_def S1_def)
qed




text \<open>
  C21. The handshake with the simulator: over any run of ticks, every response that is taken answers
  a request that was accepted before, at most one request is outstanding, and no new one is
  offered while it is. The assertion in \<^verbatim>\<open>tick\<close> fails only for an answer nobody asked for.
\<close>

theorem requests_answered:
  assumes "ticks s0 a r s" and "\<not> req_wait s0" "\<not> resp_wait s0"
  shows "a = r + of_bool (resp_wait s) \<and> \<not> (req_wait s \<and> resp_wait s)
    \<and> ((\<exists>s'. tick rdy True p s = Some (Inr (True, s'))) \<longleftrightarrow> resp_wait s \<or> accepts rdy s)"
proof -
  have "resp_wait s \<or> accepts rdy s" if "tick rdy True p s = Some (Inr (True, s'))" for s'
    using tick_cases [OF that] by simp
  then show ?thesis using ticks_answered [OF assms] tick_asserts [of True s rdy p] by blast
qed

theorem requests_answered_witness:
  "\<exists>s. ticks (idle_dtm 2 ()) 1 0 s \<and> resp_wait s \<and> \<not> req_wait s"
proof -
  let ?s0 = "idle_dtm 2 ()" and ?p = "\<lparr>resp_resp = 0, resp_data = 0\<rparr>"
  have 1: "tick True False ?p ?s0 = Some (Inr (False, ?s0\<lparr>req_wait := True\<rparr>))"
    by (simp add: tick_def monad_simps idle_dtm_def)
  have 2: "tick True False ?p (?s0\<lparr>req_wait := True\<rparr>) = Some (Inr (False, ?s0\<lparr>resp_wait := True\<rparr>))"
    by (simp add: tick_def monad_simps idle_dtm_def)
  have t: "ticks ?s0 1 0 (?s0\<lparr>resp_wait := True\<rparr>)"
    using ticks.one_tick [OF ticks.one_tick [OF ticks.no_tick 1] 2] by (simp add: accepts_def idle_dtm_def)
  from requests_answered [OF this, of True ?p] t show ?thesis by (auto simp: idle_dtm_def)
qed

text \<open>
  Hart numbers: the enumeration ends, and whatever the debug module answers it counts at most as
  many harts as the select field can name.
\<close>

theorem hart_count_bound:
  assumes "enumerate_harts dmi s = Some (Inr (n, s'))"
  shows "n \<le> 1024"
  by (rule enumerate_harts_bound [OF assms])

theorem hart_count_bound_witness:
  "\<exists>n s'. enumerate_harts ready_dmi (idle_dtm 2 ()) = Some (Inr (n, s')) \<and> n \<le> 1024"
proof -
  have "returns (enumerate_harts ready_dmi (idle_dtm 2 ()))" by code_simp
  then obtain n s' where "enumerate_harts ready_dmi (idle_dtm 2 ()) = Some (Inr (n, s'))"
    unfolding returns_iff by auto
  then show ?thesis using hart_count_bound by blast
qed



text \<open>
  A limit of \<^verbatim>\<open>clear_chunk\<close>: it fills two data words whatever their number, so with a debug
  module that has one (enough for 32-bit harts) it never succeeds.
\<close>

theorem clear_with_one_data_word:
  assumes "data_words s = 1"
  shows "dtm_clear_chunk dmi taddr len s \<noteq> Some (Inr r)"
  by (rule clear_needs_two_words [OF assms])

theorem clear_with_one_data_word_witness:
  "\<not> returns (dtm_clear_chunk ready_dmi 0x80000000 8 (idle_dtm 1 ()))"
  using clear_with_one_data_word [of "idle_dtm 1 ()"] by (auto simp: returns_iff idle_dtm_def)

section \<open>The byte-stream interface and the option parser\<close>

text \<open>
  A blocking receive that returns has got exactly the bytes asked for, from the front of the
  stream, and has left the rest in order, whatever the host appended while the target waited; a
  blocked read of the host returns once the target has sent something.
\<close>

theorem byte_stream_order:
  fixes work :: "'e pthread_t \<Rightarrow> nat"
  assumes "\<And>t. \<exists>bs. ht_data (hst t) = ht_data t @ bs" and "target_recv hst n s = Some (Inr (buf, s'))"
    and "\<And>t. I t \<Longrightarrow> th_data t = [] \<Longrightarrow> I (tgt t) \<and> (th_data (tgt t) \<noteq> [] \<or> work (tgt t) < work t)"
    and "I s"
  shows "(length buf = n \<and> (\<exists>bs. ht_data s @ bs = buf @ ht_data s'))
    \<and> (\<exists>t. I t \<and> th_data t \<noteq> [] \<and>
        host_read tgt m s = Some (Inr (take m (th_data t), t\<lparr>th_data := drop m (th_data t)\<rparr>)))"
  using recv_finished [OF assms(1,2)] host_read_blocked [where I = I and s = s and tgt = tgt and work = work, OF assms(3,4)]
  by blast

theorem byte_stream_order_witness:
  "\<exists>buf s'. target_recv (\<lambda>t. t) 2 \<lparr>th_data = [], ht_data = [1, 2, 3], other = ()\<rparr> = Some (Inr (buf, s'))
    \<and> [1, 2, 3] = buf @ ht_data s'"
proof -
  let ?s = "\<lparr>th_data = [], ht_data = [1, 2, 3], other = ()\<rparr>" and ?I = "\<lambda>_. True" and ?t = "\<lambda>t. t\<lparr>th_data := [9]\<rparr>"
  have r: "target_recv (\<lambda>t. t) 2 ?s = Some (Inr ([1, 2], ?s\<lparr>ht_data := [3]\<rparr>))"
    by (subst recv_ready) simp_all
  show ?thesis
    using byte_stream_order [where I = ?I and tgt = ?t and work = "\<lambda>_. 0" and hst = "\<lambda>t. t", OF _ r] r by auto
qed

text \<open>
  The option parser stops at the first argument that is no option: what it returns is the end of
  the argument list, and its first element does not start with a dash.
\<close>

theorem options_parsed:
  assumes "parse print p argv0 argv s = Some (Inr (rest, s'))"
  shows "(rest = [] \<or> hd rest = [] \<or> hd (hd rest) \<noteq> dash) \<and> (\<exists>used. argv = used @ rest)"
  by (rule parse_stops [OF assms])

theorem options_parsed_witness:
  "\<exists>rest s'. parse (\<lambda>_. return ()) \<lparr>opts = [], helpmsg = None\<rparr> [0x61] [[0x62], [0x2D]] () = Some (Inr (rest, s'))
    \<and> hd (hd rest) \<noteq> dash"
proof -
  have p: "parse (\<lambda>_. return ()) \<lparr>opts = [], helpmsg = None\<rparr> [0x61] [[0x62], [0x2D]] () = Some (Inr ([[0x62], [0x2D]], ()))"
    by (subst parse.simps) (simp add: dash_def return_def)
  show ?thesis using options_parsed [OF p] p by auto
qed


section \<open>The debug transport module as a memory\<close>

text \<open>
  C5. The debug transport: through a debug module that behaves as the debug specification says
  and a 64-bit hart, every write of \<^verbatim>\<open>memif_t\<close> stores exactly its bytes in the memory of the target
  and every read returns them, however long the module makes the host poll. The little programs in
  the program buffer, the automatic execution and the clearing loop do what they are for.
\<close>

theorem dtm_memory:
  assumes "debug_module dmi ok pending view" and "dtm_invar ok pending view s"
    and "length bs \<le> 2 ^ 64"
  shows "\<exists>s1 s2. memif_write (dtm_ops dmi) a bs s = Some (Inr ((), s1))
    \<and> memif_read (dtm_ops dmi) b n s1 = Some (Inr (load (store (dtm_mem view s) a bs) b n, s2))
    \<and> dtm_invar ok pending view s2 \<and> dtm_mem view s2 = store (dtm_mem view s) a bs"
proof -
  note cp = debug_module.dtm_provider [OF assms(1)]
  obtain s1 where "memif_write (dtm_ops dmi) a bs s = Some (Inr ((), s1))" "dtm_invar ok pending view s1"
    "dtm_mem view s1 = store (dtm_mem view s) a bs"
    using chunk_provider.write_correct [OF cp assms(2,3)] by blast
  then show ?thesis
    using chunk_rw.read_correct [OF chunk_provider.axioms(1) [OF cp], of s1 n b] by auto
qed

theorem dtm_memory_witness:
  "\<exists>s1 s2. memif_write (dtm_ops ref_dmi) 0x80000003 [1, 0, 0, 0, 0, 0, 0, 0, 0, 0, 0, 0, 0, 9] (ref_dtm (\<lambda>_. 7)) = Some (Inr ((), s1))
    \<and> memif_read (dtm_ops ref_dmi) 0x80000000 4 s1 = Some (Inr (load (store (\<lambda>_. 7) 0x80000003
      [1, 0, 0, 0, 0, 0, 0, 0, 0, 0, 0, 0, 0, 9]) 0x80000000 4, s2))"
  using dtm_memory [OF ref_dm_spec ref_dtm_invar [of "\<lambda>_. 7"], of "[1, 0, 0, 0, 0, 0, 0, 0, 0, 0, 0, 0, 0, 9]" "0x80000003" "0x80000000" 4]
  by (auto simp: ref_dtm_mem)

text \<open>
  C6. A transfer leaves no trace in the harts: it borrows two registers of the current hart and a
  halt, and when it returns every register of every hart is as it was and the hart runs again.
\<close>

theorem dtm_transparent:
  assumes "debug_module dmi ok pending view" and "dtm_invar ok pending view s"
    and "1 \<le> q" and "8 * q \<le> 2 ^ 64" and "length bs = 8 * q"
  shows "(\<exists>s'. dtm_read_chunk dmi a (8 * q) s = Some (Inr (load (dtm_mem view s) a (8 * q), s')) \<and> harts_back view s s')
    \<and> (\<exists>s'. dtm_write_chunk dmi a bs s = Some (Inr ((), s')) \<and> harts_back view s s')
    \<and> (\<exists>s'. dtm_clear_chunk dmi a (8 * q) s = Some (Inr ((), s')) \<and> harts_back view s s')"
  using debug_module.read_back [OF assms(1,2)] debug_module.write_back [OF assms] debug_module.clear_back [OF assms(1-4)]
  by blast

theorem dtm_transparent_witness:
  "\<exists>s'. dtm_write_chunk ref_dmi 0x80000000 [1, 2, 3, 4, 5, 6, 7, 8] (ref_dtm (\<lambda>_. 0)) = Some (Inr ((), s'))
    \<and> harts_back fst (ref_dtm (\<lambda>_. 0)) s'"
  using dtm_transparent [OF ref_dm_spec ref_dtm_invar, of 1 "[1, 2, 3, 4, 5, 6, 7, 8]" "0x80000000" "\<lambda>_. 0"] by simp



section \<open>Context switches\<close>

text \<open>
  C10. The contexts are coroutines: whatever the scheduler does with their threads, no two contexts
  execute at the same time outside of \<^verbatim>\<open>context.cc\<close>. The queues and the memory that host and target
  share need no locks of their own.
\<close>

theorem one_context_runs:
  assumes "reached root s" and "pc s c = Running" and "pc s d = Running"
  shows "c = d"
proof -
  obtain t where t: "token_at t s" using reached_inv [OF assms(1)] by (auto simp: contexts_inv_def)
  then show ?thesis using assms(2,3) token_unique [OF t, of c] token_unique [OF t, of d] by simp
qed

theorem one_context_runs_witness:
  "pc two_contexts True = Running \<and> pc two_contexts False \<noteq> Running"
  using one_context_runs [OF two_contexts(1) two_contexts(3), of False] two_contexts(3) by auto

text \<open>
  C11. A switch arrives: after \<^verbatim>\<open>switch_to\<close> the steps inside \<^verbatim>\<open>context.cc\<close> come to an end, spurious
  wake-ups of a condition variable included, no signal is lost and no thread waits for ever for
  a mutex, and then the context that was switched to executes, and no other.
\<close>

theorem switch_arrives:
  fixes s :: "'c::finite contexts"
  assumes "reached root s" and "\<not> stopped s" and "pc s c = Running" and "pc s d \<noteq> Absent" and "d \<noteq> c"
    and "quiet n k (switch_to c d s) s'"
  shows "n \<le> effort (switch_to c d s) + 3 * k \<and> ((\<exists>s''. internal s' s'') \<or> pc s' d = Running)
    \<and> (\<forall>e. pc s' e = Running \<longrightarrow> e = d)"
proof -
  have inv: "contexts_inv (switch_to c d s)"
    using calls_inv [OF call_switch [OF assms(2-4)] reached_inv [OF assms(1)]] .
  have f: "\<not> stopped (switch_to c d s)" "pc (switch_to c d s) c = Clear_flag d"
    using assms(2,5) by (simp_all add: switch_to_def goto_def)
  obtain t where t: "token_at t (switch_to c d s)" using inv by (auto simp: contexts_inv_def)
  then have a: "aim (switch_to c d s) t = d" using token_unique [OF t, of c] f(2) by (simp add: aim_def)
  obtain t' where t': "token_at t' s'" "aim s' t' = d" "n + effort s' \<le> effort (switch_to c d s) + 3 * k"
    using quiet_invariants [OF assms(6) inv t f(1)] a by auto
  have "(\<exists>s''. internal s' s'') \<or> pc s' d = Running" using arrives [OF inv t f(1) assms(6)] a by auto
  moreover have "e = d" if "pc s' e = Running" for e using that t' token_unique [OF t'(1), of e] by (simp add: aim_def)
  ultimately show ?thesis using t'(3) by auto
qed

theorem switch_arrives_witness:
  "pc second_runs False = Running \<and> 11 \<le> effort (switch_to True False two_contexts)"
  using switch_arrives [OF two_contexts(1,2,3) _ _ second_runs(1)] second_runs(2) two_contexts(4) by auto



section \<open>The frame buffer's threads\<close>







text \<open>
  C8. A system call from the target's side, in one iteration of the main loop: the command word is
  taken, the bytes in target memory go to the host, the result is put into the frame and the
  response into the mailbox. The target sees these three stores and nothing else.
\<close>

theorem write_iteration:
  fixes s :: "('a, 'o, 'z) htif_scheme"
  assumes "chunk_provider c mem invar valid k mx" and "sub_chunks sub = c" and "invar (chunks s)"
    and "tohost_addr s AND 7 = 0" "\<forall>i<8. valid (tohost_addr s + of_nat i)"
    and "fromhost_addr s AND 7 = 0" "\<forall>i<8. valid (fromhost_addr s + of_nat i)"
    and "le_word (load (mem (chunks s)) (tohost_addr s) 8) = w" "w \<noteq> 0"
      "cmd_device \<lparr>tohost = w\<rparr> = 0" "cmd_cmd \<lparr>tohost = w\<rparr> = 0"
    and "m1 = store (mem (chunks s)) (tohost_addr s) (le_bytes (0 :: u64))"
      "m2 = store m1 mm (le_bytes r @ drop 8 (load m1 mm 64))" "le_word (load m2 (fromhost_addr s) 8) = (0 :: u64)"
    and "mm = cmd_payload \<lparr>tohost = w\<rparr>" "mm AND 1 = 0" "\<forall>i<64. valid (mm + of_nat i)"
      "frame = dwords (load m1 mm 64)" "frame ! 0 = 64" "unat (frame ! 3) < 2 ^ 63"
      "\<forall>i<unat (frame ! 3). valid (frame ! 2 + of_nat i)"
    and "os_write os (fds_lookup (frame ! 1) (fds (syscall_proxy s))) (load m1 (frame ! 2) (unat (frame ! 3))) (host s)
      = (ret, h)" "r = (if ret = -1 then scast (- os_errno os h) else ret)"
    and "num_devices (device_list s) = 2" "devices (device_list s) ! 0 = Dev_syscall"
      "devices (device_list s) ! 1 = Dev_bcd" "table (syscall_proxy s) = syscall_table"
      "command_handlers (sc_device (syscall_proxy s)) ! 0 = Some Syscall_handle"
    and "pending_reads (bcd s) = []" "fromhost_queue s = []"
  shows "\<exists>m. run_step sub os s = Some (Inr ((), s\<lparr>chunks := m, host := h\<rparr>)) \<and> invar m
    \<and> mem m = store m2 (fromhost_addr s) (le_bytes (response \<lparr>tohost = w\<rparr> 1))"
  by (rule chunk_provider.write_step [OF assms])

theorem write_iteration_witness:
  "let f = concat (map le_bytes [64, 1, 0x2000, 3, 0, 0, 0, 0 :: u64]);
       s = (demo_htif (store (\<lambda>_. 0) 0x1000 (le_bytes (0x1010 :: u64) @ replicate 8 0 @ f)))\<lparr>fromhost_queue := []\<rparr> in
   \<exists>k. run_step demo_sub demo_os s = Some (Inr ((), s\<lparr>chunks := k\<rparr>)) \<and> load (ref_mem k) 0x1008 8 = le_bytes (1 :: u64)"
proof -
  define f where "f = concat (map le_bytes [64, 1, 0x2000, 3, 0, 0, 0, 0 :: u64])"
  define m where "m = store (\<lambda>_. 0) 0x1000 (le_bytes (0x1010 :: u64) @ replicate 8 0 @ f)"
  define m1 where "m1 = store m 0x1000 (le_bytes (0 :: u64))"
  let ?s = "(demo_htif m)\<lparr>fromhost_queue := []\<rparr>"
  have lf: "length f = 64" by (simp add: f_def)
  note a = add_0_right [of "0x1000 :: u64"]
  have m1: "m1 = store (\<lambda>_. 0) 0x1000 (le_bytes (0 :: u64) @ replicate 8 0 @ f)"
    using store_overwrite [of 0 "le_bytes (0 :: u64)" "le_bytes (0x1010 :: u64) @ replicate 8 0 @ f" "\<lambda>_. 0" "0x1000"] lf
    by (simp add: m1_def m_def)
  have l: "load m1 0x1010 64 = f"
    using load_inside [of 16 64 "le_bytes (0 :: u64) @ replicate 8 0 @ f" "\<lambda>_. 0" "0x1000"] lf by (simp add: m1)
  have m2: "store m1 0x1010 (le_bytes (3 :: u64) @ drop 8 f) =
      store (\<lambda>_. 0) 0x1000 (le_bytes (0 :: u64) @ replicate 8 0 @ le_bytes (3 :: u64) @ drop 8 f)"
    using store_overwrite [of 16 "le_bytes (3 :: u64) @ drop 8 f" "le_bytes (0 :: u64) @ replicate 8 0 @ f" "\<lambda>_. 0" "0x1000"] lf
    by (simp add: m1)
  have "load (store m1 0x1010 (le_bytes (3 :: u64) @ drop 8 f)) 0x1008 8 = le_bytes (0 :: u64)"
    using load_inside [of 8 8 "le_bytes (0 :: u64) @ replicate 8 0 @ le_bytes (3 :: u64) @ drop 8 f" "\<lambda>_. 0" "0x1000"] lf
    by (simp add: m2 le_bytes_zero)
  then have z: "le_word (load (store m1 0x1010 (le_bytes (3 :: u64) @ drop 8 (load m1 0x1010 64))) 0x1008 8) = (0 :: u64)"
    by (simp add: l le_word_le_bytes)
  have "load m 0x1000 8 = le_bytes (0x1010 :: u64)"
    using load_inside [of 0 8 "le_bytes (0x1010 :: u64) @ replicate 8 0 @ f" "\<lambda>_. 0" "0x1000"] lf by (simp add: m_def)
  then have w: "le_word (load m 0x1000 8) = (0x1010 :: u64)" by (simp add: le_word_le_bytes)
  have p: "cmd_payload \<lparr>tohost = 0x1010\<rparr> = 0x1010" "cmd_device \<lparr>tohost = 0x1010\<rparr> = 0" "cmd_cmd \<lparr>tohost = 0x1010\<rparr> = 0"
    by (simp_all add: cmd_payload_def cmd_device_def cmd_cmd_def)
  have d: "dwords f = [64, 1, 0x2000, 3, 0, 0, 0, 0]" unfolding f_def by (rule bytes_dwords)
  have sub: "sub_chunks demo_sub = ref_ops" by (simp add: demo_sub_def)
  have s: "chunks ?s = tsi_with m" "tohost_addr ?s = 0x1000" "fromhost_addr ?s = 0x1008" "syscall_proxy ?s = demo_syscall"
    "bcd ?s = raw_bcd" "fromhost_queue ?s = []" "devices (device_list ?s) ! 0 = Dev_syscall"
    "devices (device_list ?s) ! 1 = Dev_bcd" "num_devices (device_list ?s) = 2"
    by (simp_all add: demo_htif_def)
  have y: "table demo_syscall = syscall_table" "command_handlers (sc_device demo_syscall) ! 0 = Some Syscall_handle"
    "pending_reads raw_bcd = []" by (simp_all add: demo_syscall_def raw_bcd_def)
  have "\<exists>k. run_step demo_sub demo_os ?s = Some (Inr ((), ?s\<lparr>chunks := k, host := ()\<rparr>)) \<and> ref_invar k \<and>
    ref_mem k = store (store m1 0x1010 (le_bytes (3 :: u64) @ drop 8 (load m1 0x1010 64))) (fromhost_addr ?s)
      (le_bytes (response \<lparr>tohost = 0x1010\<rparr> 1))"
  proof (rule write_iteration [OF ref_provider sub, where ret = 3 and mm = "0x1010" and frame = "dwords f" and r = 3])
    show "ref_invar (chunks ?s)" "tohost_addr ?s AND 7 = 0" "fromhost_addr ?s AND 7 = 0" by (simp_all add: s)
    show "(0x1010 :: u64) AND 1 = 0" by code_simp
    show "m1 = store (ref_mem (chunks ?s)) (tohost_addr ?s) (le_bytes (0 :: u64))" by (simp add: s m1_def)
  qed (use s y w p d l z in simp_all)
  then obtain k where "run_step demo_sub demo_os ?s = Some (Inr ((), ?s\<lparr>chunks := k, host := ()\<rparr>))"
    "ref_mem k = store (store m1 0x1010 (le_bytes (3 :: u64) @ drop 8 f)) 0x1008 (le_bytes (response \<lparr>tohost = 0x1010\<rparr> 1))"
    by (auto simp: s l)
  moreover have "response \<lparr>tohost = 0x1010\<rparr> 1 = 1" by (simp add: response_def)
  moreover have "load (store m' a (le_bytes (1 :: u64))) a 8 = le_bytes (1 :: u64)" for m' a
    using load_store_same [of "le_bytes (1 :: u64)" m' a] by simp
  ultimately show ?thesis unfolding f_def [symmetric] m_def [symmetric] Let_def by (intro exI [of _ k]) simp
qed

section \<open>The tables of the headers\<close>

text \<open>
  C29. Decoding by the table of instructions is unambiguous: two entries that match the same word are
  the same entry, or the word is compressed and one pattern is a special case of the other, or the
  two are one of the five patterns that the 32-bit and the 64-bit architecture use for
  different instructions. A word that is not compressed decodes to at most one instruction.
\<close>

theorem decoding_unambiguous:
  assumes "a \<in> set opcodes" and "b \<in> set opcodes" and "matches w a" and "matches w b"
  shows "length (decode w) \<le> 1 \<or> uint w AND 3 \<noteq> 3 \<and>
    (a = b \<or> refines a b \<or> refines b a \<or> same_pattern a b \<or> same_pattern b a)"
proof (cases "uint w AND 3 = 3")
  case True
  then show ?thesis using long_unique by (simp add: decode_snd)
next
  case False
  then show ?thesis using short_related [OF assms] by (auto simp: related_def)
qed

theorem decoding_unambiguous_witness:
  "matches 0x1063 (Opcode ''BNE'' 0x1063 0x707f) \<and> length (decode 0x1063) \<le> 1"
  using decoding_unambiguous [of "Opcode ''BNE'' 0x1063 0x707f" "Opcode ''BNE'' 0x1063 0x707f" "0x1063"]
  by (simp add: opcodes_defs matches_def)

text \<open>
  C30. Every instruction that the debug transport can place in the program buffer is the one that the
  table of \<^verbatim>\<open>encoding.h\<close> knows under its name, and no other, for all registers, offsets and
  register numbers: the literals of the macros agree with the generated table.
\<close>

theorem program_buffer_decodes:
  fixes d b s :: "5 word" and csr :: "12 word"
  shows "decode (LOAD 64 (ucast d) (ucast b) imm) = [''ld''] \<and> decode (STORE 64 (ucast d) (ucast b) imm) = [''sd'']
    \<and> decode (LOAD 32 (ucast d) (ucast b) imm) = [''lw''] \<and> decode (STORE 32 (ucast d) (ucast b) imm) = [''sw'']
    \<and> decode (ADDI (ucast d) (ucast b) imm) = [''addi''] \<and> decode (SRL (ucast d) (ucast b) (ucast s)) = [''srl'']
    \<and> decode (JUMP there here) = [''jal''] \<and> decode (BNE (ucast d) (ucast b) (2 * there) (2 * here)) = [''bne'']
    \<and> decode (CSRRx csr_write (ucast d) (ucast csr) (ucast b)) = [''csrrw'']
    \<and> decode (CSRRx csr_set (ucast d) (ucast csr) (ucast b)) = [''csrrs'']
    \<and> decode (CSRRx csr_clear (ucast d) (ucast csr) (ucast b)) = [''csrrc'']
    \<and> decode FENCE_I = [''fence_i''] \<and> decode EBREAK = [''ebreak'']"
proof -
  have "2 dvd 2 * there - 2 * here" by (intro dvd_diff dvd_triv_left)
  then have "\<not> bit (2 * there - 2 * here) 0" by (simp only: bit_0 not_not)
  from decode_others(4) [OF this] show ?thesis by (simp add: decode_transfers decode_others decode_csr)
qed



text \<open>
  C13. Loading the program, from its path to its symbols: the program file is found and mapped, every
  segment is in memory as the file says, the entry point and the addresses of the two mailboxes
  are those of the file, and so are the bounds of the signature when the file has both. The
  file is of either class; only its own well-formedness is assumed.
\<close>

theorem program_loaded:
  fixes s :: "('a, 'o, 'z) htif_scheme"
  assumes "chunk_provider c mem invar valid k mx" and "sub_chunks sub = c" and "\<forall>a n. \<not> sub_preloaded sub a n"
    and "invar (chunks s)" and "targs s = targ # rest" "targ \<noteq> []"
    and "os_access os targ (host s) = (0, h1)" "map_file os targ h1 = Some (Inr (buf, h2))"
    and "image_ok valid buf"
    and "image_symbols buf (str ''tohost'') = Some t" "image_symbols buf (str ''fromhost'') = Some f"
  shows "\<exists>m. load_program sub os pfx s = Some (Inr ((),
      let s' = s\<lparr>chunks := m, host := h2, entry := image_entry buf, tohost_addr := t, fromhost_addr := f\<rparr> in
      case (image_symbols buf (str ''begin_signature''), image_symbols buf (str ''end_signature'')) of
        (Some b, Some e) \<Rightarrow> s'\<lparr>sig_addr := b, sig_len := e - b\<rparr> | _ \<Rightarrow> s'))
    \<and> invar m \<and> mem m = image_mem buf (mem (chunks s))"
  by (rule chunk_provider.load_program_OK [OF assms])

theorem program_loaded_witness:
  "\<exists>m. load_program demo_sub elf_os [] (demo_htif (\<lambda>_. 7)) =
      Some (Inr ((), (demo_htif (\<lambda>_. 7))\<lparr>chunks := m, entry := 0x80000000, tohost_addr := 0x80001000,
        fromhost_addr := 0x80001008\<rparr>))
    \<and> ref_mem m = store (\<lambda>_. 7) 0x80000000 [0x13, 0, 0, 0, 0, 0, 0, 0]"
proof -
  have s: "sub_chunks demo_sub = ref_ops" "\<forall>a n. \<not> sub_preloaded demo_sub a n"
    "ref_invar (chunks (demo_htif (\<lambda>_. 7)))" "ref_mem (chunks (demo_htif (\<lambda>_. 7))) = (\<lambda>_. 7)"
    "targs (demo_htif (\<lambda>_. 7)) = [[0x61]]" "host (demo_htif (\<lambda>_. 7)) = ()"
    by (simp_all add: demo_sub_def demo_htif_def)
  have d: "(demo_htif (\<lambda>_. 7))\<lparr>chunks := m, host := ()\<rparr> = (demo_htif (\<lambda>_. 7))\<lparr>chunks := m\<rparr>" for m by simp
  have sym: "image_symbols demo_elf (str ''tohost'') = Some 0x80001000"
    "image_symbols demo_elf (str ''fromhost'') = Some 0x80001008"
    "image_symbols demo_elf (str ''begin_signature'') = None"
    by (simp_all add: demo_image demo_strs)
  have p: "[0x61 :: u8] \<noteq> []" by simp
  note loaded = program_loaded [OF ref_provider s(1-3) s(5) p elf_os_calls(1) elf_os_calls(2) demo_image_ok sym(1,2), of "[]",
      unfolded sym(3) s(4) demo_image(2,3) Let_def option.case prod.case]
  then show ?thesis by (simp only: d s(6)) blast
qed

end
